(* ===== verification/Prelude.thy ===== *)
theory Prelude
  imports Main "HOL-Library.Word" "HOL-Library.Monad_Syntax"
begin

text \<open>
  Shared vocabulary of the development: Rust's \<open>HashMap\<close> as a partial map whose
  iteration order is an explicit argument, timestamps and durations, saturating
  subtraction on machine words, the decimal printing done by \<open>format!\<close>, and the
  generic list lemmas used by more than one component.
\<close>

named_theorems hm_simps \<open>what the hash map operations return at a key\<close>
named_theorems sat_simps \<open>saturating arithmetic on machine words read as natural numbers\<close>

section \<open>Types\<close>

text \<open>
  A UUID is represented by its canonical hyphenated text, so \<open>to_string\<close> is the
  identity; \<open>Uuid::parse_str\<close> and \<open>Uuid::new_v5\<close> belong to the \<open>uuid\<close> crate and are
  arguments of the definitions that call them.  A \<open>DateTime<Utc>\<close> is the number of
  nanoseconds since the epoch.
\<close>

type_synonym uuid = string
type_synonym datetime = int
type_synonym u32 = "32 word"
type_synonym u64 = "64 word"

section \<open>Hash maps\<close>

text \<open>
  \<open>hm_order ks m\<close> says that \<open>ks\<close> is a possible iteration order of the map \<open>m\<close>.
  Rust leaves the order open, so every definition that iterates takes \<open>ks\<close>.
\<close>

definition hm_order :: "'k list \<Rightarrow> ('k \<rightharpoonup> 'v) \<Rightarrow> bool" where
  "hm_order ks m \<longleftrightarrow> distinct ks \<and> set ks = dom m"

definition hm_values :: "'k list \<Rightarrow> ('k \<rightharpoonup> 'v) \<Rightarrow> 'v list" where
  "hm_values ks m = List.map_filter m ks"

definition hm_modify :: "'k \<Rightarrow> ('v \<Rightarrow> 'v) \<Rightarrow> ('k \<rightharpoonup> 'v) \<Rightarrow> ('k \<rightharpoonup> 'v)" where
  "hm_modify k f m = (case m k of None \<Rightarrow> m | Some v \<Rightarrow> m(k \<mapsto> f v))"

definition hm_map_values :: "('v \<Rightarrow> 'v) \<Rightarrow> ('k \<rightharpoonup> 'v) \<Rightarrow> ('k \<rightharpoonup> 'v)" where
  "hm_map_values f m = (\<lambda>k. map_option f (m k))"

definition hm_retain :: "('k \<Rightarrow> 'v \<Rightarrow> bool) \<Rightarrow> ('k \<rightharpoonup> 'v) \<Rightarrow> ('k \<rightharpoonup> 'v)" where
  "hm_retain P m = (\<lambda>k. case m k of None \<Rightarrow> None | Some v \<Rightarrow> if P k v then Some v else None)"

definition hm_remove :: "'k \<Rightarrow> ('k \<rightharpoonup> 'v) \<Rightarrow> ('k \<rightharpoonup> 'v)" where
  "hm_remove k m = m(k := None)"

lemma hm_modify_same [hm_simps]: "hm_modify k f m k = map_option f (m k)"
  by (simp add: hm_modify_def split: option.split)

lemma hm_modify_other [hm_simps]: "k' \<noteq> k \<Longrightarrow> hm_modify k f m k' = m k'"
  by (simp add: hm_modify_def split: option.split)

lemma hm_modify_apply:
  "hm_modify k f m k' = (if k' = k then map_option f (m k) else m k')"
  by (simp add: hm_simps)

lemma dom_hm_modify [simp]: "dom (hm_modify k f m) = dom m"
  by (auto simp: hm_modify_def split: option.split)

lemma hm_modify_none [simp]: "m k = None \<Longrightarrow> hm_modify k f m = m"
  by (simp add: hm_modify_def)

lemma hm_modify_some [simp]: "m k = Some v \<Longrightarrow> hm_modify k f m = m(k \<mapsto> f v)"
  by (simp add: hm_modify_def)

lemma hm_map_values_apply [hm_simps]: "hm_map_values f m k = map_option f (m k)"
  by (simp add: hm_map_values_def)

lemma dom_hm_map_values [simp]: "dom (hm_map_values f m) = dom m"
  by (auto simp: hm_map_values_def)

lemma hm_retain_Some:
  "hm_retain P m k = Some v \<longleftrightarrow> m k = Some v \<and> P k v"
  by (auto simp: hm_retain_def split: option.splits if_splits)

lemma hm_retain_None:
  "hm_retain P m k = None \<longleftrightarrow> (\<forall>v. m k = Some v \<longrightarrow> \<not> P k v)"
  by (auto simp: hm_retain_def split: option.splits)

lemma hm_remove_apply [hm_simps]: "hm_remove k m k' = (if k' = k then None else m k')"
  by (simp add: hm_remove_def)

lemma set_hm_values: "set (hm_values ks m) = {v. \<exists>k \<in> set ks. m k = Some v}"
  by (induction ks) (auto simp: hm_values_def List.map_filter_simps split: option.splits)

lemma set_hm_values_order: "hm_order ks m \<Longrightarrow> set (hm_values ks m) = ran m"
  by (auto simp: set_hm_values hm_order_def ran_def dom_def)

lemma hm_values_Nil [simp]: "hm_values [] m = []"
  by (simp add: hm_values_def List.map_filter_simps)

lemma hm_values_Cons [simp]:
  "hm_values (k # ks) m = (case m k of None \<Rightarrow> hm_values ks m | Some v \<Rightarrow> v # hm_values ks m)"
  by (simp add: hm_values_def List.map_filter_simps split: option.split)

lemma fold_hm_modify:
  "distinct ks \<Longrightarrow> fold (\<lambda>k. hm_modify k (f k)) ks m k' = (if k' \<in> set ks then map_option (f k') (m k') else m k')"
  by (induction ks arbitrary: m) (auto simp: hm_modify_apply)

lemma length_hm_values_order: "hm_order ks m \<Longrightarrow> length (hm_values ks m) = card (dom m)"
proof -
  have "set ks \<subseteq> dom m \<Longrightarrow> length (hm_values ks m) = length ks" for ks
    by (induction ks) auto
  then show "hm_order ks m \<Longrightarrow> length (hm_values ks m) = card (dom m)"
    by (metis distinct_card hm_order_def order_refl)
qed

section \<open>Time\<close>

text \<open>
  \<open>chrono::Duration::num_seconds\<close> rounds toward zero; \<open>as u64\<close> of a negative
  count wraps.
\<close>

definition nanos_per_sec :: int where
  "nanos_per_sec = 1000000000"

definition num_seconds :: "int \<Rightarrow> int" where
  "num_seconds d = (if 0 \<le> d then d div nanos_per_sec else - ((- d) div nanos_per_sec))"

definition as_u64 :: "int \<Rightarrow> u64" where
  "as_u64 i = word_of_int i"

lemma num_seconds_nonneg: "0 \<le> d \<Longrightarrow> 0 \<le> num_seconds d"
  by (simp add: num_seconds_def nanos_per_sec_def)

lemma as_u64_less:
  "0 \<le> i \<Longrightarrow> i < 2 ^ 64 \<Longrightarrow> (w < as_u64 i) = (uint w < i)"
  by (simp add: as_u64_def word_less_def uint_word_of_int)

section \<open>Saturating subtraction\<close>

definition saturating_sub :: "'a::len word \<Rightarrow> 'a word \<Rightarrow> 'a word" where
  "saturating_sub a b = (if b \<le> a then a - b else 0)"

lemma unat_saturating_sub [sat_simps]: "unat (saturating_sub a b) = unat a - unat b"
  by (auto simp: saturating_sub_def unat_sub word_le_nat_alt)

lemma saturating_sub_0 [simp]: "saturating_sub a 0 = a"
  by (simp add: saturating_sub_def)

lemma saturating_sub_le [simp]: "saturating_sub a b \<le> a"
  by (simp add: word_le_nat_alt sat_simps)

lemma saturating_sub_add_cancel:
  "unat a + unat b < 2 ^ LENGTH('a) \<Longrightarrow> saturating_sub (a + b) (b :: 'a::len word) = a"
  by (simp add: word_unat_eq_iff sat_simps unat_word_ariths)

lemma unat_min: "unat (min a b) = min (unat a) (unat b)"
  by (simp add: min_def word_le_nat_alt)

text \<open>The comparison \<open>a + b > c\<close> of the source is exact when the sum fits the word.\<close>

lemma word_add_le_iff:
  "unat a + unat b < 2 ^ LENGTH('a) \<Longrightarrow> (a + b \<le> (c :: 'a::len word)) = (unat a + unat b \<le> unat c)"
  by (simp add: word_le_nat_alt unat_word_ariths)

lemma unat_add_noov:
  "unat a + unat b < 2 ^ LENGTH('a) \<Longrightarrow> unat (a + b :: 'a::len word) = unat a + unat b"
  by (simp add: unat_word_ariths)

lemma unat_sum_list_le: "unat (sum_list (ws :: 'a::len word list)) \<le> sum_list (map unat ws)"
proof (induction ws)
  case (Cons w ws)
  have "unat (w + sum_list ws) \<le> unat w + unat (sum_list ws)"
    by (simp add: unat_word_ariths)
  with Cons show ?case by simp
qed simp

lemma unat_sum_list:
  "sum_list (map unat ws) < 2 ^ LENGTH('a) \<Longrightarrow> unat (sum_list (ws :: 'a::len word list)) = sum_list (map unat ws)"
proof (induction ws)
  case (Cons w ws)
  then show ?case by (simp add: unat_add_noov)
qed simp

lemma unat_sum_over:
  assumes "distinct ks" "(\<Sum>k \<in> set ks. unat (f k :: 'a::len word)) \<le> unat (w :: 'a word)"
  shows "unat (sum_list (map f ks)) = (\<Sum>k \<in> set ks. unat (f k))"
proof -
  have "(\<Sum>k \<in> set ks. unat (f k)) < 2 ^ LENGTH('a)"
    by (rule order_le_less_trans [OF assms(2) unsigned_less])
  then show ?thesis
    using unat_sum_list [of "map f ks"] assms(1) by (simp add: sum_list_distinct_conv_sum_set comp_def)
qed

section \<open>Decimal printing\<close>

fun nat_to_dec :: "nat \<Rightarrow> string" where
  "nat_to_dec n = (if n < 10 then [char_of (48 + n)] else nat_to_dec (n div 10) @ [char_of (48 + n mod 10)])"

declare nat_to_dec.simps [simp del]

definition int_to_dec :: "int \<Rightarrow> string" where
  "int_to_dec i = (if i < 0 then CHR ''-'' # nat_to_dec (nat (- i)) else nat_to_dec (nat i))"

section \<open>Strings\<close>

text \<open>\<open>[String]::join\<close>.\<close>

fun str_join :: "string \<Rightarrow> string list \<Rightarrow> string" where
  "str_join sep [] = []"
| "str_join sep [x] = x"
| "str_join sep (x # y # xs) = x @ sep @ str_join sep (y # xs)"

text \<open>A text in single quotes.\<close>

definition quoted :: "string \<Rightarrow> string" where
  "quoted s = [CHR 0x27] @ s @ [CHR 0x27]"

section \<open>Fallible computations\<close>

text \<open>\<open>Option::unwrap_or\<close>.\<close>

definition unwrap_or :: "'a \<Rightarrow> 'a option \<Rightarrow> 'a" where
  "unwrap_or d x = (case x of Some v \<Rightarrow> v | None \<Rightarrow> d)"


text \<open>The \<open>?\<close> operator: continue on success, return the error otherwise.\<close>

definition and_then :: "('e + 'a) \<Rightarrow> ('a \<Rightarrow> 'e + 'b) \<Rightarrow> 'e + 'b" where
  "and_then m f = (case m of Inl e \<Rightarrow> Inl e | Inr x \<Rightarrow> f x)"

lemma and_then_simps [simp]: "and_then (Inl e) f = Inl e" "and_then (Inr x) f = f x"
  by (simp_all add: and_then_def)

lemma and_then_cong [fundef_cong]:
  "m = m' \<Longrightarrow> (\<And>x. m' = Inr x \<Longrightarrow> f x = f' x) \<Longrightarrow> and_then m f = and_then m' f'"
  by (cases m') (auto simp: and_then_def)

lemma and_then_Inr_iff: "and_then m f = Inr y \<longleftrightarrow> (\<exists>x. m = Inr x \<and> f x = Inr y)"
  by (cases m) auto

lemma and_then_Inl_iff: "and_then m f = Inl e \<longleftrightarrow> m = Inl e \<or> (\<exists>x. m = Inr x \<and> f x = Inl e)"
  by (cases m) auto

section \<open>Lists\<close>

text \<open>\<open>iter_mut().find(p)\<close> followed by an assignment: the first match is updated.\<close>

fun update_first :: "('a \<Rightarrow> bool) \<Rightarrow> ('a \<Rightarrow> 'a) \<Rightarrow> 'a list \<Rightarrow> 'a list" where
  "update_first P f [] = []"
| "update_first P f (x # xs) = (if P x then f x # xs else x # update_first P f xs)"

lemma length_update_first [simp]: "length (update_first P f xs) = length xs"
  by (induction xs) auto

lemma update_first_find:
  "List.find P xs = Some x \<Longrightarrow> f x \<in> set (update_first P f xs)"
  by (induction xs) (auto split: if_splits)

lemma update_first_none [simp]: "\<forall>x \<in> set xs. \<not> P x \<Longrightarrow> update_first P f xs = xs"
  by (induction xs) auto

lemma set_update_first_subset:
  "set (update_first P f xs) \<subseteq> set xs \<union> f ` {x \<in> set xs. P x}"
  by (induction xs) auto

lemma map_update_first_id:
  "(\<And>x. g (f x) = g x) \<Longrightarrow> map g (update_first P f xs) = map g xs"
  by (induction xs) auto

lemma in_set_map_filter: "x \<in> set (List.map_filter f xs) \<longleftrightarrow> (\<exists>y \<in> set xs. f y = Some x)"
  by (induction xs) (auto simp: List.map_filter_simps split: option.splits)

end
