(* ===== verification/Dag.thy ===== *)
theory Dag
  imports Prelude "HOL-Library.Multiset"
begin

text \<open>
  The stage dependency graph (\<open>ci-controller/src/dag.rs\<close>): Kahn's topological sort over
  \<open>depends_on\<close>.  \<open>ks\<close> is the iteration order of the dependency map and \<open>os\<close> the
  iteration order of the in-degree map.  The main loop runs on fuel \<open>length os\<close>;
  \<open>topo_sort_correct\<close> shows that this is always enough, and that the decrement of an
  in-degree never underflows.
\<close>

section \<open>Definitions\<close>

type_synonym deps = "string \<rightharpoonup> string list"

definition or_insert :: "'k \<Rightarrow> 'v \<Rightarrow> ('k \<rightharpoonup> 'v) \<Rightarrow> ('k \<rightharpoonup> 'v)" where
  "or_insert k v m = (if m k = None then m(k \<mapsto> v) else m)"

type_synonym topo_maps = "(string \<rightharpoonup> nat) \<times> (string \<rightharpoonup> string list)"

definition add_edge :: "string \<Rightarrow> topo_maps \<Rightarrow> string \<Rightarrow> topo_maps" where
  "add_edge node maps parent =
     (let in_degree = or_insert parent 0 (fst maps);
          children = or_insert parent [] (snd maps);
          children = children(parent \<mapsto> the (children parent) @ [node]);
          in_degree = or_insert node 0 in_degree
      in (in_degree(node \<mapsto> the (in_degree node) + 1), children))"

definition add_node :: "deps \<Rightarrow> topo_maps \<Rightarrow> string \<Rightarrow> topo_maps" where
  "add_node deps maps node =
     foldl (add_edge node) (or_insert node 0 (fst maps), snd maps) (the (deps node))"

definition build_maps :: "string list \<Rightarrow> deps \<Rightarrow> topo_maps" where
  "build_maps ks deps = foldl (add_node deps) (Map.empty, Map.empty) ks"

text \<open>The inner loop over the children of a node; the error values are the missing entry
  and the underflow of \<open>*d -= 1\<close>.\<close>

fun kahn_kids ::
  "string list \<Rightarrow> (string \<rightharpoonup> nat) \<Rightarrow> string list \<Rightarrow> string + (string \<rightharpoonup> nat) \<times> string list" where
  "kahn_kids [] d q = Inr (d, q)"
| "kahn_kids (kid # kids) d q =
     (case d kid of
        None \<Rightarrow> Inl (''Stage '' @ [CHR 0x27] @ kid @ [CHR 0x27] @ '' referenced in depends_on but not defined'')
      | Some n \<Rightarrow>
          if n = 0 then Inl ''attempt to subtract with overflow''
          else kahn_kids kids (d(kid \<mapsto> n - 1)) (if n - 1 = 0 then q @ [kid] else q))"

fun kahn_loop ::
  "nat \<Rightarrow> (string \<rightharpoonup> string list) \<Rightarrow> string list \<Rightarrow> (string \<rightharpoonup> nat) \<Rightarrow> string list
   \<Rightarrow> (string + string list \<times> (string \<rightharpoonup> nat)) option" where
  "kahn_loop fuel children [] d out = Some (Inr (out, d))"
| "kahn_loop 0 children (node # queue) d out = None"
| "kahn_loop (Suc fuel) children (node # queue) d out =
     (case kahn_kids (case children node of Some kids \<Rightarrow> kids | None \<Rightarrow> []) d queue of
        Inl e \<Rightarrow> Some (Inl e)
      | Inr (d', queue') \<Rightarrow> kahn_loop fuel children queue' d' (out @ [node]))"

definition topo_sort :: "string list \<Rightarrow> string list \<Rightarrow> deps \<Rightarrow> (string + string list) option" where
  "topo_sort ks os deps =
     (let (in_degree, children) = build_maps ks deps;
          queue = filter (\<lambda>n. in_degree n = Some 0) os
      in case kahn_loop (length os) children queue in_degree [] of
           None \<Rightarrow> None
         | Some (Inl e) \<Rightarrow> Some (Inl e)
         | Some (Inr (out, d)) \<Rightarrow>
             Some (if length out < length os
                   then Inl (case List.find (\<lambda>n. case d n of Some k \<Rightarrow> k > 0 | None \<Rightarrow> False) os of
                               Some n \<Rightarrow> n | None \<Rightarrow> ''unknown'')
                   else Inr out))"

definition validate_dag :: "string list \<Rightarrow> string list \<Rightarrow> deps \<Rightarrow> (string + unit) option" where
  "validate_dag ks os deps = map_option (map_sum id (\<lambda>_. ())) (topo_sort ks os deps)"

section \<open>The graph\<close>

definition parents :: "deps \<Rightarrow> string \<Rightarrow> string list" where
  "parents deps n = (case deps n of Some ps \<Rightarrow> ps | None \<Rightarrow> [])"

definition dag_nodes :: "deps \<Rightarrow> string set" where
  "dag_nodes deps = dom deps \<union> (\<Union>n. set (parents deps n))"

definition dag_edges :: "deps \<Rightarrow> (string \<times> string) set" where
  "dag_edges deps = {(p, n). p \<in> set (parents deps n)}"

definition topo_order :: "deps \<Rightarrow> string list \<Rightarrow> bool" where
  "topo_order deps s \<longleftrightarrow> distinct s \<and> set s = dag_nodes deps \<and>
     (\<forall>i < length s. set (parents deps (s ! i)) \<subseteq> set (take i s))"

section \<open>Building the maps\<close>

definition kids_of :: "(string \<rightharpoonup> string list) \<Rightarrow> string \<Rightarrow> string list" where
  "kids_of ch n = (case ch n of Some kids \<Rightarrow> kids | None \<Rightarrow> [])"

text \<open>What the maps hold when the nodes \<open>N\<close> have been entered, each node \<open>n\<close> with the
  parents \<open>par n\<close>.\<close>

definition maps_ok :: "string set \<Rightarrow> (string \<Rightarrow> string list) \<Rightarrow> topo_maps \<Rightarrow> bool" where
  "maps_ok N par maps \<longleftrightarrow>
     (\<forall>n. n \<notin> N \<longrightarrow> par n = []) \<and>
     (\<forall>n. fst maps n = (if n \<in> N \<union> (\<Union>k. set (par k)) then Some (length (par n)) else None)) \<and>
     (\<forall>p n. count_list (kids_of (snd maps) p) n = count_list (par n) p)"

lemma kids_of_push:
  "kids_of ((or_insert p [] ch)(p \<mapsto> the (or_insert p [] ch p) @ [x])) q =
   (if q = p then kids_of ch p @ [x] else kids_of ch q)"
  by (auto simp: kids_of_def or_insert_def split: option.splits)

lemma add_edge_ok:
  assumes ok: "maps_ok N par maps" and node: "node \<in> N"
  shows "maps_ok N (par(node := par node @ [p])) (add_edge node maps p)"
proof -
  let ?par = "par(node := par node @ [p])"
  have nodes: "(\<Union>k. set (?par k)) = insert p (\<Union>k. set (par k))" by (auto split: if_splits)
  have none: "n \<notin> N \<Longrightarrow> par n = []" for n using ok by (simp add: maps_ok_def)
  have deg: "fst maps n = (if n \<in> N \<union> (\<Union>k. set (par k)) then Some (length (par n)) else None)"
    and cnt: "count_list (kids_of (snd maps) q) n = count_list (par n) q" for n q
    using ok by (auto simp: maps_ok_def)
  have "fst (add_edge node maps p) n =
        (if n \<in> N \<union> (\<Union>k. set (?par k)) then Some (length (?par n)) else None)" for n
    unfolding nodes using node none [of p]
    by (auto simp: add_edge_def Let_def or_insert_def deg split: if_splits)
  moreover have "count_list (kids_of (snd (add_edge node maps p)) q) n = count_list (?par n) q" for n q
    by (auto simp: add_edge_def Let_def kids_of_push cnt)
  ultimately show ?thesis using node none by (auto simp: maps_ok_def)
qed

lemma add_edges_ok:
  assumes "maps_ok N par maps" "node \<in> N"
  shows "maps_ok N (par(node := par node @ ps)) (foldl (add_edge node) maps ps)"
  using assms
proof (induction ps arbitrary: par maps)
  case (Cons p ps)
  have "maps_ok N (par(node := par node @ p # ps)) (foldl (add_edge node) (add_edge node maps p) ps)"
    using Cons.IH [OF add_edge_ok [OF Cons.prems, of p] Cons.prems(2)]
    by (simp only: fun_upd_upd fun_upd_same append_assoc append.simps)
  then show ?case by (simp only: foldl_Cons)
qed simp

lemma add_node_ok:
  assumes ok: "maps_ok N par maps" and new: "node \<notin> N" and deps: "deps node = Some ps"
  shows "maps_ok (insert node N) (par(node := ps)) (add_node deps maps node)"
proof -
  have empty: "par node = []" using ok new by (simp add: maps_ok_def)
  have "maps_ok (insert node N) par (or_insert node 0 (fst maps), snd maps)"
    using ok empty by (auto simp: maps_ok_def or_insert_def)
  from add_edges_ok [OF this, of node ps] show ?thesis
    by (simp add: add_node_def deps empty)
qed

lemma build_maps_ok:
  assumes "distinct ks" "set ks \<subseteq> dom deps" "maps_ok N par maps" "set ks \<inter> N = {}"
  shows "maps_ok (N \<union> set ks) (\<lambda>n. if n \<in> set ks then parents deps n else par n)
           (foldl (add_node deps) maps ks)"
  using assms
proof (induction ks arbitrary: N par maps)
  case (Cons k ks)
  then obtain ps where ps: "deps k = Some ps" by auto
  have "maps_ok (insert k N) (par(k := ps)) (add_node deps maps k)"
    by (rule add_node_ok [of N par maps k deps ps]) (use Cons.prems(3,4) ps in auto)
  from Cons.IH [OF _ _ this] Cons.prems
  have "maps_ok (insert k N \<union> set ks)
          (\<lambda>n. if n \<in> set ks then parents deps n else (par(k := ps)) n)
          (foldl (add_node deps) (add_node deps maps k) ks)" by auto
  moreover have "(\<lambda>n. if n \<in> set ks then parents deps n else (par(k := ps)) n) =
                 (\<lambda>n. if n \<in> set (k # ks) then parents deps n else par n)"
    by (auto simp: ps parents_def)
  ultimately show ?case by simp
qed simp

lemma build_maps_correct:
  assumes "hm_order ks deps" "build_maps ks deps = (d, ch)"
  shows "d n = (if n \<in> dag_nodes deps then Some (length (parents deps n)) else None)"
    and "count_list (kids_of ch p) n = count_list (parents deps n) p"
proof -
  have "maps_ok {} (\<lambda>_. []) (Map.empty, Map.empty)" by (simp add: maps_ok_def kids_of_def)
  from build_maps_ok [OF _ _ this, of ks deps] assms(1)
  have "maps_ok (dom deps) (\<lambda>n. if n \<in> dom deps then parents deps n else []) (build_maps ks deps)"
    by (simp add: build_maps_def hm_order_def)
  moreover have "(\<lambda>n. if n \<in> dom deps then parents deps n else []) = parents deps"
    by (rule ext) (auto simp: parents_def split: option.split)
  ultimately have "maps_ok (dom deps) (parents deps) (d, ch)" using assms(2) by simp
  then show "d n = (if n \<in> dag_nodes deps then Some (length (parents deps n)) else None)"
    and "count_list (kids_of ch p) n = count_list (parents deps n) p"
    by (auto simp: maps_ok_def dag_nodes_def)
qed

section \<open>The loop\<close>

lemma kahn_kids_correct:
  assumes "\<And>n. n \<in> V \<Longrightarrow> d n = Some (base n + count_list kids n)" "set kids \<subseteq> V"
  shows "\<exists>d' r. kahn_kids kids d q = Inr (d', q @ r) \<and> distinct r \<and>
           set r = {n \<in> set kids. base n = 0} \<and>
           (\<forall>n \<in> V. d' n = Some (base n)) \<and> (\<forall>n. n \<notin> V \<longrightarrow> d' n = d n)"
  using assms
proof (induction kids arbitrary: d q)
  case (Cons kid kids)
  let ?m = "base kid + count_list kids kid"
  let ?q = "if ?m = 0 then q @ [kid] else q"
  have kid: "kid \<in> V" "d kid = Some (Suc ?m)" using Cons.prems by auto
  have "(d(kid \<mapsto> ?m)) n = Some (base n + count_list kids n)" if "n \<in> V" for n
    using Cons.prems(1) [OF that] by auto
  moreover have "set kids \<subseteq> V" using Cons.prems(2) by simp
  ultimately obtain d' r where
    IH: "kahn_kids kids (d(kid \<mapsto> ?m)) ?q = Inr (d', ?q @ r)" "distinct r"
      "set r = {n \<in> set kids. base n = 0}" "\<forall>n \<in> V. d' n = Some (base n)"
      "\<forall>n. n \<notin> V \<longrightarrow> d' n = (d(kid \<mapsto> ?m)) n"
    using Cons.IH [of "d(kid \<mapsto> ?m)" ?q] by blast
  let ?r = "if ?m = 0 then kid # r else r"
  have last: "?m = 0 \<longleftrightarrow> base kid = 0 \<and> kid \<notin> set kids" by (simp add: count_list_0_iff)
  have "kahn_kids (kid # kids) d q = Inr (d', q @ ?r)" using kid IH(1) by (simp split: if_splits)
  moreover have "distinct ?r"
    unfolding last by (simp add: IH(2,3))
  moreover have "set ?r = {n \<in> set (kid # kids). base n = 0}"
    unfolding last by (cases "base kid = 0"; cases "kid \<in> set kids") (auto simp: IH(3))
  moreover have "\<forall>n. n \<notin> V \<longrightarrow> d' n = d n" using IH(5) kid(1) by auto
  ultimately show ?case using IH(4) by blast
qed auto

text \<open>The loop invariant: the in-degree of a node counts its parents not yet emitted, and the
  nodes emitted or queued are those with in-degree zero.\<close>

definition kahn_inv :: "deps \<Rightarrow> string list \<Rightarrow> (string \<rightharpoonup> nat) \<Rightarrow> string list \<Rightarrow> bool" where
  "kahn_inv deps q d s \<longleftrightarrow>
     distinct (s @ q) \<and> set (s @ q) \<subseteq> dag_nodes deps \<and>
     (\<forall>n \<in> dag_nodes deps. d n = Some (length (filter (\<lambda>p. p \<notin> set s) (parents deps n)))) \<and>
     (\<forall>n \<in> dag_nodes deps. n \<in> set (s @ q) \<longleftrightarrow> set (parents deps n) \<subseteq> set s) \<and>
     (\<forall>i < length s. set (parents deps (s ! i)) \<subseteq> set (take i s))"

lemma parents_in_nodes: "p \<in> set (parents deps n) \<Longrightarrow> p \<in> dag_nodes deps \<and> n \<in> dag_nodes deps"
  by (auto simp: dag_nodes_def parents_def split: option.splits)

lemma length_filter_not_in_snoc:
  "x \<notin> set s \<Longrightarrow> length (filter (\<lambda>p. p \<notin> set s) xs) =
     length (filter (\<lambda>p. p \<notin> set (s @ [x])) xs) + count_list xs x"
  by (induction xs) auto

lemma kahn_inv_step:
  assumes inv: "kahn_inv deps (x # q) d s"
    and kids: "\<And>n. count_list kids n = count_list (parents deps n) x"
  shows "\<exists>d' q'. kahn_kids kids d q = Inr (d', q') \<and> kahn_inv deps q' d' (s @ [x])"
proof -
  let ?V = "dag_nodes deps"
  let ?base = "\<lambda>n. length (filter (\<lambda>p. p \<notin> set (s @ [x])) (parents deps n))"
  have x: "x \<notin> set s" "x \<in> ?V" "x \<notin> set q" and dist: "distinct (s @ q)" "set (s @ q) \<subseteq> ?V"
    and deg: "\<And>n. n \<in> ?V \<Longrightarrow> d n = Some (length (filter (\<lambda>p. p \<notin> set s) (parents deps n)))"
    and ready: "\<And>n. n \<in> ?V \<Longrightarrow> n \<in> set (s @ x # q) \<longleftrightarrow> set (parents deps n) \<subseteq> set s"
    and order: "\<forall>i < length s. set (parents deps (s ! i)) \<subseteq> set (take i s)"
    using inv unfolding kahn_inv_def by simp_all
  have kids_iff: "n \<in> set kids \<longleftrightarrow> x \<in> set (parents deps n)" for n
    using kids [of n] by (metis count_list_0_iff)
  then have kidsV: "set kids \<subseteq> ?V" using parents_in_nodes by blast
  have "d n = Some (?base n + count_list kids n)" if "n \<in> ?V" for n
    using deg [OF that] length_filter_not_in_snoc [OF x(1)] kids by simp
  from kahn_kids_correct [where q = q and V = ?V, OF this kidsV] obtain d' r where
    run: "kahn_kids kids d q = Inr (d', q @ r)" and r: "distinct r" "set r = {n \<in> set kids. ?base n = 0}"
    and deg': "\<forall>n \<in> ?V. d' n = Some (?base n)" by blast
  have zero: "?base n = 0 \<longleftrightarrow> set (parents deps n) \<subseteq> set (s @ [x])" for n
    by (auto simp: filter_empty_conv)
  have r_iff: "n \<in> set r \<longleftrightarrow> x \<in> set (parents deps n) \<and> set (parents deps n) \<subseteq> set (s @ [x])" for n
    using r(2) kids_iff zero by auto
  have ready': "n \<in> set ((s @ [x]) @ q @ r) \<longleftrightarrow> set (parents deps n) \<subseteq> set (s @ [x])" if "n \<in> ?V" for n
    using ready [OF that] r_iff [of n] by auto
  have fresh: "set r \<inter> set (s @ x # q) = {}"
  proof -
    have False if n: "n \<in> set r" "n \<in> set (s @ x # q)" for n
    proof -
      have "n \<in> ?V" "x \<in> set (parents deps n)" using n(1) r(2) kidsV r_iff by auto
      with ready [of n] n(2) x(1) show False by blast
    qed
    then show ?thesis by blast
  qed
  have "set (parents deps x) \<subseteq> set s" using ready [OF x(2)] by simp
  then have order': "\<forall>i < length (s @ [x]). set (parents deps ((s @ [x]) ! i)) \<subseteq> set (take i (s @ [x]))"
    using order by (auto simp: nth_append less_Suc_eq)
  have "kahn_inv deps (q @ r) d' (s @ [x])"
    unfolding kahn_inv_def
  proof (intro conjI)
    show "distinct ((s @ [x]) @ q @ r)" using dist(1) x r(1) fresh by auto
    show "set ((s @ [x]) @ q @ r) \<subseteq> ?V" using dist(2) x r(2) kidsV by auto
    show "\<forall>n \<in> ?V. n \<in> set ((s @ [x]) @ q @ r) \<longleftrightarrow> set (parents deps n) \<subseteq> set (s @ [x])"
      using ready' by blast
  qed (use deg' order' in blast)+
  with run show ?thesis by blast
qed

lemma kahn_loop_correct:
  assumes "kahn_inv deps q d s" "finite (dag_nodes deps)"
    and "\<And>p n. count_list (kids_of ch p) n = count_list (parents deps n) p"
    and "card (dag_nodes deps) \<le> fuel + length s"
  shows "\<exists>s' d'. kahn_loop fuel ch q d s = Some (Inr (s', d')) \<and> kahn_inv deps [] d' s'"
  using assms(1,4)
proof (induction fuel arbitrary: q d s)
  case 0
  have "distinct (s @ q)" "set (s @ q) \<subseteq> dag_nodes deps" using 0 by (simp_all add: kahn_inv_def)
  then have "length (s @ q) \<le> card (dag_nodes deps)"
    using assms(2) by (metis card_mono distinct_card)
  with 0 show ?case by (cases q) auto
next
  case (Suc fuel)
  show ?case
  proof (cases q)
    case (Cons x q')
    obtain d' q'' where step: "kahn_kids (kids_of ch x) d q' = Inr (d', q'')"
      and inv: "kahn_inv deps q'' d' (s @ [x])"
      using kahn_inv_step [OF Suc.prems(1) [unfolded Cons] assms(3)] by blast
    have "kahn_loop (Suc fuel) ch q d s = kahn_loop fuel ch q'' d' (s @ [x])"
      using step by (simp add: Cons kids_of_def)
    with Suc.IH [OF inv] Suc.prems(2) show ?thesis by simp
  qed (use Suc.prems in auto)
qed

lemma kahn_inv_init:
  assumes "hm_order os d"
    and "\<And>n. d n = (if n \<in> dag_nodes deps then Some (length (parents deps n)) else None)"
  shows "kahn_inv deps (filter (\<lambda>n. d n = Some 0) os) d []"
proof -
  have "distinct os" "set os = dag_nodes deps"
    using assms by (auto simp: hm_order_def dom_def split: if_splits)
  then show ?thesis unfolding kahn_inv_def by (simp add: assms(2))
qed

lemma finite_dag_nodes: "hm_order ks deps \<Longrightarrow> finite (dag_nodes deps)"
proof -
  assume "hm_order ks deps"
  then have fin: "finite (dom deps)" by (metis List.finite_set hm_order_def)
  have "(\<Union>n. set (parents deps n)) \<subseteq> (\<Union>n \<in> dom deps. set (parents deps n))"
  proof
    fix p assume "p \<in> (\<Union>n. set (parents deps n))"
    then obtain n where "p \<in> set (parents deps n)" by blast
    moreover from this have "n \<in> dom deps" by (cases "deps n") (auto simp: parents_def)
    ultimately show "p \<in> (\<Union>n \<in> dom deps. set (parents deps n))" by blast
  qed
  moreover have "finite (\<Union>n \<in> dom deps. set (parents deps n))" using fin by simp
  ultimately show ?thesis using fin by (simp add: dag_nodes_def finite_subset)
qed

section \<open>Orders and cycles\<close>

definition idx :: "string list \<Rightarrow> string \<Rightarrow> nat" where
  "idx s n = length (takeWhile (\<lambda>x. x \<noteq> n) s)"

lemma idx_nth: "n \<in> set s \<Longrightarrow> idx s n < length s \<and> s ! idx s n = n"
  by (induction s) (auto simp: idx_def)

lemma idx_le: "j < length s \<Longrightarrow> idx s (s ! j) \<le> j"
proof (induction s arbitrary: j)
  case (Cons x s)
  then show ?case by (cases j) (auto simp: idx_def)
qed simp

lemma topo_order_acyclic:
  assumes "topo_order deps s"
  shows "acyclic (dag_edges deps)"
proof -
  have "idx s p < idx s n" if edge: "(p, n) \<in> dag_edges deps" for p n
  proof -
    have p: "p \<in> set (parents deps n)" using edge by (simp add: dag_edges_def)
    then have "n \<in> set s" using assms parents_in_nodes by (auto simp: topo_order_def)
    then have n: "idx s n < length s" "s ! idx s n = n" by (simp_all add: idx_nth)
    with assms p have "p \<in> set (take (idx s n) s)" unfolding topo_order_def by (metis subsetD)
    then obtain j where j: "j < idx s n" "s ! j = p" by (auto simp: in_set_conv_nth)
    then have "idx s p \<le> j" using n(1) idx_le [of j s] by simp
    with j(1) show ?thesis by simp
  qed
  then have "dag_edges deps \<subseteq> measure (idx s)" by auto
  then show ?thesis by (meson wf_acyclic wf_measure wf_subset)
qed

lemma cycle_below:
  assumes fin: "finite L" and closed: "\<And>n. n \<in> L \<Longrightarrow> \<exists>p \<in> L. (p, n) \<in> E" and c: "c \<in> L"
  shows "\<exists>x. (x, x) \<in> E\<^sup>+ \<and> (x, c) \<in> E\<^sup>*"
proof (rule ccontr)
  assume none: "\<nexists>x. (x, x) \<in> E\<^sup>+ \<and> (x, c) \<in> E\<^sup>*"
  let ?S = "{x \<in> L. (x, c) \<in> E\<^sup>*}"
  let ?R = "E \<inter> ?S \<times> ?S"
  have "finite ?R" by (rule finite_subset [of _ "L \<times> L"]) (use fin in auto)
  moreover have "acyclic ?R"
  proof (rule acyclicI, rule allI, rule notI)
    fix x assume cyc: "(x, x) \<in> ?R\<^sup>+"
    then have "x \<in> ?S" by (cases rule: tranclE) auto
    moreover have "(x, x) \<in> E\<^sup>+" using cyc by (rule trancl_mono) blast
    ultimately show False using none by blast
  qed
  ultimately have "wf ?R" by (rule finite_acyclic_wf)
  moreover have "c \<in> ?S" using c by simp
  ultimately obtain m where m: "m \<in> ?S" "\<forall>y. (y, m) \<in> ?R \<longrightarrow> y \<notin> ?S"
    by (auto elim: wfE_min [where Q = ?S])
  obtain p where p: "p \<in> L" "(p, m) \<in> E" using closed m(1) by blast
  then have "p \<in> ?S" using m(1) by (auto intro: converse_rtrancl_into_rtrancl)
  with p m show False by blast
qed

section \<open>Properties\<close>

lemma topo_sort_cases:
  assumes ks: "hm_order ks deps" and os: "hm_order os (fst (build_maps ks deps))"
  obtains (ok) s where "topo_sort ks os deps = Some (Inr s)" "topo_order deps s"
  | (err) c L where "topo_sort ks os deps = Some (Inl c)" "c \<in> L" "L \<subseteq> dag_nodes deps"
      "\<And>n. n \<in> L \<Longrightarrow> \<exists>p \<in> L. (p, n) \<in> dag_edges deps"
proof -
  obtain d ch where maps: "build_maps ks deps = (d, ch)" by (cases "build_maps ks deps")
  note deg = build_maps_correct(1) [OF ks maps] and cnt = build_maps_correct(2) [OF ks maps]
  have os': "distinct os" "set os = dag_nodes deps"
    using os maps deg by (auto simp: hm_order_def dom_def split: if_splits)
  note fin = finite_dag_nodes [OF ks]
  have len: "length os = card (dag_nodes deps)" using os' distinct_card by fastforce
  obtain s d' where loop: "kahn_loop (length os) ch (filter (\<lambda>n. d n = Some 0) os) d [] = Some (Inr (s, d'))"
    and inv: "kahn_inv deps [] d' s"
    using kahn_loop_correct [OF kahn_inv_init [OF _ deg] fin cnt, of os "length os"] os maps len by auto
  have s: "distinct s" "set s \<subseteq> dag_nodes deps" using inv by (simp_all add: kahn_inv_def)
  show thesis
  proof (cases "set s = dag_nodes deps")
    case True
    then have "topo_order deps s" using inv by (simp add: topo_order_def kahn_inv_def)
    moreover have "length s = length os" using True s(1) len distinct_card by fastforce
    ultimately show thesis using ok loop maps by (simp add: topo_sort_def)
  next
    case False
    let ?L = "dag_nodes deps - set s"
    have less: "length s < length os"
      using False s fin len by (metis distinct_card psubsetI psubset_card_mono)
    have ready: "n \<in> set s \<longleftrightarrow> set (parents deps n) \<subseteq> set s"
      and deg': "d' n = Some (length (filter (\<lambda>p. p \<notin> set s) (parents deps n)))"
      if "n \<in> dag_nodes deps" for n
      using that inv unfolding kahn_inv_def by simp_all
    have stuck: "\<exists>p \<in> ?L. (p, n) \<in> dag_edges deps" if "n \<in> ?L" for n
    proof -
      have "\<not> set (parents deps n) \<subseteq> set s" using that ready by blast
      then obtain p where "p \<in> set (parents deps n)" "p \<notin> set s" by blast
      with parents_in_nodes show ?thesis by (auto simp: dag_edges_def)
    qed
    have pos: "(case d' n of Some k \<Rightarrow> k > 0 | None \<Rightarrow> False) \<longleftrightarrow> n \<in> ?L" if "n \<in> dag_nodes deps" for n
      using that ready [OF that] deg' [OF that] by (auto simp: filter_empty_conv)
    have "\<exists>n \<in> set os. n \<in> ?L" using False s(2) os'(2) by blast
    then obtain c where find: "List.find (\<lambda>n. case d' n of Some k \<Rightarrow> k > 0 | None \<Rightarrow> False) os = Some c"
      using pos os'(2) by (metis (no_types, lifting) find_None_iff not_None_eq)
    then have "c \<in> set os" "case d' c of Some k \<Rightarrow> k > 0 | None \<Rightarrow> False"
      by (auto simp: find_Some_iff)
    then have "c \<in> ?L" using pos os'(2) by blast
    moreover have "topo_sort ks os deps = Some (Inl c)"
      using loop maps less find by (simp add: topo_sort_def)
    ultimately show thesis using err [of c ?L] stuck by blast
  qed
qed

text \<open>C5: Kahn's algorithm always terminates with an answer.  It answers with a
  complete topological order, every stage once and after all the stages it depends on,
  exactly when the dependency graph is acyclic; otherwise it reports a stage that lies
  on or behind a cycle.\<close>

theorem topo_sort_correct:
  assumes "hm_order ks deps" "hm_order os (fst (build_maps ks deps))"
  shows "case topo_sort ks os deps of
           None \<Rightarrow> False
         | Some (Inr s) \<Rightarrow> topo_order deps s \<and> acyclic (dag_edges deps)
         | Some (Inl c) \<Rightarrow> \<not> acyclic (dag_edges deps) \<and>
             (\<exists>x. (x, x) \<in> (dag_edges deps)\<^sup>+ \<and> (x, c) \<in> (dag_edges deps)\<^sup>*)"
proof (rule topo_sort_cases [OF assms])
  fix s assume "topo_sort ks os deps = Some (Inr s)" "topo_order deps s"
  then show ?thesis using topo_order_acyclic by simp
next
  fix c L
  assume err: "topo_sort ks os deps = Some (Inl c)" "c \<in> L" "L \<subseteq> dag_nodes deps"
    "\<And>n. n \<in> L \<Longrightarrow> \<exists>p \<in> L. (p, n) \<in> dag_edges deps"
  have "finite L" using err(3) finite_dag_nodes [OF assms(1)] finite_subset by blast
  from cycle_below [OF this err(4) err(2)] show ?thesis
    using err(1) by (auto simp: acyclic_def)
qed

definition sample_deps :: deps where
  "sample_deps = [''build'' \<mapsto> [], ''test'' \<mapsto> [''build''], ''deploy'' \<mapsto> [''test'', ''build'']]"

lemmas topo_eval = topo_sort_def build_maps_def add_node_def add_edge_def or_insert_def
  hm_order_def Let_def

theorem topo_sort_correct_witness:
  "topo_sort [''test'', ''deploy'', ''build''] [''deploy'', ''build'', ''test''] sample_deps
     = Some (Inr [''build'', ''test'', ''deploy''])
   \<and> topo_order sample_deps [''build'', ''test'', ''deploy''] \<and> acyclic (dag_edges sample_deps)"
proof -
  let ?ks = "[''test'', ''deploy'', ''build'']" and ?os = "[''deploy'', ''build'', ''test'']"
  have ks: "hm_order ?ks sample_deps" and os: "hm_order ?os (fst (build_maps ?ks sample_deps))"
    by (auto simp: topo_eval sample_deps_def)
  have "topo_sort ?ks ?os sample_deps = Some (Inr [''build'', ''test'', ''deploy''])"
    by (simp add: topo_eval sample_deps_def)
  with topo_sort_correct [OF ks os] show ?thesis by simp
qed

text \<open>The reported stage may lie behind a cycle without being on one: with \<open>a\<close> and \<open>b\<close>
  depending on each other and \<open>c\<close> on \<open>a\<close>, the answer can be \<open>c\<close>.\<close>

definition cyclic_deps :: deps where
  "cyclic_deps = [''a'' \<mapsto> [''b''], ''b'' \<mapsto> [''a''], ''c'' \<mapsto> [''a'']]"

theorem topo_sort_reports_stage_off_cycle:
  "topo_sort [''a'', ''b'', ''c''] [''c'', ''a'', ''b''] cyclic_deps = Some (Inl ''c'')
   \<and> (''c'', ''c'') \<notin> (dag_edges cyclic_deps)\<^sup>+"
proof
  show "topo_sort [''a'', ''b'', ''c''] [''c'', ''a'', ''b''] cyclic_deps = Some (Inl ''c'')"
    by (simp add: topo_eval cyclic_deps_def)
  have "(''c'', n) \<notin> dag_edges cyclic_deps" for n
    by (auto simp: dag_edges_def parents_def cyclic_deps_def split: option.splits if_splits)
  then show "(''c'', ''c'') \<notin> (dag_edges cyclic_deps)\<^sup>+" by (blast dest: tranclD)
qed

end
