(* ===== verification/F64.thy ===== *)
theory F64
  imports Complex_Main "HOL-Library.Log_Nat" Prelude
begin

text \<open>
  The \<open>f64\<close> values and operations the scheduler and the heartbeat use: a value is
  NaN, an infinity, or a rational; subtraction, multiplication and division are
  computed exactly and rounded to the nearest binary64 value, ties to even.  Zeros
  of either sign are one value, which no comparison of the program can tell apart.
\<close>

datatype f64 = NaN | PosInf | NegInf | Fin rat

datatype ordering = Less | Equal | Greater

definition round_half_even :: "rat \<Rightarrow> int" where
  "round_half_even x =
     (let f = \<lfloor>x\<rfloor>; d = x - of_int f
      in if d < 1 / 2 then f else if d > 1 / 2 then f + 1 else if even f then f else f + 1)"

definition pow2 :: "int \<Rightarrow> rat" where
  "pow2 e = (if 0 \<le> e then 2 ^ nat e else 1 / 2 ^ nat (- e))"

text \<open>The exponent of the last place of the binary64 number nearest to a positive \<open>x\<close>.\<close>

definition f64_ulp_exp :: "rat \<Rightarrow> int" where
  "f64_ulp_exp x =
     (let (p, q) = quotient_of x;
          e = int (floorlog 2 (nat p)) - int (floorlog 2 (nat q)) - 53;
          e' = (if x / pow2 e < 2 ^ 53 then e else e + 1)
      in max e' (- 1074))"

definition f64_round :: "rat \<Rightarrow> f64" where
  "f64_round x =
     (if x = 0 then Fin 0
      else let e = f64_ulp_exp \<bar>x\<bar>;
               v = of_int (round_half_even (\<bar>x\<bar> / pow2 e)) * pow2 e
           in if v \<ge> 2 ^ 1024 then (if x > 0 then PosInf else NegInf)
              else Fin (if x > 0 then v else - v))"

definition f64_of_u32 :: "u32 \<Rightarrow> f64" where
  "f64_of_u32 w = Fin (of_nat (unat w))"

fun f64_neg :: "f64 \<Rightarrow> f64" where
  "f64_neg NaN = NaN"
| "f64_neg PosInf = NegInf"
| "f64_neg NegInf = PosInf"
| "f64_neg (Fin a) = Fin (- a)"

fun f64_add :: "f64 \<Rightarrow> f64 \<Rightarrow> f64" where
  "f64_add NaN _ = NaN"
| "f64_add _ NaN = NaN"
| "f64_add PosInf NegInf = NaN"
| "f64_add NegInf PosInf = NaN"
| "f64_add PosInf _ = PosInf"
| "f64_add NegInf _ = NegInf"
| "f64_add (Fin _) PosInf = PosInf"
| "f64_add (Fin _) NegInf = NegInf"
| "f64_add (Fin a) (Fin b) = f64_round (a + b)"

definition f64_sub :: "f64 \<Rightarrow> f64 \<Rightarrow> f64" where
  "f64_sub a b = f64_add a (f64_neg b)"

definition f64_inf_of_sign :: "bool \<Rightarrow> f64" where
  "f64_inf_of_sign pos = (if pos then PosInf else NegInf)"

fun f64_mul :: "f64 \<Rightarrow> f64 \<Rightarrow> f64" where
  "f64_mul NaN _ = NaN"
| "f64_mul _ NaN = NaN"
| "f64_mul PosInf (Fin b) = (if b = 0 then NaN else f64_inf_of_sign (b > 0))"
| "f64_mul NegInf (Fin b) = (if b = 0 then NaN else f64_inf_of_sign (b < 0))"
| "f64_mul (Fin a) PosInf = (if a = 0 then NaN else f64_inf_of_sign (a > 0))"
| "f64_mul (Fin a) NegInf = (if a = 0 then NaN else f64_inf_of_sign (a < 0))"
| "f64_mul PosInf PosInf = PosInf"
| "f64_mul NegInf NegInf = PosInf"
| "f64_mul PosInf NegInf = NegInf"
| "f64_mul NegInf PosInf = NegInf"
| "f64_mul (Fin a) (Fin b) = f64_round (a * b)"

text \<open>Division by a positive constant, the only division the program performs on these values.\<close>

fun f64_div_pos :: "f64 \<Rightarrow> rat \<Rightarrow> f64" where
  "f64_div_pos NaN _ = NaN"
| "f64_div_pos PosInf _ = PosInf"
| "f64_div_pos NegInf _ = NegInf"
| "f64_div_pos (Fin a) c = f64_round (a / c)"

fun f64_partial_cmp :: "f64 \<Rightarrow> f64 \<Rightarrow> ordering option" where
  "f64_partial_cmp NaN _ = None"
| "f64_partial_cmp _ NaN = None"
| "f64_partial_cmp (Fin a) (Fin b) =
     Some (if a < b then Less else if a = b then Equal else Greater)"
| "f64_partial_cmp PosInf PosInf = Some Equal"
| "f64_partial_cmp NegInf NegInf = Some Equal"
| "f64_partial_cmp PosInf _ = Some Greater"
| "f64_partial_cmp _ PosInf = Some Less"
| "f64_partial_cmp NegInf _ = Some Less"
| "f64_partial_cmp _ NegInf = Some Greater"

definition f64_ge :: "f64 \<Rightarrow> f64 \<Rightarrow> bool" where
  "f64_ge a b \<longleftrightarrow> f64_partial_cmp a b \<in> {Some Greater, Some Equal}"

lemma f64_partial_cmp_refl: "a \<noteq> NaN \<Longrightarrow> f64_partial_cmp a a = Some Equal"
  by (cases a) auto

lemma f64_partial_cmp_None: "f64_partial_cmp a b = None \<longleftrightarrow> a = NaN \<or> b = NaN"
  by (cases a; cases b) auto

lemma f64_partial_cmp_swap:
  "f64_partial_cmp b a = Some Greater \<longleftrightarrow> f64_partial_cmp a b = Some Less"
  by (cases a; cases b) auto

lemma f64_partial_cmp_Equal:
  "f64_partial_cmp a b = Some Equal \<longleftrightarrow> a = b \<and> a \<noteq> NaN"
  by (cases a; cases b) auto

lemma f64_partial_cmp_less_trans:
  "f64_partial_cmp a b = Some Less \<Longrightarrow> f64_partial_cmp b c = Some Less \<Longrightarrow>
   f64_partial_cmp a c = Some Less"
  by (cases a; cases b; cases c) (auto split: if_splits)

lemma f64_ge_Fin [simp]: "f64_ge (Fin a) (Fin b) \<longleftrightarrow> b \<le> a"
  by (auto simp: f64_ge_def)

lemma f64_ge_NaN [simp]: "\<not> f64_ge NaN b" "\<not> f64_ge b NaN"
  by (cases b; auto simp: f64_ge_def)+

section \<open>Printing\<close>

text \<open>\<open>Display\<close> for \<open>f64\<close>: the fewest significant digits that round back to the value, the
  nearest such decimal, written without an exponent.  Seventeen digits always suffice.\<close>

definition pow10 :: "int \<Rightarrow> rat" where
  "pow10 e = (if 0 \<le> e then 10 ^ nat e else 1 / 10 ^ nat (- e))"

definition dec_exp :: "rat \<Rightarrow> int" where
  "dec_exp q = (if 1 \<le> q then int (length (nat_to_dec (nat \<lfloor>q\<rfloor>)))
                else case List.find (\<lambda>m. 1 \<le> q * 10 ^ m) [0..<400] of Some m \<Rightarrow> 1 - int m | None \<Rightarrow> 0)"

definition dec_candidate :: "rat \<Rightarrow> nat \<Rightarrow> (nat \<times> int) option" where
  "dec_candidate q n =
     (let e = dec_exp q - int n; lo = \<lfloor>q / pow10 e\<rfloor>;
          ok = (\<lambda>d. f64_round (of_int d * pow10 e) = Fin q);
          below = q - of_int lo * pow10 e; above = of_int (lo + 1) * pow10 e - q
      in if ok lo \<and> (\<not> ok (lo + 1) \<or> below \<le> above) then Some (nat lo, e)
         else if ok (lo + 1) then Some (nat (lo + 1), e) else None)"

definition show_decimal :: "nat \<times> int \<Rightarrow> string" where
  "show_decimal de =
     (let (d, e) = de; ds = nat_to_dec d
      in if 0 \<le> e then ds @ replicate (nat e) (CHR ''0'')
         else let m = nat (- e); padded = replicate (m + 1 - length ds) (CHR ''0'') @ ds
              in take (length padded - m) padded @ ''.'' @ drop (length padded - m) padded)"

definition show_pos :: "rat \<Rightarrow> string" where
  "show_pos q =
     (if q = 0 then ''0''
      else case List.find (\<lambda>n. dec_candidate q n \<noteq> None) [1..<18] of
             Some n \<Rightarrow> show_decimal (the (dec_candidate q n))
           | None \<Rightarrow> show_decimal (nat \<lfloor>q / pow10 (dec_exp q - 17)\<rfloor>, dec_exp q - 17))"

fun f64_display :: "f64 \<Rightarrow> string" where
  "f64_display NaN = ''NaN''"
| "f64_display PosInf = ''inf''"
| "f64_display NegInf = ''-inf''"
| "f64_display (Fin q) = (if q < 0 then CHR ''-'' # show_pos (- q) else show_pos q)"

end
