(* ===== verification/Models.thy ===== *)
theory Models
  imports Prelude F64
begin

text \<open>
  The data model of \<open>ci-core/src/models\<close>: job and job group states with their
  database spellings, the \<open>Job\<close>, \<open>JobGroup\<close> and worker records with the source's
  fields (prefixed per struct, since Isabelle record fields share one name space),
  and the user roles.
\<close>

section \<open>Job (job.rs)\<close>

datatype JobState = JQueued | JAssigned | JRunning | JSuccess | JFailed | JCancelled | JUnknown

definition job_is_terminal :: "JobState \<Rightarrow> bool" where
  "job_is_terminal s \<longleftrightarrow> s \<in> {JSuccess, JFailed, JCancelled}"

fun job_state_display :: "JobState \<Rightarrow> string" where
  "job_state_display JQueued = ''queued''"
| "job_state_display JAssigned = ''assigned''"
| "job_state_display JRunning = ''running''"
| "job_state_display JSuccess = ''success''"
| "job_state_display JFailed = ''failed''"
| "job_state_display JCancelled = ''cancelled''"
| "job_state_display JUnknown = ''unknown''"

definition job_state_from_str :: "string \<Rightarrow> JobState" where
  "job_state_from_str s =
     (if s = ''queued'' then JQueued
      else if s = ''assigned'' then JAssigned
      else if s = ''running'' then JRunning
      else if s = ''success'' then JSuccess
      else if s = ''failed'' then JFailed
      else if s = ''cancelled'' then JCancelled
      else JUnknown)"

datatype JobType = TCommon | THeavy | TNix | TTest

fun job_type_display :: "JobType \<Rightarrow> string" where
  "job_type_display TCommon = ''common''"
| "job_type_display THeavy = ''heavy''"
| "job_type_display TNix = ''nix''"
| "job_type_display TTest = ''test''"

record Job =
  j_job_id :: string
  j_command :: string
  j_job_type :: JobType
  j_required_cpu :: u32
  j_required_memory_mb :: u64
  j_required_disk_mb :: u64
  j_isolation_required :: bool
  j_preferred_worker :: "string option"
  j_branch_id :: "string option"
  j_environment :: "string \<rightharpoonup> string"
  j_state :: JobState
  j_assigned_worker :: "string option"
  j_exit_code :: "int option"
  j_output :: "string option"
  j_created_at :: datetime
  j_updated_at :: datetime
  j_submitter_connection_id :: "string option"
  j_cancel_reason :: "string option"
  j_status_reason :: "string option"
  j_job_group_id :: "uuid option"
  j_stage_config_id :: "uuid option"
  j_stage_name :: "string option"
  j_pre_script :: "string option"
  j_post_script :: "string option"
  j_pre_exit_code :: "int option"
  j_post_exit_code :: "int option"
  j_max_duration_secs :: "int option"
  j_log_path :: "string option"
  j_started_at :: "datetime option"
  j_completed_at :: "datetime option"
  j_priority :: int
  j_required_labels :: "string list"

definition Job_new :: "datetime \<Rightarrow> string \<Rightarrow> string \<Rightarrow> JobType \<Rightarrow> u32 \<Rightarrow> u64 \<Rightarrow> u64 \<Rightarrow> Job" where
  "Job_new now jid cmd jt cpu mem disk =
     \<lparr> j_job_id = jid, j_command = cmd, j_job_type = jt, j_required_cpu = cpu,
       j_required_memory_mb = mem, j_required_disk_mb = disk,
       j_isolation_required = False, j_preferred_worker = None, j_branch_id = None,
       j_environment = Map.empty, j_state = JQueued, j_assigned_worker = None,
       j_exit_code = None, j_output = None, j_created_at = now, j_updated_at = now,
       j_submitter_connection_id = None, j_cancel_reason = None, j_status_reason = None,
       j_job_group_id = None, j_stage_config_id = None, j_stage_name = None,
       j_pre_script = None, j_post_script = None, j_pre_exit_code = None,
       j_post_exit_code = None, j_max_duration_secs = None, j_log_path = None,
       j_started_at = None, j_completed_at = None, j_priority = 0, j_required_labels = [] \<rparr>"

section \<open>Job group (job\_group.rs)\<close>

datatype JobGroupState =
  GPending | GReserved | GRunning | GSuccess | GFailed | GCancelled | GExpired

fun group_state_display :: "JobGroupState \<Rightarrow> string" where
  "group_state_display GPending = ''pending''"
| "group_state_display GReserved = ''reserved''"
| "group_state_display GRunning = ''running''"
| "group_state_display GSuccess = ''success''"
| "group_state_display GFailed = ''failed''"
| "group_state_display GCancelled = ''cancelled''"
| "group_state_display GExpired = ''expired''"

definition group_state_from_str :: "string \<Rightarrow> JobGroupState" where
  "group_state_from_str s =
     (if s = ''pending'' then GPending
      else if s = ''reserved'' then GReserved
      else if s = ''running'' then GRunning
      else if s = ''success'' then GSuccess
      else if s = ''failed'' then GFailed
      else if s = ''cancelled'' then GCancelled
      else if s = ''expired'' then GExpired
      else GPending)"

definition group_is_terminal :: "JobGroupState \<Rightarrow> bool" where
  "group_is_terminal s \<longleftrightarrow> s \<in> {GSuccess, GFailed, GCancelled, GExpired}"

record AllocatedResources =
  ar_cpu :: u32
  ar_memory_mb :: u64
  ar_disk_mb :: u64

definition AllocatedResources_default :: AllocatedResources where
  "AllocatedResources_default = \<lparr> ar_cpu = 0, ar_memory_mb = 0, ar_disk_mb = 0 \<rparr>"

record JobGroup =
  g_id :: uuid
  g_repo_id :: "uuid option"
  g_branch :: "string option"
  g_commit_sha :: "string option"
  g_trigger_source :: string
  g_reserved_worker_id :: "string option"
  g_state :: JobGroupState
  g_priority :: int
  g_pr_number :: "int option"
  g_idempotency_key :: "string option"
  g_allocated_resources :: AllocatedResources
  g_reserved_stages :: "string list"
  g_status_reason :: "string option"
  g_created_at :: datetime
  g_updated_at :: datetime
  g_completed_at :: "datetime option"
  g_last_activity_at :: datetime

text \<open>The fresh identifier of \<open>Uuid::new_v4()\<close> is the argument \<open>new_id\<close>.\<close>

definition JobGroup_new :: "datetime \<Rightarrow> uuid \<Rightarrow> uuid \<Rightarrow> string option \<Rightarrow> string option \<Rightarrow> JobGroup" where
  "JobGroup_new now new_id repo_id branch sha =
     \<lparr> g_id = new_id, g_repo_id = Some repo_id, g_branch = branch, g_commit_sha = sha,
       g_trigger_source = ''jenkins'', g_reserved_worker_id = None, g_state = GPending,
       g_priority = 0, g_pr_number = None, g_idempotency_key = None,
       g_allocated_resources = AllocatedResources_default, g_reserved_stages = [],
       g_status_reason = None, g_created_at = now, g_updated_at = now,
       g_completed_at = None, g_last_activity_at = now \<rparr>"

definition JobGroup_new_with_id ::
  "datetime \<Rightarrow> uuid \<Rightarrow> uuid option \<Rightarrow> string option \<Rightarrow> string option \<Rightarrow> string \<Rightarrow> JobGroup" where
  "JobGroup_new_with_id now gid repo_id branch sha trigger =
     \<lparr> g_id = gid, g_repo_id = repo_id, g_branch = branch, g_commit_sha = sha,
       g_trigger_source = trigger, g_reserved_worker_id = None, g_state = GRunning,
       g_priority = 0, g_pr_number = None, g_idempotency_key = None,
       g_allocated_resources = AllocatedResources_default, g_reserved_stages = [],
       g_status_reason = None, g_created_at = now, g_updated_at = now,
       g_completed_at = None, g_last_activity_at = now \<rparr>"

section \<open>Database spellings\<close>

lemma job_state_from_display [simp]: "job_state_from_str (job_state_display s) = s"
  by (cases s) (simp_all add: job_state_from_str_def)

lemma group_state_from_display [simp]: "group_state_from_str (group_state_display s) = s"
  by (cases s) (simp_all add: group_state_from_str_def)

lemma job_is_terminal_simps [simp]:
  "\<not> job_is_terminal JQueued" "\<not> job_is_terminal JAssigned" "\<not> job_is_terminal JRunning"
  "job_is_terminal JSuccess" "job_is_terminal JFailed" "job_is_terminal JCancelled"
  "\<not> job_is_terminal JUnknown"
  by (simp_all add: job_is_terminal_def)

lemma group_is_terminal_simps [simp]:
  "\<not> group_is_terminal GPending" "\<not> group_is_terminal GReserved" "\<not> group_is_terminal GRunning"
  "group_is_terminal GSuccess" "group_is_terminal GFailed" "group_is_terminal GCancelled"
  "group_is_terminal GExpired"
  by (simp_all add: group_is_terminal_def)

end
