(* ===== verification/Ledger.thy ===== *)
theory Ledger
  imports Prelude
begin

text \<open>
  The contract between a holder of capacity and its clients: a request is granted or
  refused, a granted request is held until it is given back, and the amount in use is
  the sum of what is held.  The worker's CPU and memory ledgers provide it
  (\<open>Worker_State\<close>); the reservation handlers rely on it.
\<close>

datatype 'r ledger_op = Acquire 'r | GiveBack 'r

fun ledger_step ::
  "('r \<Rightarrow> 's \<Rightarrow> bool \<times> 's) \<Rightarrow> ('r \<Rightarrow> 's \<Rightarrow> 's) \<Rightarrow> 'r ledger_op \<Rightarrow> 's \<times> 'r list \<Rightarrow> 's \<times> 'r list" where
  "ledger_step tk gv (Acquire r) (s, held) = (case tk r s of (ok, s') \<Rightarrow> (s', if ok then r # held else held))"
| "ledger_step tk gv (GiveBack r) (s, held) = (if r \<in> set held then (gv r s, remove1 r held) else (s, held))"

definition ledger_run ::
  "('r \<Rightarrow> 's \<Rightarrow> bool \<times> 's) \<Rightarrow> ('r \<Rightarrow> 's \<Rightarrow> 's) \<Rightarrow> 'r ledger_op list \<Rightarrow> 's \<times> 'r list \<Rightarrow> 's \<times> 'r list" where
  "ledger_run tk gv ops x = fold (ledger_step tk gv) ops x"

lemma ledger_run_simps [simp]:
  "ledger_run tk gv [] x = x"
  "ledger_run tk gv (op # ops) x = ledger_run tk gv ops (ledger_step tk gv op x)"
  by (simp_all add: ledger_run_def)

lemma sum_list_remove1:
  "x \<in> set xs \<Longrightarrow> sum_list (map f (remove1 x xs)) = sum_list (map f xs) - (f x :: nat)"
  by (simp add: sum_list_map_remove1)

locale resource_ledger =
  fixes tk :: "'r \<Rightarrow> 's \<Rightarrow> bool \<times> 's"
    and gv :: "'r \<Rightarrow> 's \<Rightarrow> 's"
    and used :: "'s \<Rightarrow> nat"
    and cap :: "'s \<Rightarrow> nat"
    and amount :: "'r \<Rightarrow> nat"
    and fits :: "'r \<Rightarrow> 's \<Rightarrow> bool"
  assumes refused: "tk r s = (False, s') \<Longrightarrow> s' = s"
    and granted_cap: "tk r s = (True, s') \<Longrightarrow> used s' \<le> cap s'"
    and granted_used: "tk r s = (True, s') \<Longrightarrow> fits r s \<Longrightarrow> used s \<le> cap s \<Longrightarrow> used s' = used s + amount r"
    and granted_frame: "tk r s = (True, s') \<Longrightarrow> cap s' = cap s \<and> fits q s' = fits q s"
    and given_used: "used (gv r s) = used s - amount r"
    and given_frame: "cap (gv r s) = cap s \<and> fits q (gv r s) = fits q s"
begin

lemma step_within_cap:
  "used s \<le> cap s \<Longrightarrow> ledger_step tk gv op (s, held) = (s', held') \<Longrightarrow> used s' \<le> cap s'"
  by (cases op)
    (auto dest: refused granted_cap simp: given_used given_frame split: prod.splits bool.splits if_splits)

lemma run_within_cap:
  "used s \<le> cap s \<Longrightarrow> ledger_run tk gv ops (s, held) = (s', held') \<Longrightarrow> used s' \<le> cap s'"
proof (induction ops arbitrary: s held)
  case (Cons op ops)
  obtain s1 held1 where step: "ledger_step tk gv op (s, held) = (s1, held1)"
    by (cases "ledger_step tk gv op (s, held)")
  from step_within_cap [OF Cons.prems(1) step] Cons.IH [of s1 held1] Cons.prems(2) step
  show ?case by simp
qed simp

lemma step_fits: "ledger_step tk gv op (s, held) = (s', held') \<Longrightarrow> fits q s' = fits q s"
  by (cases op)
    (auto dest: refused granted_frame [where q = q] simp: given_frame split: prod.splits bool.splits if_splits)

lemma step_conserves:
  assumes "used s = sum_list (map amount held)" "used s \<le> cap s"
    and "\<And>r. op = Acquire r \<Longrightarrow> fits r s"
    and "ledger_step tk gv op (s, held) = (s', held')"
  shows "used s' = sum_list (map amount held')"
proof (cases op)
  case (Acquire r)
  obtain ok s1 where tk: "tk r s = (ok, s1)" by (cases "tk r s")
  with Acquire assms show ?thesis
    by (cases ok) (auto dest: refused granted_used)
next
  case (GiveBack r)
  with assms show ?thesis
    by (auto simp: given_used sum_list_remove1 split: if_splits)
qed

theorem run_conserves:
  assumes "used s = sum_list (map amount held)" "used s \<le> cap s"
    and "\<And>r. Acquire r \<in> set ops \<Longrightarrow> fits r s"
    and "ledger_run tk gv ops (s, held) = (s', held')"
  shows "used s' = sum_list (map amount held')"
  using assms
proof (induction ops arbitrary: s held)
  case (Cons op ops)
  obtain s1 held1 where step: "ledger_step tk gv op (s, held) = (s1, held1)"
    by (cases "ledger_step tk gv op (s, held)")
  have "used s1 = sum_list (map amount held1)"
    using step_conserves [OF Cons.prems(1,2) _ step] Cons.prems(3) by simp
  moreover have "used s1 \<le> cap s1" by (rule step_within_cap [OF Cons.prems(2) step])
  moreover have "fits r s1" if "Acquire r \<in> set ops" for r
    using Cons.prems(3) that step_fits [OF step] by simp
  ultimately show ?case using Cons.IH [of s1 held1] Cons.prems(4) step by simp
qed simp

end

end
