(* ===== verification/Worker_State.thy ===== *)
theory Worker_State
  imports Models Ledger
begin

text \<open>
  The worker as the controller tracks it (\<open>ci-core/src/models/worker.rs\<close>): static
  information, the last heartbeat, and the ledger of CPU, memory and disk allocated
  to builds, with the effective caps, \<open>allocate\<close> and \<open>release\<close>.
\<close>

section \<open>Data\<close>

record DiskDetailInfo =
  dd_mount_point :: string
  dd_device :: string
  dd_fs_type :: string
  dd_total_mb :: u64
  dd_used_mb :: u64
  dd_available_mb :: u64

datatype DiskType = Nvme | Sata

datatype WorkerStatus = Connected | Disconnected | Draining

record WorkerInfo =
  wi_worker_id :: string
  wi_hostname :: string
  wi_total_cpu :: u32
  wi_total_memory_mb :: u64
  wi_total_disk_mb :: u64
  wi_disk_type :: DiskType
  wi_supported_job_types :: "string list"
  wi_docker_enabled :: bool
  wi_labels :: "string list"
  wi_disk_details :: "DiskDetailInfo list"
  wi_priority :: int
  wi_max_cpu :: "u32 option"
  wi_max_memory_mb :: "u64 option"
  wi_max_disk_mb :: "u64 option"
  wi_max_cpu_percent :: "int option"
  wi_max_memory_percent :: "int option"
  wi_max_disk_percent :: "int option"

record WorkerHeartbeat =
  hb_worker_id :: string
  hb_used_cpu_percent :: f64
  hb_used_memory_mb :: u64
  hb_used_disk_mb :: u64
  hb_running_job_ids :: "string list"
  hb_system_load :: f64
  hb_timestamp :: datetime
  hb_disk_details :: "DiskDetailInfo list"

text \<open>\<open>system_info\<close> is an opaque JSON document, kept as its text.\<close>

record WorkerState =
  ws_info :: WorkerInfo
  ws_status :: WorkerStatus
  ws_last_heartbeat :: "WorkerHeartbeat option"
  ws_registered_at :: datetime
  ws_system_info :: "string option"
  ws_allocated_cpu :: u32
  ws_allocated_memory_mb :: u64
  ws_allocated_disk_mb :: u64

definition WorkerState_new :: "datetime \<Rightarrow> WorkerInfo \<Rightarrow> WorkerState" where
  "WorkerState_new now info =
     \<lparr> ws_info = info, ws_status = Connected, ws_last_heartbeat = None,
       ws_registered_at = now, ws_system_info = None,
       ws_allocated_cpu = 0, ws_allocated_memory_mb = 0, ws_allocated_disk_mb = 0 \<rparr>"

section \<open>Operations\<close>

definition clamp_percent :: "int \<Rightarrow> int" where
  "clamp_percent p = max 1 (min 100 p)"

definition cpu_cap :: "WorkerState \<Rightarrow> u32" where
  "cpu_cap w =
     (let tot = wi_total_cpu (ws_info w);
          abs = (case wi_max_cpu (ws_info w) of Some m \<Rightarrow> m | None \<Rightarrow> tot);
          pct = (case wi_max_cpu_percent (ws_info w) of
                   Some p \<Rightarrow> ucast ((ucast tot :: u64) * word_of_int (clamp_percent p) div 100)
                 | None \<Rightarrow> tot)
      in min abs pct)"

definition percent_of_u64 :: "u64 \<Rightarrow> int \<Rightarrow> u64" where
  "percent_of_u64 tot p = tot * word_of_int (clamp_percent p) div 100"

definition memory_cap :: "WorkerState \<Rightarrow> u64" where
  "memory_cap w =
     (let tot = wi_total_memory_mb (ws_info w);
          abs = (case wi_max_memory_mb (ws_info w) of Some m \<Rightarrow> m | None \<Rightarrow> tot);
          pct = (case wi_max_memory_percent (ws_info w) of
                   Some p \<Rightarrow> percent_of_u64 tot p | None \<Rightarrow> tot)
      in min abs pct)"

definition disk_cap :: "WorkerState \<Rightarrow> u64" where
  "disk_cap w =
     (let tot = wi_total_disk_mb (ws_info w);
          abs = (case wi_max_disk_mb (ws_info w) of Some m \<Rightarrow> m | None \<Rightarrow> tot);
          pct = (case wi_max_disk_percent (ws_info w) of
                   Some p \<Rightarrow> percent_of_u64 tot p | None \<Rightarrow> tot)
      in min abs pct)"

definition free_memory_mb :: "WorkerState \<Rightarrow> u64" where
  "free_memory_mb w =
     (case ws_last_heartbeat w of
        Some hb \<Rightarrow> saturating_sub (wi_total_memory_mb (ws_info w)) (hb_used_memory_mb hb)
      | None \<Rightarrow> wi_total_memory_mb (ws_info w))"

definition free_disk_mb :: "WorkerState \<Rightarrow> u64" where
  "free_disk_mb w =
     (let physical_free = (case ws_last_heartbeat w of
            Some hb \<Rightarrow> saturating_sub (wi_total_disk_mb (ws_info w)) (hb_used_disk_mb hb)
          | None \<Rightarrow> wi_total_disk_mb (ws_info w))
      in min physical_free (disk_cap w))"

text \<open>The sums wrap at the width of the field, as in a release build.\<close>

definition allocate :: "u32 \<Rightarrow> u64 \<Rightarrow> u64 \<Rightarrow> WorkerState \<Rightarrow> bool \<times> WorkerState" where
  "allocate cpu mem disk w =
     (if ws_allocated_cpu w + cpu > cpu_cap w \<or> ws_allocated_memory_mb w + mem > memory_cap w
      then (False, w)
      else if disk > 0 \<and> free_disk_mb w < disk then (False, w)
      else (True, w\<lparr> ws_allocated_cpu := ws_allocated_cpu w + cpu,
                     ws_allocated_memory_mb := ws_allocated_memory_mb w + mem,
                     ws_allocated_disk_mb := ws_allocated_disk_mb w + disk \<rparr>))"

definition release :: "u32 \<Rightarrow> u64 \<Rightarrow> u64 \<Rightarrow> WorkerState \<Rightarrow> WorkerState" where
  "release cpu mem disk w =
     w\<lparr> ws_allocated_cpu := saturating_sub (ws_allocated_cpu w) cpu,
        ws_allocated_memory_mb := saturating_sub (ws_allocated_memory_mb w) mem,
        ws_allocated_disk_mb := saturating_sub (ws_allocated_disk_mb w) disk \<rparr>"

definition available_cpu :: "WorkerState \<Rightarrow> u32" where
  "available_cpu w = saturating_sub (cpu_cap w) (ws_allocated_cpu w)"

definition available_memory_mb :: "WorkerState \<Rightarrow> u64" where
  "available_memory_mb w = saturating_sub (memory_cap w) (ws_allocated_memory_mb w)"

definition available_disk_mb :: "WorkerState \<Rightarrow> u64" where
  "available_disk_mb w = saturating_sub (disk_cap w) (ws_allocated_disk_mb w)"

section \<open>Caps\<close>

lemma clamp_percent_bounds: "1 \<le> clamp_percent p" "clamp_percent p \<le> 100"
  by (auto simp: clamp_percent_def)

lemma unat_clamp: "unat (word_of_int (clamp_percent p) :: u64) = nat (clamp_percent p)"
proof -
  have "0 \<le> clamp_percent p" "clamp_percent p < 2 ^ 64"
    using clamp_percent_bounds [of p] by simp_all
  then show ?thesis by (simp add: unat_eq_nat_uint uint_word_of_int)
qed

lemma percent_mult_le: "tot * nat (clamp_percent p) div 100 \<le> tot"
proof -
  have "nat (clamp_percent p) \<le> 100" using clamp_percent_bounds [of p] by linarith
  then have "tot * nat (clamp_percent p) \<le> tot * 100" by (rule mult_le_mono2)
  then show ?thesis by linarith
qed

lemma percent_of_u64_le: "percent_of_u64 tot p \<le> tot"
proof -
  have "unat (percent_of_u64 tot p) = unat tot * nat (clamp_percent p) mod 2 ^ 64 div 100"
    by (simp add: percent_of_u64_def unat_div unat_word_ariths unat_clamp)
  also have "\<dots> \<le> unat tot * nat (clamp_percent p) div 100"
    by (simp add: div_le_mono)
  also have "\<dots> \<le> unat tot" by (rule percent_mult_le)
  finally show ?thesis by (simp add: word_le_nat_alt)
qed

lemma percent_of_u64_exact:
  assumes "unat tot * 100 < 2 ^ 64"
  shows "unat (percent_of_u64 tot p) = unat tot * nat (clamp_percent p) div 100"
proof -
  have "nat (clamp_percent p) \<le> 100" using clamp_percent_bounds [of p] by linarith
  then have "unat tot * nat (clamp_percent p) \<le> unat tot * 100" by (rule mult_le_mono2)
  with assms have "unat tot * nat (clamp_percent p) < 2 ^ 64" by (rule order_le_less_trans [rotated])
  then show ?thesis
    by (simp add: percent_of_u64_def unat_div unat_word_ariths unat_clamp)
qed

lemma cpu_percent_exact:
  "unat (ucast ((ucast (tot :: u32) :: u64) * word_of_int (clamp_percent p) div 100) :: u32)
   = unat tot * nat (clamp_percent p) div 100"
proof -
  have less: "unat tot < 2 ^ 32" using unsigned_less [of tot, where 'a = nat] by simp
  then have "unat (ucast tot :: u64) = unat tot"
    by (simp add: unsigned_ucast_eq take_bit_nat_eq_self)
  with less have "unat (percent_of_u64 (ucast tot) p) = unat tot * nat (clamp_percent p) div 100"
    using percent_of_u64_exact [of "ucast tot" p] by simp
  moreover have "unat tot * nat (clamp_percent p) div 100 < 2 ^ 32"
    using percent_mult_le [of "unat tot" p] less by linarith
  ultimately show ?thesis
    by (simp add: percent_of_u64_def unsigned_ucast_eq take_bit_nat_eq_self)
qed

lemma cpu_percent_le:
  "(ucast ((ucast (tot :: u32) :: u64) * word_of_int (clamp_percent p) div 100) :: u32) \<le> tot"
  by (simp only: word_le_nat_alt cpu_percent_exact percent_mult_le)

lemma memory_cap_le_total: "memory_cap w \<le> wi_total_memory_mb (ws_info w)"
  by (auto simp: memory_cap_def Let_def min_le_iff_disj percent_of_u64_le split: option.split)

lemma disk_cap_le_total: "disk_cap w \<le> wi_total_disk_mb (ws_info w)"
  by (auto simp: disk_cap_def Let_def min_le_iff_disj percent_of_u64_le split: option.split)

lemma cpu_cap_le_total: "cpu_cap w \<le> wi_total_cpu (ws_info w)"
  by (auto simp: cpu_cap_def Let_def min_le_iff_disj cpu_percent_le split: option.split)

section \<open>The ledger\<close>

lemma allocate_info [simp]: "ws_info (snd (allocate c m d w)) = ws_info w"
  by (simp add: allocate_def)

lemma allocate_refused: "allocate c m d w = (False, w') \<Longrightarrow> w' = w"
  by (auto simp: allocate_def split: if_splits)

lemma allocate_granted:
  assumes "allocate c m d w = (True, w')"
  shows "w' = w\<lparr> ws_allocated_cpu := ws_allocated_cpu w + c,
                 ws_allocated_memory_mb := ws_allocated_memory_mb w + m,
                 ws_allocated_disk_mb := ws_allocated_disk_mb w + d \<rparr>"
    and "ws_allocated_cpu w + c \<le> cpu_cap w" "ws_allocated_memory_mb w + m \<le> memory_cap w"
    and "d = 0 \<or> d \<le> free_disk_mb w"
  using assms by (auto simp: allocate_def not_less word_gt_0 split: if_splits)

lemma caps_cong:
  assumes "ws_info w' = ws_info w"
  shows "cpu_cap w' = cpu_cap w" "memory_cap w' = memory_cap w" "disk_cap w' = disk_cap w"
  using assms by (simp_all add: cpu_cap_def memory_cap_def disk_cap_def)

lemma release_info [simp]: "ws_info (release c m d w) = ws_info w"
  by (simp add: release_def)

lemmas release_caps [simp] = caps_cong [OF release_info]

text \<open>A request of \<open>(cpu, memory, disk)\<close> against a worker.\<close>

type_synonym resource_request = "u32 \<times> u64 \<times> u64"

definition take_resources :: "resource_request \<Rightarrow> WorkerState \<Rightarrow> bool \<times> WorkerState" where
  "take_resources = (\<lambda>(c, m, d). allocate c m d)"

definition give_resources :: "resource_request \<Rightarrow> WorkerState \<Rightarrow> WorkerState" where
  "give_resources = (\<lambda>(c, m, d). release c m d)"

definition request_fits :: "resource_request \<Rightarrow> WorkerState \<Rightarrow> bool" where
  "request_fits = (\<lambda>(c, m, d) w.
     unat c + unat (wi_total_cpu (ws_info w)) < 2 ^ 32 \<and>
     unat m + unat (wi_total_memory_mb (ws_info w)) < 2 ^ 64)"

lemma granted_frame:
  "take_resources r w = (True, w') \<Longrightarrow>
   cpu_cap w' = cpu_cap w \<and> memory_cap w' = memory_cap w \<and> request_fits q w' = request_fits q w"
  by (cases r; cases q) (auto simp: take_resources_def request_fits_def dest!: allocate_granted(1) intro: caps_cong)

lemma given_frame:
  "cpu_cap (give_resources r w) = cpu_cap w \<and> memory_cap (give_resources r w) = memory_cap w \<and>
   request_fits q (give_resources r w) = request_fits q w"
  by (cases r; cases q) (simp add: give_resources_def request_fits_def)

lemma granted_cpu:
  assumes "take_resources (c, m, d) w = (True, w')"
  shows "unat (ws_allocated_cpu w') \<le> unat (cpu_cap w')"
    and "request_fits (c, m, d) w \<Longrightarrow> ws_allocated_cpu w \<le> cpu_cap w \<Longrightarrow>
         unat (ws_allocated_cpu w') = unat (ws_allocated_cpu w) + unat c"
proof -
  have grant: "allocate c m d w = (True, w')" using assms by (simp add: take_resources_def)
  note eq = allocate_granted(1) [OF grant] and bound = allocate_granted(2) [OF grant]
  show "unat (ws_allocated_cpu w') \<le> unat (cpu_cap w')"
    using bound caps_cong(1) [of w' w] by (simp add: eq word_le_nat_alt)
  show "unat (ws_allocated_cpu w') = unat (ws_allocated_cpu w) + unat c"
    if "request_fits (c, m, d) w" "ws_allocated_cpu w \<le> cpu_cap w"
    using that cpu_cap_le_total [of w]
    by (simp add: eq request_fits_def word_le_nat_alt unat_add_noov)
qed

lemma granted_memory:
  assumes "take_resources (c, m, d) w = (True, w')"
  shows "unat (ws_allocated_memory_mb w') \<le> unat (memory_cap w')"
    and "request_fits (c, m, d) w \<Longrightarrow> ws_allocated_memory_mb w \<le> memory_cap w \<Longrightarrow>
         unat (ws_allocated_memory_mb w') = unat (ws_allocated_memory_mb w) + unat m"
proof -
  have grant: "allocate c m d w = (True, w')" using assms by (simp add: take_resources_def)
  note eq = allocate_granted(1) [OF grant] and bound = allocate_granted(3) [OF grant]
  show "unat (ws_allocated_memory_mb w') \<le> unat (memory_cap w')"
    using bound caps_cong(2) [of w' w] by (simp add: eq word_le_nat_alt)
  show "unat (ws_allocated_memory_mb w') = unat (ws_allocated_memory_mb w) + unat m"
    if "request_fits (c, m, d) w" "ws_allocated_memory_mb w \<le> memory_cap w"
    using that memory_cap_le_total [of w]
    by (simp add: eq request_fits_def word_le_nat_alt unat_add_noov)
qed

interpretation cpu_ledger: resource_ledger take_resources give_resources
  "\<lambda>w. unat (ws_allocated_cpu w)" "\<lambda>w. unat (cpu_cap w)" "\<lambda>(c, m, d). unat c" request_fits
proof unfold_locales
  fix r :: resource_request and w w'
  obtain c m d where r: "r = (c, m, d)" by (cases r)
  show "take_resources r w = (False, w') \<Longrightarrow> w' = w"
    by (auto simp: take_resources_def r dest: allocate_refused)
  show "take_resources r w = (True, w') \<Longrightarrow> unat (ws_allocated_cpu w') \<le> unat (cpu_cap w')"
    using granted_cpu(1) r by blast
  show "take_resources r w = (True, w') \<Longrightarrow> request_fits r w \<Longrightarrow>
        unat (ws_allocated_cpu w) \<le> unat (cpu_cap w) \<Longrightarrow>
        unat (ws_allocated_cpu w') = unat (ws_allocated_cpu w) + (case r of (c, m, d) \<Rightarrow> unat c)"
    using granted_cpu(2) r by (simp add: word_le_nat_alt)
qed (use granted_frame given_frame in
  \<open>auto simp: give_resources_def release_def sat_simps split: prod.splits\<close>)

interpretation memory_ledger: resource_ledger take_resources give_resources
  "\<lambda>w. unat (ws_allocated_memory_mb w)" "\<lambda>w. unat (memory_cap w)" "\<lambda>(c, m, d). unat m" request_fits
proof unfold_locales
  fix r :: resource_request and w w'
  obtain c m d where r: "r = (c, m, d)" by (cases r)
  show "take_resources r w = (False, w') \<Longrightarrow> w' = w"
    by (auto simp: take_resources_def r dest: allocate_refused)
  show "take_resources r w = (True, w') \<Longrightarrow> unat (ws_allocated_memory_mb w') \<le> unat (memory_cap w')"
    using granted_memory(1) r by blast
  show "take_resources r w = (True, w') \<Longrightarrow> request_fits r w \<Longrightarrow>
        unat (ws_allocated_memory_mb w) \<le> unat (memory_cap w) \<Longrightarrow>
        unat (ws_allocated_memory_mb w') = unat (ws_allocated_memory_mb w) + (case r of (c, m, d) \<Rightarrow> unat m)"
    using granted_memory(2) r by (simp add: word_le_nat_alt)
qed (use granted_frame given_frame in
  \<open>auto simp: give_resources_def release_def sat_simps split: prod.splits\<close>)

section \<open>Properties\<close>

text \<open>C4: From registration on, through any sequence of allocation requests and of
  releases of what was granted, the CPU and the memory a worker counts as allocated
  are exactly the sums over the grants still held, and neither exceeds its effective
  cap; the requests are small enough for the counters not to wrap.\<close>

theorem worker_ledger_conserved:
  assumes "\<forall>r. Acquire r \<in> set ops \<longrightarrow> request_fits r (WorkerState_new now info)"
    and "ledger_run take_resources give_resources ops (WorkerState_new now info, []) = (w, held)"
  shows "unat (ws_allocated_cpu w) = (\<Sum>(c, m, d) \<leftarrow> held. unat c)
       \<and> unat (ws_allocated_memory_mb w) = (\<Sum>(c, m, d) \<leftarrow> held. unat m)
       \<and> ws_allocated_cpu w \<le> cpu_cap w \<and> ws_allocated_memory_mb w \<le> memory_cap w"
proof -
  let ?w0 = "WorkerState_new now info"
  have zero: "unat (ws_allocated_cpu ?w0) = 0" "unat (ws_allocated_memory_mb ?w0) = 0"
    by (simp_all add: WorkerState_new_def)
  have "unat (ws_allocated_cpu w) = (\<Sum>(c, m, d) \<leftarrow> held. unat c)"
    by (rule cpu_ledger.run_conserves [OF _ _ _ assms(2)]) (use assms(1) zero in auto)
  moreover have "unat (ws_allocated_memory_mb w) = (\<Sum>(c, m, d) \<leftarrow> held. unat m)"
    by (rule memory_ledger.run_conserves [OF _ _ _ assms(2)]) (use assms(1) zero in auto)
  moreover have "unat (ws_allocated_cpu w) \<le> unat (cpu_cap w)"
    by (rule cpu_ledger.run_within_cap [OF _ assms(2)]) (simp add: zero)
  moreover have "unat (ws_allocated_memory_mb w) \<le> unat (memory_cap w)"
    by (rule memory_ledger.run_within_cap [OF _ assms(2)]) (simp add: zero)
  ultimately show ?thesis by (simp add: word_le_nat_alt)
qed

text \<open>A sample worker with 8 cores, of which half may be used.\<close>

definition sample_info :: WorkerInfo where
  "sample_info =
     \<lparr> wi_worker_id = ''w1'', wi_hostname = ''h1'', wi_total_cpu = 8, wi_total_memory_mb = 16000,
       wi_total_disk_mb = 1000, wi_disk_type = Nvme, wi_supported_job_types = [''common'', ''nix''],
       wi_docker_enabled = True, wi_labels = [''linux''], wi_disk_details = [], wi_priority = 0,
       wi_max_cpu = None, wi_max_memory_mb = None, wi_max_disk_mb = None,
       wi_max_cpu_percent = Some 50, wi_max_memory_percent = None, wi_max_disk_percent = None \<rparr>"

theorem worker_ledger_conserved_witness:
  "let ops = [Acquire (2, 100, 0), Acquire (1, 50, 10), Acquire (2, 10, 0), GiveBack (2, 100, 0)];
       (w, held) = ledger_run take_resources give_resources ops (WorkerState_new 0 sample_info, [])
   in held = [(1, 50, 10)] \<and> unat (ws_allocated_cpu w) = 1 \<and> ws_allocated_cpu w \<le> cpu_cap w"
proof -
  let ?ops = "[Acquire (2, 100, 0), Acquire (1, 50, 10), Acquire (2, 10, 0), GiveBack (2, 100, 0)]
              :: resource_request ledger_op list"
  obtain w held where
    run: "ledger_run take_resources give_resources ?ops (WorkerState_new 0 sample_info, []) = (w, held)"
    by (cases "ledger_run take_resources give_resources ?ops (WorkerState_new 0 sample_info, [])")
  have held: "held = [(1, 50, 10)]"
    using run by (simp add: take_resources_def give_resources_def allocate_def release_def
      cpu_cap_def memory_cap_def free_disk_mb_def disk_cap_def WorkerState_new_def sample_info_def
      clamp_percent_def Let_def)
  have fits: "\<forall>r. Acquire r \<in> set ?ops \<longrightarrow> request_fits r (WorkerState_new 0 sample_info)"
    by (auto simp: request_fits_def WorkerState_new_def sample_info_def)
  show ?thesis using worker_ledger_conserved [OF fits run] held run by (simp add: Let_def)
qed

text \<open>The effective CPU cap is the smaller of the absolute limit and the percentage
  limit of the cores (the percentage clamped to 1..100 and rounded down), a missing
  limit counting as all cores; so it never exceeds the cores the worker has.\<close>

theorem cpu_cap_exact:
  "unat (cpu_cap w) =
     min (case wi_max_cpu (ws_info w) of Some m \<Rightarrow> unat m | None \<Rightarrow> unat (wi_total_cpu (ws_info w)))
         (case wi_max_cpu_percent (ws_info w) of
            Some p \<Rightarrow> unat (wi_total_cpu (ws_info w)) * nat (max 1 (min 100 p)) div 100
          | None \<Rightarrow> unat (wi_total_cpu (ws_info w)))
   \<and> unat (cpu_cap w) \<le> unat (wi_total_cpu (ws_info w))"
  unfolding clamp_percent_def [symmetric] using cpu_cap_le_total [of w]
  by (auto simp: cpu_cap_def Let_def unat_min cpu_percent_exact word_le_nat_alt split: option.split)

end
