(* ===== verification/Keyed_Store.thy ===== *)
theory Keyed_Store
  imports Prelude
begin

text \<open>
  The contract the three in-memory registries share: values are stored under a key that
  the value itself carries, and an update in place keeps that key.  Scans that take the
  key out of a value and look it up again (\<open>next_job_for\<close>, \<open>handle_worker_death\<close>)
  rely on it.
\<close>

locale keyed_store =
  fixes get :: "'r \<Rightarrow> 'k \<Rightarrow> 'v option"
    and put :: "'v \<Rightarrow> 'r \<Rightarrow> 'r"
    and modify :: "'k \<Rightarrow> ('v \<Rightarrow> 'v) \<Rightarrow> 'r \<Rightarrow> 'r"
    and key :: "'v \<Rightarrow> 'k"
  assumes get_put: "get (put v r) k = (if k = key v then Some v else get r k)"
    and get_modify: "get (modify k f r) k' = (if k' = k then map_option f (get r k) else get r k')"
begin

definition well_keyed :: "'r \<Rightarrow> bool" where
  "well_keyed r \<longleftrightarrow> (\<forall>k v. get r k = Some v \<longrightarrow> key v = k)"

lemma well_keyed_put: "well_keyed r \<Longrightarrow> well_keyed (put v r)"
  by (auto simp: well_keyed_def get_put)

lemma well_keyed_modify:
  "well_keyed r \<Longrightarrow> (\<And>v. key (f v) = key v) \<Longrightarrow> well_keyed (modify k f r)"
  by (auto simp: well_keyed_def get_modify split: if_splits)

lemma well_keyed_modify_at:
  "well_keyed r \<Longrightarrow> (\<And>v. key v = k \<Longrightarrow> key (f v) = k) \<Longrightarrow> well_keyed (modify k f r)"
  by (auto simp: well_keyed_def get_modify split: if_splits)

lemma scan_then_get:
  "well_keyed r \<Longrightarrow> get r k = Some v \<Longrightarrow> get r (key v) = Some v"
  by (auto simp: well_keyed_def)

lemma put_get_same [simp]: "get (put v r) (key v) = Some v"
  by (simp add: get_put)

lemma modify_frame [simp]: "k' \<noteq> k \<Longrightarrow> get (modify k f r) k' = get r k'"
  by (simp add: get_modify)

end

end
