(* ===== verification/Worker_Registry.thy ===== *)
theory Worker_Registry
  imports Worker_State Keyed_Store
begin

text \<open>
  The in-memory worker registry (\<open>ci-controller/src/worker_registry.rs\<close>), with the
  registration and heartbeat messages of \<open>orchestrator.proto\<close>.
\<close>

section \<open>Messages\<close>

record DiskInfo =
  di_mount_point :: string
  di_device :: string
  di_fs_type :: string
  di_total_mb :: u64
  di_used_mb :: u64
  di_available_mb :: u64

record RegisterRequest =
  rr_worker_id :: string
  rr_hostname :: string
  rr_total_cpu :: u32
  rr_total_memory_mb :: u64
  rr_total_disk_mb :: u64
  rr_disk_type :: string
  rr_supported_job_types :: "string list"
  rr_docker_enabled :: bool
  rr_labels :: "string list"
  rr_disk_details :: "DiskInfo list"
  rr_registration_token :: string
  rr_worker_token :: string

record HeartbeatMessage =
  hm_worker_id :: string
  hm_used_cpu_percent :: f64
  hm_used_memory_mb :: u64
  hm_used_disk_mb :: u64
  hm_running_job_ids :: "string list"
  hm_system_load :: f64
  hm_timestamp_unix :: int
  hm_disk_details :: "DiskInfo list"

section \<open>Operations\<close>

type_synonym WorkerRegistry = "string \<rightharpoonup> WorkerState"

definition disk_detail_of :: "DiskInfo \<Rightarrow> DiskDetailInfo" where
  "disk_detail_of d =
     \<lparr> dd_mount_point = di_mount_point d, dd_device = di_device d, dd_fs_type = di_fs_type d,
       dd_total_mb = di_total_mb d, dd_used_mb = di_used_mb d, dd_available_mb = di_available_mb d \<rparr>"

definition worker_info_of :: "string \<Rightarrow> RegisterRequest \<Rightarrow> WorkerInfo" where
  "worker_info_of wid req =
     \<lparr> wi_worker_id = wid, wi_hostname = rr_hostname req, wi_total_cpu = rr_total_cpu req,
       wi_total_memory_mb = rr_total_memory_mb req, wi_total_disk_mb = rr_total_disk_mb req,
       wi_disk_type = (if rr_disk_type req = ''nvme'' then Nvme else Sata),
       wi_supported_job_types = rr_supported_job_types req,
       wi_docker_enabled = rr_docker_enabled req, wi_labels = rr_labels req,
       wi_disk_details = map disk_detail_of (rr_disk_details req),
       wi_priority = 0, wi_max_cpu = None, wi_max_memory_mb = None, wi_max_disk_mb = None,
       wi_max_cpu_percent = None, wi_max_memory_percent = None, wi_max_disk_percent = None \<rparr>"

definition register :: "datetime \<Rightarrow> RegisterRequest \<Rightarrow> WorkerRegistry \<Rightarrow> WorkerRegistry" where
  "register now req r =
     r(rr_worker_id req \<mapsto> WorkerState_new now (worker_info_of (rr_worker_id req) req))"

definition register_with_id ::
  "datetime \<Rightarrow> string \<Rightarrow> RegisterRequest \<Rightarrow> WorkerRegistry \<Rightarrow> WorkerRegistry" where
  "register_with_id now wid req r = r(wid \<mapsto> WorkerState_new now (worker_info_of wid req))"

definition heartbeat_of :: "datetime \<Rightarrow> HeartbeatMessage \<Rightarrow> WorkerHeartbeat" where
  "heartbeat_of now msg =
     \<lparr> hb_worker_id = hm_worker_id msg, hb_used_cpu_percent = hm_used_cpu_percent msg,
       hb_used_memory_mb = hm_used_memory_mb msg, hb_used_disk_mb = hm_used_disk_mb msg,
       hb_running_job_ids = hm_running_job_ids msg, hb_system_load = hm_system_load msg,
       hb_timestamp = now, hb_disk_details = map disk_detail_of (hm_disk_details msg) \<rparr>"

definition update_heartbeat :: "datetime \<Rightarrow> HeartbeatMessage \<Rightarrow> WorkerRegistry \<Rightarrow> WorkerRegistry" where
  "update_heartbeat now msg =
     hm_modify (hm_worker_id msg)
       (\<lambda>w. w\<lparr> ws_status := Connected, ws_last_heartbeat := Some (heartbeat_of now msg) \<rparr>)"

definition connected_workers :: "string list \<Rightarrow> WorkerRegistry \<Rightarrow> WorkerState list" where
  "connected_workers ks r = filter (\<lambda>w. ws_status w = Connected) (hm_values ks r)"

definition mark_disconnected :: "string \<Rightarrow> WorkerRegistry \<Rightarrow> WorkerRegistry" where
  "mark_disconnected wid = hm_modify wid (\<lambda>w. w\<lparr> ws_status := Disconnected \<rparr>)"

definition mark_reconnected :: "string \<Rightarrow> WorkerRegistry \<Rightarrow> WorkerRegistry" where
  "mark_reconnected wid = hm_modify wid (\<lambda>w. w\<lparr> ws_status := Connected \<rparr>)"

definition all_workers :: "string list \<Rightarrow> WorkerRegistry \<Rightarrow> WorkerState list" where
  "all_workers ks r = hm_values ks r"

definition mark_draining :: "string \<Rightarrow> WorkerRegistry \<Rightarrow> bool \<times> WorkerRegistry" where
  "mark_draining wid r = (r wid \<noteq> None, hm_modify wid (\<lambda>w. w\<lparr> ws_status := Draining \<rparr>) r)"

definition insert_worker_state :: "WorkerState \<Rightarrow> WorkerRegistry \<Rightarrow> WorkerRegistry" where
  "insert_worker_state w r = r(wi_worker_id (ws_info w) \<mapsto> w)"

definition modify_info :: "string \<Rightarrow> (WorkerInfo \<Rightarrow> WorkerInfo) \<Rightarrow> WorkerRegistry \<Rightarrow> WorkerRegistry" where
  "modify_info wid f = hm_modify wid (\<lambda>w. w\<lparr> ws_info := f (ws_info w) \<rparr>)"

definition update_labels :: "string \<Rightarrow> string list \<Rightarrow> WorkerRegistry \<Rightarrow> bool \<times> WorkerRegistry" where
  "update_labels wid labels r = (r wid \<noteq> None, modify_info wid (\<lambda>i. i\<lparr> wi_labels := labels \<rparr>) r)"

definition get_labels :: "string \<Rightarrow> WorkerRegistry \<Rightarrow> string list option" where
  "get_labels wid r = map_option (\<lambda>w. wi_labels (ws_info w)) (r wid)"

definition update_system_info :: "string \<Rightarrow> string \<Rightarrow> WorkerRegistry \<Rightarrow> bool \<times> WorkerRegistry" where
  "update_system_info wid info r =
     (r wid \<noteq> None, hm_modify wid (\<lambda>w. w\<lparr> ws_system_info := Some info \<rparr>) r)"

definition is_draining :: "string \<Rightarrow> WorkerRegistry \<Rightarrow> bool" where
  "is_draining wid r = (case r wid of Some w \<Rightarrow> ws_status w = Draining | None \<Rightarrow> False)"

text \<open>The silence of a worker in whole seconds, cast to \<open>u64\<close> as the source does.\<close>

definition silence :: "datetime \<Rightarrow> WorkerState \<Rightarrow> u64" where
  "silence now w =
     (let last_hb = (case ws_last_heartbeat w of
            Some hb \<Rightarrow> hb_timestamp hb | None \<Rightarrow> ws_registered_at w)
      in as_u64 (num_seconds (now - last_hb)))"

definition heartbeat_expired :: "datetime \<Rightarrow> u64 \<Rightarrow> WorkerState \<Rightarrow> bool" where
  "heartbeat_expired now timeout w \<longleftrightarrow> ws_status w = Connected \<and> silence now w > timeout"

definition check_heartbeat_timeouts ::
  "string list \<Rightarrow> datetime \<Rightarrow> u64 \<Rightarrow> WorkerRegistry \<Rightarrow> string list \<times> WorkerRegistry" where
  "check_heartbeat_timeouts ks now timeout r =
     (let timed_out = filter (\<lambda>k. case r k of Some w \<Rightarrow> heartbeat_expired now timeout w | None \<Rightarrow> False) ks
      in (timed_out, fold mark_disconnected timed_out r))"

text \<open>\<open>Option<Option<T>>\<close> arguments: the outer option says whether the field is set at all.\<close>

definition set_opt :: "'a option \<Rightarrow> ('a \<Rightarrow> 'b \<Rightarrow> 'b) \<Rightarrow> 'b \<Rightarrow> 'b" where
  "set_opt x f i = (case x of Some v \<Rightarrow> f v i | None \<Rightarrow> i)"

definition update_priority_limits ::
  "string \<Rightarrow> int option \<Rightarrow> u32 option option \<Rightarrow> u64 option option \<Rightarrow> u64 option option
   \<Rightarrow> int option option \<Rightarrow> int option option \<Rightarrow> int option option
   \<Rightarrow> WorkerRegistry \<Rightarrow> bool \<times> WorkerRegistry" where
  "update_priority_limits wid prio mc mm md mcp mmp mdp r =
     (r wid \<noteq> None,
      modify_info wid
        (set_opt mdp (\<lambda>v i. i\<lparr> wi_max_disk_percent := v \<rparr>) \<circ>
         set_opt mmp (\<lambda>v i. i\<lparr> wi_max_memory_percent := v \<rparr>) \<circ>
         set_opt mcp (\<lambda>v i. i\<lparr> wi_max_cpu_percent := v \<rparr>) \<circ>
         set_opt md (\<lambda>v i. i\<lparr> wi_max_disk_mb := v \<rparr>) \<circ>
         set_opt mm (\<lambda>v i. i\<lparr> wi_max_memory_mb := v \<rparr>) \<circ>
         set_opt mc (\<lambda>v i. i\<lparr> wi_max_cpu := v \<rparr>) \<circ>
         set_opt prio (\<lambda>v i. i\<lparr> wi_priority := v \<rparr>)) r)"

definition remove_worker :: "string \<Rightarrow> WorkerRegistry \<Rightarrow> bool \<times> WorkerRegistry" where
  "remove_worker wid r = (r wid \<noteq> None, hm_remove wid r)"

section \<open>The registry as a keyed store\<close>

abbreviation worker_key :: "WorkerState \<Rightarrow> string" where
  "worker_key w \<equiv> wi_worker_id (ws_info w)"

interpretation workers: keyed_store "\<lambda>r. r" insert_worker_state hm_modify worker_key
  by unfold_locales (simp_all add: insert_worker_state_def hm_modify_apply)

lemma register_with_id_put:
  "register_with_id now wid req r = insert_worker_state (WorkerState_new now (worker_info_of wid req)) r"
  by (simp add: register_with_id_def insert_worker_state_def WorkerState_new_def worker_info_of_def)

lemma register_is_with_id: "register now req = register_with_id now (rr_worker_id req) req"
  by (simp add: fun_eq_iff register_def register_with_id_def)

lemma set_opt_worker_id:
  "(\<And>v i. wi_worker_id (f v i) = wi_worker_id i) \<Longrightarrow> wi_worker_id (set_opt x f i) = wi_worker_id i"
  by (simp add: set_opt_def split: option.split)

lemma fold_mark_disconnected_apply:
  "fold mark_disconnected ids r k =
     (if k \<in> set ids then map_option (\<lambda>w. w\<lparr> ws_status := Disconnected \<rparr>) (r k) else r k)"
  by (induction ids arbitrary: r)
    (auto simp: mark_disconnected_def hm_modify_apply option.map_comp o_def)

section \<open>Histories of the registry\<close>

text \<open>One step is one call of a registry method, or of \<open>allocate\<close>/\<open>release\<close> through
  \<open>get_mut\<close>.\<close>

inductive wr_step :: "WorkerRegistry \<Rightarrow> WorkerRegistry \<Rightarrow> bool" where
  step_register: "wr_step r (register now req r)"
| step_register_with_id: "wr_step r (register_with_id now wid req r)"
| step_heartbeat: "wr_step r (update_heartbeat now msg r)"
| step_disconnected: "wr_step r (mark_disconnected wid r)"
| step_reconnected: "wr_step r (mark_reconnected wid r)"
| step_draining: "wr_step r (snd (mark_draining wid r))"
| step_insert: "wr_step r (insert_worker_state w r)"
| step_labels: "wr_step r (snd (update_labels wid labels r))"
| step_system_info: "wr_step r (snd (update_system_info wid info r))"
| step_timeouts: "wr_step r (snd (check_heartbeat_timeouts ks now timeout r))"
| step_limits: "wr_step r (snd (update_priority_limits wid prio mc mm md mcp mmp mdp r))"
| step_remove: "wr_step r (snd (remove_worker wid r))"
| step_allocate: "wr_step r (hm_modify wid (\<lambda>w. snd (allocate c m d w)) r)"
| step_release: "wr_step r (hm_modify wid (release c m d) r)"

lemma wr_step_well_keyed: "wr_step r r' \<Longrightarrow> workers.well_keyed r \<Longrightarrow> workers.well_keyed r'"
proof (induction rule: wr_step.induct)
  case step_timeouts
  then show ?case
    by (auto simp: workers.well_keyed_def check_heartbeat_timeouts_def Let_def fold_mark_disconnected_apply
        split: if_splits)
next
  case step_remove
  then show ?case by (auto simp: workers.well_keyed_def remove_worker_def hm_remove_def split: if_splits)
qed (auto simp: register_is_with_id register_with_id_put update_heartbeat_def mark_disconnected_def
    mark_reconnected_def mark_draining_def update_labels_def update_system_info_def modify_info_def
    update_priority_limits_def set_opt_worker_id
    intro!: workers.well_keyed_put workers.well_keyed_modify)

text \<open>In every state the worker registry can reach from the empty one, each
  worker is stored under its own worker id, so a worker found by scanning the values is
  the one a lookup by its id returns.\<close>

theorem worker_registry_well_keyed:
  assumes "wr_step\<^sup>*\<^sup>* Map.empty r" "r k = Some w"
  shows "wi_worker_id (ws_info w) = k \<and> r (wi_worker_id (ws_info w)) = Some w"
proof -
  have "workers.well_keyed r"
    using assms(1) by (induction rule: rtranclp_induct) (auto simp: workers.well_keyed_def dest: wr_step_well_keyed)
  with assms(2) show ?thesis by (auto simp: workers.well_keyed_def)
qed

definition sample_register :: RegisterRequest where
  "sample_register =
     \<lparr> rr_worker_id = ''w1'', rr_hostname = ''h'', rr_total_cpu = 4, rr_total_memory_mb = 8000,
       rr_total_disk_mb = 500, rr_disk_type = ''nvme'', rr_supported_job_types = [''common''],
       rr_docker_enabled = False, rr_labels = [], rr_disk_details = [],
       rr_registration_token = [], rr_worker_token = [] \<rparr>"

theorem worker_registry_well_keyed_witness:
  "wi_worker_id (ws_info (WorkerState_new 5 (worker_info_of ''w1'' sample_register))) = ''w1''"
proof -
  have "wr_step\<^sup>*\<^sup>* Map.empty (register 5 sample_register Map.empty)"
    by (blast intro: r_into_rtranclp step_register)
  moreover have "register 5 sample_register Map.empty ''w1''
      = Some (WorkerState_new 5 (worker_info_of ''w1'' sample_register))"
    by (simp add: register_def sample_register_def)
  ultimately show ?thesis using worker_registry_well_keyed by blast
qed

section \<open>Heartbeat timeouts\<close>

text \<open>What the check does to one worker.\<close>

definition expire_worker :: "datetime \<Rightarrow> u64 \<Rightarrow> WorkerState \<Rightarrow> WorkerState" where
  "expire_worker now timeout w =
     (if heartbeat_expired now timeout w then w\<lparr> ws_status := Disconnected \<rparr> else w)"

lemma expire_worker_done [simp]: "\<not> heartbeat_expired now timeout (expire_worker now timeout w)"
  by (auto simp: expire_worker_def heartbeat_expired_def)

text \<open>The timeout check returns exactly the connected workers that have been silent
  for longer than the timeout, each once; it disconnects those, leaves every other
  worker and every allocation as it was, and afterwards no connected worker is overdue.\<close>

theorem check_heartbeat_timeouts_exact:
  assumes "hm_order ks r" "check_heartbeat_timeouts ks now timeout r = (ids, r')"
  shows "distinct ids
       \<and> set ids = {k. \<exists>w. r k = Some w \<and> heartbeat_expired now timeout w}
       \<and> (\<forall>k. r' k = map_option (expire_worker now timeout) (r k))
       \<and> (\<forall>w \<in> ran r'. \<not> heartbeat_expired now timeout w)"
proof -
  let ?exp = "\<lambda>k. case r k of Some w \<Rightarrow> heartbeat_expired now timeout w | None \<Rightarrow> False"
  have ids: "ids = filter ?exp ks" and r': "r' = fold mark_disconnected ids r"
    using assms(2) by (auto simp: check_heartbeat_timeouts_def Let_def)
  have mem: "k \<in> set ids \<longleftrightarrow> (\<exists>w. r k = Some w \<and> heartbeat_expired now timeout w)" for k
    using assms(1) by (auto simp: ids hm_order_def split: option.splits)
  have at: "r' k = map_option (expire_worker now timeout) (r k)" for k
    unfolding r' fold_mark_disconnected_apply mem by (cases "r k") (auto simp: expire_worker_def)
  then have "\<forall>w \<in> ran r'. \<not> heartbeat_expired now timeout w"
    by (auto simp: ran_def)
  moreover have "distinct ids" using assms(1) by (simp add: ids hm_order_def)
  moreover have "set ids = {k. \<exists>w. r k = Some w \<and> heartbeat_expired now timeout w}"
    using mem by blast
  ultimately show ?thesis using at by blast
qed

theorem check_heartbeat_timeouts_exact_witness:
  "let r = [''w1'' \<mapsto> WorkerState_new 0 sample_info, ''w2'' \<mapsto> WorkerState_new 50000000000 sample_info]
   in fst (check_heartbeat_timeouts [''w1'', ''w2''] 61000000000 30 r) = [''w1'']
    \<and> (\<forall>w \<in> ran (snd (check_heartbeat_timeouts [''w1'', ''w2''] 61000000000 30 r)).
         \<not> heartbeat_expired 61000000000 30 w)"
proof -
  let ?r = "[''w1'' \<mapsto> WorkerState_new 0 sample_info, ''w2'' \<mapsto> WorkerState_new 50000000000 sample_info]"
  have order: "hm_order [''w1'', ''w2''] ?r" by (auto simp: hm_order_def)
  have "fst (check_heartbeat_timeouts [''w1'', ''w2''] 61000000000 30 ?r) = [''w1'']"
    by (simp add: check_heartbeat_timeouts_def heartbeat_expired_def silence_def WorkerState_new_def
        num_seconds_def nanos_per_sec_def as_u64_def)
  with check_heartbeat_timeouts_exact [OF order prod.collapse [symmetric]] show ?thesis
    by (simp add: Let_def)
qed

text \<open>A heartbeat stamped later than the clock reads now, by a second or more, makes the
  elapsed seconds negative; cast to \<open>u64\<close> they exceed every sensible timeout.\<close>

theorem clock_step_back_expires_worker:
  assumes "ws_status w = Connected" "ws_last_heartbeat w = None"
    and "ws_registered_at w = now + nanos_per_sec" "timeout < 2 ^ 63"
  shows "heartbeat_expired now timeout w"
proof -
  have "silence now w = - 1"
    using assms(2,3) by (simp add: silence_def num_seconds_def nanos_per_sec_def as_u64_def)
  moreover have "timeout < (- 1 :: u64)"
  proof -
    have "(2 ^ 63 :: u64) < - 1" by simp
    with assms(4) show ?thesis by (rule order.strict_trans)
  qed
  ultimately show ?thesis using assms(1) by (simp add: heartbeat_expired_def)
qed

text \<open>A heartbeat puts a draining worker back into service.\<close>

theorem heartbeat_undrains:
  assumes "is_draining wid r" "hm_worker_id msg = wid"
  shows "\<not> is_draining wid (update_heartbeat now msg r)"
  using assms by (auto simp: is_draining_def update_heartbeat_def split: option.splits)

end
