(* ===== verification/Job_Registry.thy ===== *)
theory Job_Registry
  imports Models Keyed_Store
begin

text \<open>
  The in-memory job registry (\<open>ci-controller/src/job_registry.rs\<close>).  \<open>now\<close> is the clock
  reading of the call and \<open>ks\<close> the iteration order of the job map.
\<close>

section \<open>Messages\<close>

record JobStatusUpdate =
  su_worker_id :: string
  su_job_id :: string
  su_state :: int
  su_message :: string
  su_exit_code :: int
  su_timestamp_unix :: int
  su_job_group_id :: string
  su_stage_name :: string
  su_phase :: string
  su_pre_exit_code :: int
  su_post_exit_code :: int
  su_purge_ack :: bool

section \<open>Operations\<close>

type_synonym JobRegistry = "string \<rightharpoonup> Job"

definition job_state_of_proto :: "int \<Rightarrow> JobState" where
  "job_state_of_proto i =
     (if i = 1 then JQueued else if i = 2 then JAssigned else if i = 3 then JRunning
      else if i = 4 then JSuccess else if i = 5 then JFailed else if i = 6 then JCancelled
      else JUnknown)"

definition status_reason_of :: "JobState \<Rightarrow> int \<Rightarrow> string option" where
  "status_reason_of s code =
     (case s of
        JSuccess \<Rightarrow> Some ''Completed successfully (exit code 0)''
      | JFailed \<Rightarrow> Some (''Command failed (exit code '' @ int_to_dec code @ '')'')
      | JCancelled \<Rightarrow> Some ''Cancelled''
      | _ \<Rightarrow> None)"

definition add_job :: "Job \<Rightarrow> JobRegistry \<Rightarrow> JobRegistry" where
  "add_job j r = r(j_job_id j \<mapsto> j)"

definition update_status :: "datetime \<Rightarrow> JobStatusUpdate \<Rightarrow> JobRegistry \<Rightarrow> JobRegistry" where
  "update_status now u =
     (let new_state = job_state_of_proto (su_state u)
      in hm_modify (su_job_id u)
           (\<lambda>j. j\<lparr> j_state := new_state, j_exit_code := Some (su_exit_code u),
                   j_status_reason := status_reason_of new_state (su_exit_code u),
                   j_updated_at := now \<rparr>))"

definition mark_assigned :: "datetime \<Rightarrow> string \<Rightarrow> Job \<Rightarrow> Job" where
  "mark_assigned now wid j =
     j\<lparr> j_state := JAssigned, j_assigned_worker := Some wid, j_updated_at := now \<rparr>"

definition next_job_for ::
  "string list \<Rightarrow> datetime \<Rightarrow> string \<Rightarrow> JobRegistry \<Rightarrow> Job option \<times> JobRegistry" where
  "next_job_for ks now wid r =
     (case List.find (\<lambda>j. j_state j = JQueued) (hm_values ks r) of
        None \<Rightarrow> (None, r)
      | Some j \<Rightarrow>
          (let r' = hm_modify (j_job_id j) (mark_assigned now wid) r in (r' (j_job_id j), r')))"

definition assign_job ::
  "datetime \<Rightarrow> string \<Rightarrow> string \<Rightarrow> JobRegistry \<Rightarrow> Job option \<times> JobRegistry" where
  "assign_job now jid wid r =
     (case r jid of
        Some j \<Rightarrow>
          if j_state j = JQueued
          then (Some (mark_assigned now wid j), r(jid \<mapsto> mark_assigned now wid j))
          else (None, r)
      | None \<Rightarrow> (None, r))"

definition queued_jobs :: "string list \<Rightarrow> JobRegistry \<Rightarrow> Job list" where
  "queued_jobs ks r = filter (\<lambda>j. j_state j = JQueued) (hm_values ks r)"

definition runs_on :: "string \<Rightarrow> Job \<Rightarrow> bool" where
  "runs_on wid j \<longleftrightarrow> j_assigned_worker j = Some wid \<and> j_state j = JRunning"

definition mark_unknown_for_worker ::
  "string list \<Rightarrow> datetime \<Rightarrow> string \<Rightarrow> JobRegistry \<Rightarrow> nat \<times> JobRegistry" where
  "mark_unknown_for_worker ks now wid r =
     (length (filter (runs_on wid) (hm_values ks r)),
      hm_map_values (\<lambda>j. if runs_on wid j then j\<lparr> j_state := JUnknown, j_updated_at := now \<rparr> else j) r)"

definition cancel_job ::
  "datetime \<Rightarrow> string \<Rightarrow> string \<Rightarrow> JobRegistry \<Rightarrow> string option \<times> JobRegistry" where
  "cancel_job now jid reason r =
     (case r jid of
        None \<Rightarrow> (None, r)
      | Some j \<Rightarrow>
          (case j_state j of
             JSuccess \<Rightarrow> (None, r)
           | JFailed \<Rightarrow> (None, r)
           | JCancelled \<Rightarrow> (None, r)
           | JRunning \<Rightarrow> (j_assigned_worker j,
                r(jid \<mapsto> j\<lparr> j_cancel_reason := Some reason, j_updated_at := now \<rparr>))
           | JAssigned \<Rightarrow> (j_assigned_worker j,
                r(jid \<mapsto> j\<lparr> j_cancel_reason := Some reason, j_updated_at := now \<rparr>))
           | _ \<Rightarrow> (None,
                r(jid \<mapsto> j\<lparr> j_state := JCancelled, j_cancel_reason := Some reason,
                           j_status_reason := Some (''Cancelled: '' @ reason), j_updated_at := now \<rparr>))))"

definition stale :: "Job \<Rightarrow> bool" where
  "stale j \<longleftrightarrow> j_state j \<in> {JRunning, JAssigned}"

definition mark_unknown :: "datetime \<Rightarrow> Job \<Rightarrow> Job" where
  "mark_unknown now j = j\<lparr> j_state := JUnknown, j_updated_at := now \<rparr>"

definition jr_mark_stale_jobs_unknown ::
  "string list \<Rightarrow> datetime \<Rightarrow> JobRegistry \<Rightarrow> string list \<times> JobRegistry" where
  "jr_mark_stale_jobs_unknown ks now r =
     (let stale_ids = map j_job_id (filter stale (hm_values ks r))
      in (stale_ids, fold (\<lambda>i. hm_modify i (mark_unknown now)) stale_ids r))"

definition orphaned :: "datetime \<Rightarrow> u64 \<Rightarrow> Job \<Rightarrow> bool" where
  "orphaned now timeout j \<longleftrightarrow>
     j_state j \<in> {JQueued, JAssigned} \<and> j_job_group_id j = None \<and>
     as_u64 (num_seconds (now - j_created_at j)) > timeout"

definition cancel_orphan :: "datetime \<Rightarrow> Job \<Rightarrow> Job" where
  "cancel_orphan now j =
     j\<lparr> j_state := JCancelled,
        j_cancel_reason := Some ''Orphaned (submitter disconnected)'',
        j_status_reason := Some ''Cancelled: orphaned (submitter disconnected)'',
        j_updated_at := now \<rparr>"

definition cancel_orphaned_jobs ::
  "string list \<Rightarrow> datetime \<Rightarrow> u64 \<Rightarrow> JobRegistry \<Rightarrow> nat \<times> JobRegistry" where
  "cancel_orphaned_jobs ks now timeout r =
     (length (filter (orphaned now timeout) (hm_values ks r)),
      hm_map_values (\<lambda>j. if orphaned now timeout j then cancel_orphan now j else j) r)"

text \<open>\<open>max_age\<close> is the duration after its conversion to chrono's type, in nanoseconds.\<close>

definition jr_evict_terminal ::
  "string list \<Rightarrow> datetime \<Rightarrow> int \<Rightarrow> JobRegistry \<Rightarrow> nat \<times> JobRegistry" where
  "jr_evict_terminal ks now max_age r =
     (let cutoff = now - max_age;
          r' = hm_retain (\<lambda>_ j. \<not> job_is_terminal (j_state j) \<or> j_updated_at j > cutoff) r
      in (length (hm_values ks r) - length (hm_values ks r'), r'))"

definition get_orphaned_jobs :: "string list \<Rightarrow> string \<Rightarrow> JobRegistry \<Rightarrow> Job list" where
  "get_orphaned_jobs ks conn r =
     filter (\<lambda>j. j_submitter_connection_id j = Some conn \<and>
                 j_state j \<in> {JQueued, JAssigned, JRunning}) (hm_values ks r)"

section \<open>The registry as a keyed store\<close>

interpretation jobs: keyed_store "\<lambda>r. r" add_job hm_modify j_job_id
  by unfold_locales (simp_all add: add_job_def hm_modify_apply)

lemma key_mark_assigned [simp]: "j_job_id (mark_assigned now wid j) = j_job_id j"
  by (simp add: mark_assigned_def)

lemma key_mark_unknown [simp]: "j_job_id (mark_unknown now j) = j_job_id j"
  by (simp add: mark_unknown_def)

text \<open>The calls on a single job as an update in place.\<close>

definition cancelled_record :: "datetime \<Rightarrow> string \<Rightarrow> Job \<Rightarrow> Job" where
  "cancelled_record now reason j =
     (if job_is_terminal (j_state j) then j
      else if stale j then j\<lparr> j_cancel_reason := Some reason, j_updated_at := now \<rparr>
      else j\<lparr> j_state := JCancelled, j_cancel_reason := Some reason,
              j_status_reason := Some (''Cancelled: '' @ reason), j_updated_at := now \<rparr>)"

lemma snd_cancel_job: "snd (cancel_job now jid reason r) = hm_modify jid (cancelled_record now reason) r"
proof (cases "r jid")
  case (Some j)
  then show ?thesis
    by (cases "j_state j")
      (simp_all add: cancel_job_def cancelled_record_def stale_def map_upd_triv del: append.simps)
qed (simp add: cancel_job_def)

lemma snd_assign_job:
  "snd (assign_job now jid wid r) =
   hm_modify jid (\<lambda>j. if j_state j = JQueued then mark_assigned now wid j else j) r"
  by (simp add: assign_job_def hm_modify_def map_upd_triv split: option.split)

lemma key_cancelled_record [simp]: "j_job_id (cancelled_record now reason j) = j_job_id j"
  by (simp add: cancelled_record_def)

lemma state_cancelled_record [simp]:
  "job_is_terminal (j_state j) \<Longrightarrow> cancelled_record now reason j = j"
  by (simp add: cancelled_record_def)

lemma well_keyed_map_values:
  "jobs.well_keyed r \<Longrightarrow> (\<And>j. j_job_id (f j) = j_job_id j) \<Longrightarrow> jobs.well_keyed (hm_map_values f r)"
  by (auto simp: jobs.well_keyed_def hm_simps)

lemma well_keyed_fold_modify:
  "jobs.well_keyed r \<Longrightarrow> (\<And>j. j_job_id (f j) = j_job_id j) \<Longrightarrow>
   jobs.well_keyed (fold (\<lambda>i. hm_modify i f) ids r)"
  by (induction ids arbitrary: r) (auto intro: jobs.well_keyed_modify)

section \<open>Histories\<close>

text \<open>A step is one call on the registry.  Its label is the job whose record a submission or
  a worker's status report overwrites; the other calls have none.\<close>

inductive jr_step :: "string option \<Rightarrow> JobRegistry \<Rightarrow> JobRegistry \<Rightarrow> bool" where
  js_add: "jr_step (Some (j_job_id j)) r (add_job j r)"
| js_status: "jr_step (Some (su_job_id u)) r (update_status now u r)"
| js_next: "jr_step None r (snd (next_job_for ks now wid r))"
| js_assign: "jr_step None r (snd (assign_job now jid wid r))"
| js_unknown: "jr_step None r (snd (mark_unknown_for_worker ks now wid r))"
| js_cancel: "jr_step None r (snd (cancel_job now jid reason r))"
| js_stale: "jr_step None r (snd (jr_mark_stale_jobs_unknown ks now r))"
| js_orphans: "jr_step None r (snd (cancel_orphaned_jobs ks now timeout r))"
| js_evict: "jr_step None r (snd (jr_evict_terminal ks now max_age r))"

lemma jr_step_well_keyed: "jr_step l r r' \<Longrightarrow> jobs.well_keyed r \<Longrightarrow> jobs.well_keyed r'"
proof (induction rule: jr_step.induct)
  case js_evict
  then show ?case by (simp add: jr_evict_terminal_def Let_def jobs.well_keyed_def hm_retain_Some)
next
  case (js_next r ks now wid)
  then show ?case
    by (cases "List.find (\<lambda>j. j_state j = JQueued) (hm_values ks r)")
      (simp_all add: next_job_for_def Let_def jobs.well_keyed_modify)
qed (simp_all add: snd_cancel_job snd_assign_job update_status_def Let_def mark_unknown_for_worker_def
    jr_mark_stale_jobs_unknown_def cancel_orphaned_jobs_def cancel_orphan_def
    jobs.well_keyed_put jobs.well_keyed_modify well_keyed_map_values well_keyed_fold_modify)

text \<open>What the unlabelled steps do to one job: nothing happens to a terminal job but eviction.\<close>

definition keeps_terminal :: "string \<Rightarrow> JobRegistry \<Rightarrow> JobRegistry \<Rightarrow> bool" where
  "keeps_terminal k r r' \<longleftrightarrow>
     (\<forall>j. r k = Some j \<longrightarrow> job_is_terminal (j_state j) \<longrightarrow>
        r' k = None \<or> (\<exists>j'. r' k = Some j' \<and> j_state j' = j_state j))
     \<and> (r k = None \<longrightarrow> r' k = None)"

lemma keeps_terminal_modify:
  assumes "\<And>j. r i = Some j \<Longrightarrow> job_is_terminal (j_state j) \<Longrightarrow> j_state (f j) = j_state j"
  shows "keeps_terminal k r (hm_modify i f r)"
  using assms by (auto simp: keeps_terminal_def hm_modify_apply)

lemma fold_modify_other:
  "k \<notin> set ids \<Longrightarrow> fold (\<lambda>i. hm_modify i f) ids r k = r k"
  by (induction ids arbitrary: r) (simp_all add: hm_simps)

lemma fold_modify_none:
  "r k = None \<Longrightarrow> fold (\<lambda>i. hm_modify i f) ids r k = None"
proof (induction ids arbitrary: r)
  case (Cons i ids)
  have "hm_modify i f r k = None" using Cons.prems by (cases "k = i") (simp_all add: hm_simps)
  with Cons.IH show ?case by simp
qed simp

lemma stale_ids_not_terminal:
  assumes "jobs.well_keyed r" "r k = Some j" "job_is_terminal (j_state j)"
  shows "k \<notin> set (map j_job_id (filter stale (hm_values ks r)))"
proof
  assume "k \<in> set (map j_job_id (filter stale (hm_values ks r)))"
  then obtain j' where "stale j'" "j_job_id j' = k" "j' \<in> set (hm_values ks r)" by auto
  moreover from this have "r k = Some j'"
    using assms(1) by (auto simp: set_hm_values jobs.well_keyed_def)
  ultimately show False using assms(2,3) by (auto simp: stale_def)
qed

lemma keeps_terminal_stale:
  assumes "jobs.well_keyed r"
  shows "keeps_terminal k r (snd (jr_mark_stale_jobs_unknown ks now r))"
proof -
  let ?ids = "map j_job_id (filter stale (hm_values ks r))"
  have eq: "snd (jr_mark_stale_jobs_unknown ks now r) = fold (\<lambda>i. hm_modify i (mark_unknown now)) ?ids r"
    by (simp add: jr_mark_stale_jobs_unknown_def Let_def)
  show ?thesis
  proof (cases "r k")
    case (Some j)
    have "fold (\<lambda>i. hm_modify i (mark_unknown now)) ?ids r k = Some j" if "job_is_terminal (j_state j)"
      unfolding fold_modify_other [OF stale_ids_not_terminal [OF assms Some that]] by (rule Some)
    then have "job_is_terminal (j_state j) \<Longrightarrow> snd (jr_mark_stale_jobs_unknown ks now r) k = Some j"
      unfolding eq .
    then show ?thesis unfolding keeps_terminal_def using Some by simp
  qed (simp add: eq keeps_terminal_def fold_modify_none)
qed

lemma find_queued_at_key:
  assumes "jobs.well_keyed r" "List.find (\<lambda>j. j_state j = JQueued) (hm_values ks r) = Some j"
  shows "r (j_job_id j) = Some j" "j_state j = JQueued"
proof -
  have "j \<in> set (hm_values ks r)" "j_state j = JQueued" using assms(2) by (auto simp: find_Some_iff)
  then show "r (j_job_id j) = Some j" "j_state j = JQueued"
    using assms(1) by (auto simp: set_hm_values jobs.well_keyed_def)
qed

lemma keeps_terminal_map_values:
  assumes "\<And>j. job_is_terminal (j_state j) \<Longrightarrow> f j = j"
  shows "keeps_terminal k r (hm_map_values f r)"
  using assms by (cases "r k") (auto simp: keeps_terminal_def hm_simps)

lemma jr_step_keeps_terminal:
  assumes "jr_step l r r'" "jobs.well_keyed r" "l \<noteq> Some k"
  shows "keeps_terminal k r r'"
  using assms
proof (induction rule: jr_step.induct)
  case (js_next r ks now wid)
  show ?case
  proof (cases "List.find (\<lambda>j. j_state j = JQueued) (hm_values ks r)")
    case (Some j)
    note queued = find_queued_at_key [OF js_next.prems(1) Some]
    have "keeps_terminal k r (hm_modify (j_job_id j) (mark_assigned now wid) r)"
      by (rule keeps_terminal_modify) (use queued in auto)
    then show ?thesis by (simp add: next_job_for_def Let_def Some)
  qed (simp add: next_job_for_def keeps_terminal_def)
next
  case js_stale
  then show ?case by (blast intro: keeps_terminal_stale)
next
  case (js_evict r ks now max_age)
  then show ?case
    by (cases "r k") (simp_all add: jr_evict_terminal_def Let_def keeps_terminal_def hm_retain_def)
next
  case js_cancel
  then show ?case by (simp add: snd_cancel_job keeps_terminal_modify)
next
  case js_assign
  then show ?case by (auto simp: snd_assign_job intro!: keeps_terminal_modify)
next
  case js_unknown
  then show ?case
    by (auto simp: mark_unknown_for_worker_def runs_on_def intro!: keeps_terminal_map_values)
next
  case js_orphans
  then show ?case
    by (auto simp: cancel_orphaned_jobs_def orphaned_def intro!: keeps_terminal_map_values)
qed (auto simp: keeps_terminal_def add_job_def update_status_def Let_def hm_modify_apply)

section \<open>Properties\<close>

abbreviation jr_steps_without :: "string \<Rightarrow> JobRegistry \<Rightarrow> JobRegistry \<Rightarrow> bool" where
  "jr_steps_without k \<equiv> (\<lambda>r r'. \<exists>l. l \<noteq> Some k \<and> jr_step l r r')\<^sup>*\<^sup>*"


definition sample_job :: "string \<Rightarrow> JobState \<Rightarrow> Job" where
  "sample_job jid s = (Job_new 0 jid ''make'' TCommon 1 100 10)\<lparr> j_state := s \<rparr>"



end
