(* ===== verification/Job_Group_Registry.thy ===== *)
theory Job_Group_Registry
  imports Models Keyed_Store
begin

text \<open>
  The in-memory job group registry (\<open>ci-controller/src/job_group_registry.rs\<close>): the group
  state machine, the jobs of each group, completion detection, worker death and
  migration.  \<open>v5\<close> stands for the text of \<open>Uuid::new_v5(NAMESPACE_OID, _)\<close>, and \<open>gs\<close> for
  the iteration order of the group map.
\<close>

section \<open>Operations\<close>

record JobGroupRegistry =
  gr_groups :: "uuid \<rightharpoonup> JobGroup"
  gr_group_jobs :: "uuid \<rightharpoonup> Job list"

definition JobGroupRegistry_new :: JobGroupRegistry where
  "JobGroupRegistry_new = \<lparr> gr_groups = Map.empty, gr_group_jobs = Map.empty \<rparr>"

definition modify_group :: "uuid \<Rightarrow> (JobGroup \<Rightarrow> JobGroup) \<Rightarrow> JobGroupRegistry \<Rightarrow> JobGroupRegistry" where
  "modify_group gid f r = r\<lparr> gr_groups := hm_modify gid f (gr_groups r) \<rparr>"

definition modify_group_jobs :: "uuid \<Rightarrow> (Job list \<Rightarrow> Job list) \<Rightarrow> JobGroupRegistry \<Rightarrow> JobGroupRegistry" where
  "modify_group_jobs gid f r = r\<lparr> gr_group_jobs := hm_modify gid f (gr_group_jobs r) \<rparr>"

definition add_group :: "JobGroup \<Rightarrow> JobGroupRegistry \<Rightarrow> JobGroupRegistry" where
  "add_group g r =
     r\<lparr> gr_group_jobs := (if gr_group_jobs r (g_id g) = None
                          then (gr_group_jobs r)(g_id g \<mapsto> []) else gr_group_jobs r),
        gr_groups := (gr_groups r)(g_id g \<mapsto> g) \<rparr>"

definition touch_activity :: "datetime \<Rightarrow> uuid \<Rightarrow> JobGroupRegistry \<Rightarrow> JobGroupRegistry" where
  "touch_activity now gid = modify_group gid (\<lambda>g. g\<lparr> g_last_activity_at := now \<rparr>)"

definition valid_transition :: "JobGroupState \<Rightarrow> JobGroupState \<Rightarrow> bool" where
  "valid_transition old new \<longleftrightarrow>
     new \<in> {GCancelled, GFailed, GExpired}
     \<or> old = GPending \<and> new = GReserved
     \<or> old = GReserved \<and> new = GRunning
     \<or> old = GRunning \<and> new = GSuccess"

definition enter_state :: "datetime \<Rightarrow> JobGroupState \<Rightarrow> JobGroup \<Rightarrow> JobGroup" where
  "enter_state now s g =
     g\<lparr> g_state := s, g_updated_at := now,
        g_completed_at := (if group_is_terminal s then Some now else g_completed_at g) \<rparr>"

definition update_state ::
  "datetime \<Rightarrow> uuid \<Rightarrow> JobGroupState \<Rightarrow> JobGroupRegistry \<Rightarrow> bool \<times> JobGroupRegistry" where
  "update_state now gid s r =
     (case gr_groups r gid of
        None \<Rightarrow> (False, r)
      | Some g \<Rightarrow> if valid_transition (g_state g) s
                  then (True, modify_group gid (enter_state now s) r)
                  else (False, r))"

definition add_job_to_group :: "uuid \<Rightarrow> Job \<Rightarrow> JobGroupRegistry \<Rightarrow> JobGroupRegistry" where
  "add_job_to_group gid j r =
     r\<lparr> gr_group_jobs := (gr_group_jobs r)(gid \<mapsto>
          (case gr_group_jobs r gid of Some js \<Rightarrow> js | None \<Rightarrow> []) @ [j]) \<rparr>"

definition gr_mark_stale_jobs_unknown ::
  "uuid list \<Rightarrow> datetime \<Rightarrow> JobGroupRegistry \<Rightarrow> nat \<times> JobGroupRegistry" where
  "gr_mark_stale_jobs_unknown gs now r =
     (let is_stale = (\<lambda>j. j_state j \<in> {JRunning, JAssigned})
      in (sum_list (map (\<lambda>js. length (filter is_stale js)) (hm_values gs (gr_group_jobs r))),
          r\<lparr> gr_group_jobs := hm_map_values
               (map (\<lambda>j. if is_stale j then j\<lparr> j_state := JUnknown, j_updated_at := now \<rparr> else j))
               (gr_group_jobs r) \<rparr>))"

definition get_jobs_for_group :: "uuid \<Rightarrow> JobGroupRegistry \<Rightarrow> Job list" where
  "get_jobs_for_group gid r = (case gr_group_jobs r gid of Some js \<Rightarrow> js | None \<Rightarrow> [])"

definition job_id_matches :: "(string \<Rightarrow> string) \<Rightarrow> string \<Rightarrow> string \<Rightarrow> bool" where
  "job_id_matches v5 stored lookup \<longleftrightarrow> stored = lookup \<or> stored = v5 lookup"

definition report_job :: "datetime \<Rightarrow> JobState \<Rightarrow> int option \<Rightarrow> Job \<Rightarrow> Job" where
  "report_job now s code j =
     (let j = j\<lparr> j_state := s, j_exit_code := code, j_updated_at := now \<rparr>
      in if job_is_terminal s
         then j\<lparr> j_completed_at := Some now,
                 j_status_reason :=
                   (case s of
                      JSuccess \<Rightarrow> Some ''Completed successfully (exit code 0)''
                    | JFailed \<Rightarrow> Some (''Command failed (exit code '' @
                        int_to_dec (case code of Some c \<Rightarrow> c | None \<Rightarrow> -1) @ '')'')
                    | JCancelled \<Rightarrow> Some ''Cancelled''
                    | _ \<Rightarrow> None) \<rparr>
         else j)"

definition update_job_in_group ::
  "(string \<Rightarrow> string) \<Rightarrow> datetime \<Rightarrow> uuid \<Rightarrow> string \<Rightarrow> JobState \<Rightarrow> int option
   \<Rightarrow> JobGroupRegistry \<Rightarrow> JobGroupRegistry" where
  "update_job_in_group v5 now gid jid s code =
     modify_group_jobs gid (update_first (\<lambda>j. job_id_matches v5 (j_job_id j) jid) (report_job now s code))"

definition get_job_mut_in_group ::
  "(string \<Rightarrow> string) \<Rightarrow> uuid \<Rightarrow> string \<Rightarrow> (Job \<Rightarrow> Job) \<Rightarrow> JobGroupRegistry \<Rightarrow> JobGroupRegistry" where
  "get_job_mut_in_group v5 gid jid f =
     modify_group_jobs gid (update_first (\<lambda>j. job_id_matches v5 (j_job_id j) jid) f)"

definition set_status_reason :: "uuid \<Rightarrow> string \<Rightarrow> JobGroupRegistry \<Rightarrow> JobGroupRegistry" where
  "set_status_reason gid reason = modify_group gid (\<lambda>g. g\<lparr> g_status_reason := Some reason \<rparr>)"

definition failure_reason :: "Job list \<Rightarrow> string" where
  "failure_reason js =
     (case List.find (\<lambda>j. j_state j = JFailed) js of
        Some j \<Rightarrow> ''Stage '' @ (case j_stage_name j of Some n \<Rightarrow> n | None \<Rightarrow> ''unknown'') @
                 '' failed (exit code '' @
                 int_to_dec (case j_exit_code j of Some c \<Rightarrow> c | None \<Rightarrow> -1) @ '')''
      | None \<Rightarrow> ''Stage failed'')"

definition settled :: "JobState \<Rightarrow> bool" where
  "settled s \<longleftrightarrow> s \<in> {JSuccess, JFailed, JCancelled, JUnknown}"

definition missing_stages :: "JobGroup \<Rightarrow> Job list \<Rightarrow> string list" where
  "missing_stages g js =
     filter (\<lambda>s. s \<notin> set (List.map_filter j_stage_name js)) (g_reserved_stages g)"

definition check_group_completion ::
  "datetime \<Rightarrow> uuid \<Rightarrow> JobGroupRegistry \<Rightarrow> JobGroupState option \<times> JobGroupRegistry" where
  "check_group_completion now gid r =
     (case gr_groups r gid of
        None \<Rightarrow> (None, r)
      | Some g \<Rightarrow>
          if group_is_terminal (g_state g) then (None, r)
          else case gr_group_jobs r gid of
            None \<Rightarrow> (None, r)
          | Some js \<Rightarrow>
              if js = [] then (None, r)
              else
                let any_failed = list_ex (\<lambda>j. j_state j = JFailed) js;
                    any_cancelled = list_ex (\<lambda>j. j_state j = JCancelled) js
                in
                if any_failed \<or> any_cancelled then
                  let (new_state, reason) =
                        (if any_failed then (GFailed, failure_reason js)
                         else (GCancelled, ''Cancelled: stage was cancelled''))
                  in (Some new_state,
                      set_status_reason gid reason (snd (update_state now gid new_state r)))
                else if \<not> list_all (\<lambda>j. settled (j_state j)) js then (None, r)
                else if g_reserved_stages g \<noteq> [] \<and> missing_stages g js \<noteq> [] then (None, r)
                else (Some GSuccess,
                      set_status_reason gid ''All stages completed successfully''
                        (snd (update_state now gid GSuccess r))))"

definition gr_evict_terminal ::
  "uuid list \<Rightarrow> datetime \<Rightarrow> int \<Rightarrow> JobGroupRegistry \<Rightarrow> nat \<times> JobGroupRegistry" where
  "gr_evict_terminal gs now max_age r =
     (let cutoff = now - max_age;
          to_remove = filter (\<lambda>gid. case gr_groups r gid of
              Some g \<Rightarrow> group_is_terminal (g_state g) \<and> g_updated_at g < cutoff
            | None \<Rightarrow> False) gs
      in (length to_remove,
          fold (\<lambda>gid r. r\<lparr> gr_groups := hm_remove gid (gr_groups r),
                          gr_group_jobs := hm_remove gid (gr_group_jobs r) \<rparr>) to_remove r))"

definition active_groups :: "uuid list \<Rightarrow> JobGroupRegistry \<Rightarrow> JobGroup list" where
  "active_groups gs r = filter (\<lambda>g. \<not> group_is_terminal (g_state g)) (hm_values gs (gr_groups r))"

definition get_groups_for_worker :: "uuid list \<Rightarrow> string \<Rightarrow> JobGroupRegistry \<Rightarrow> JobGroup list" where
  "get_groups_for_worker gs wid r =
     filter (\<lambda>g. \<not> group_is_terminal (g_state g))
       (filter (\<lambda>g. g_reserved_worker_id g = Some wid) (hm_values gs (gr_groups r)))"

definition has_pending :: "uuid \<Rightarrow> JobGroupRegistry \<Rightarrow> bool" where
  "has_pending gid r =
     (case gr_group_jobs r gid of
        Some js \<Rightarrow> list_ex (\<lambda>j. j_state j \<in> {JQueued, JAssigned}) js | None \<Rightarrow> False)"

definition handle_worker_death ::
  "uuid list \<Rightarrow> string \<Rightarrow> JobGroupRegistry \<Rightarrow> uuid list \<times> uuid list" where
  "handle_worker_death gs wid r =
     (let active_group_ids = map g_id (get_groups_for_worker gs wid r)
      in (filter (\<lambda>gid. has_pending gid r) active_group_ids,
          filter (\<lambda>gid. \<not> has_pending gid r) active_group_ids))"

definition migrate_group :: "datetime \<Rightarrow> uuid \<Rightarrow> string \<Rightarrow> JobGroupRegistry \<Rightarrow> JobGroupRegistry" where
  "migrate_group now gid wid r =
     modify_group_jobs gid
       (map (\<lambda>j. if j_state j \<in> {JQueued, JAssigned} then j\<lparr> j_assigned_worker := Some wid \<rparr> else j))
       (modify_group gid (\<lambda>g. g\<lparr> g_reserved_worker_id := Some wid, g_updated_at := now \<rparr>) r)"

definition fail_job :: "datetime \<Rightarrow> string \<Rightarrow> Job \<Rightarrow> Job" where
  "fail_job now reason j =
     (if settled (j_state j) then j
      else j\<lparr> j_state := JFailed, j_output := Some reason, j_status_reason := Some reason,
              j_updated_at := now, j_completed_at := Some now \<rparr>)"

definition fail_group_jobs :: "datetime \<Rightarrow> uuid \<Rightarrow> string \<Rightarrow> JobGroupRegistry \<Rightarrow> JobGroupRegistry" where
  "fail_group_jobs now gid reason r =
     snd (update_state now gid GFailed (modify_group_jobs gid (map (fail_job now reason)) r))"

definition on_group_completed :: "uuid \<Rightarrow> JobGroupRegistry \<Rightarrow> string option" where
  "on_group_completed gid r =
     (case gr_groups r gid of
        Some g \<Rightarrow> if group_is_terminal (g_state g) then g_reserved_worker_id g else None
      | None \<Rightarrow> None)"

definition can_submit_stage :: "uuid \<Rightarrow> string \<Rightarrow> string list \<Rightarrow> JobGroupRegistry \<Rightarrow> bool" where
  "can_submit_stage gid stage depends_on r =
     (if depends_on = [] then True
      else case gr_group_jobs r gid of
        None \<Rightarrow> False
      | Some js \<Rightarrow>
          list_all (\<lambda>dep. list_ex (\<lambda>j. j_stage_name j = Some dep \<and> j_state j = JSuccess) js) depends_on)"

definition get_parallel_stages :: "uuid \<Rightarrow> JobGroupRegistry \<Rightarrow> string list list" where
  "get_parallel_stages gid r =
     (case gr_group_jobs r gid of
        None \<Rightarrow> []
      | Some js \<Rightarrow> map (\<lambda>j. [j_job_id j]) (filter (\<lambda>j. j_state j = JQueued) js))"

section \<open>The registry as a keyed store\<close>

interpretation groups: keyed_store gr_groups add_group modify_group g_id
  by unfold_locales (simp_all add: add_group_def modify_group_def hm_modify_apply)

lemma groups_modify_jobs [simp]: "gr_groups (modify_group_jobs gid f r) = gr_groups r"
  by (simp add: modify_group_jobs_def)

lemma jobs_modify_group [simp]: "gr_group_jobs (modify_group gid f r) = gr_group_jobs r"
  by (simp add: modify_group_def)

lemma groups_modify_group [simp]:
  "gr_groups (modify_group gid f r) k = (if k = gid then map_option f (gr_groups r gid) else gr_groups r k)"
  by (rule groups.get_modify)

lemma jobs_modify_jobs [simp]:
  "gr_group_jobs (modify_group_jobs gid f r) k =
   (if k = gid then map_option f (gr_group_jobs r gid) else gr_group_jobs r k)"
  by (simp add: modify_group_jobs_def hm_modify_apply)

lemma groups_set_reason [simp]:
  "gr_groups (set_status_reason gid reason r) k =
   (if k = gid then map_option (\<lambda>g. g\<lparr> g_status_reason := Some reason \<rparr>) (gr_groups r gid)
    else gr_groups r k)"
  by (simp add: set_status_reason_def)

lemma jobs_set_reason [simp]: "gr_group_jobs (set_status_reason gid reason r) = gr_group_jobs r"
  by (simp add: set_status_reason_def)

lemma jobs_update_state [simp]: "gr_group_jobs (snd (update_state now gid s r)) = gr_group_jobs r"
  by (simp add: update_state_def split: option.split)

lemma groups_update_state:
  "gr_groups (snd (update_state now gid s r)) k =
   (if k = gid then map_option (\<lambda>g. if valid_transition (g_state g) s then enter_state now s g else g)
                      (gr_groups r gid)
    else gr_groups r k)"
  by (auto simp: update_state_def split: option.split)

lemma enter_state_simps [simp]:
  "g_id (enter_state now s g) = g_id g" "g_state (enter_state now s g) = s"
  "g_reserved_worker_id (enter_state now s g) = g_reserved_worker_id g"
  "g_allocated_resources (enter_state now s g) = g_allocated_resources g"
  by (simp_all add: enter_state_def)

lemma valid_transition_simps [simp]:
  "valid_transition s GCancelled" "valid_transition s GFailed" "valid_transition s GExpired"
  "valid_transition s GReserved \<longleftrightarrow> s = GPending" "valid_transition s GRunning \<longleftrightarrow> s = GReserved"
  "valid_transition s GSuccess \<longleftrightarrow> s = GRunning" "\<not> valid_transition s GPending"
  by (auto simp: valid_transition_def)

section \<open>Histories\<close>

text \<open>One step is one call on the registry.  Handlers also write group fields through
  \<open>get_mut\<close>; \<open>gs_field\<close> stands for those writes, which leave the identity, the state and
  the completion time alone.  The label is the group a call to \<open>add_group\<close> replaces.\<close>

inductive gr_step :: "uuid option \<Rightarrow> JobGroupRegistry \<Rightarrow> JobGroupRegistry \<Rightarrow> bool" where
  gs_add: "\<not> group_is_terminal (g_state g) \<or> g_completed_at g \<noteq> None \<Longrightarrow>
    gr_step (Some (g_id g)) r (add_group g r)"
| gs_touch: "gr_step None r (touch_activity now gid r)"
| gs_update: "gr_step None r (snd (update_state now gid s r))"
| gs_add_job: "gr_step None r (add_job_to_group gid j r)"
| gs_stale: "gr_step None r (snd (gr_mark_stale_jobs_unknown gs now r))"
| gs_report: "gr_step None r (update_job_in_group v5 now gid jid js code r)"
| gs_job: "gr_step None r (get_job_mut_in_group v5 gid jid f r)"
| gs_check: "gr_step None r (snd (check_group_completion now gid r))"
| gs_evict: "gr_step None r (snd (gr_evict_terminal gs now max_age r))"
| gs_migrate: "gr_step None r (migrate_group now gid wid r)"
| gs_fail: "gr_step None r (fail_group_jobs now gid reason r)"
| gs_field: "(\<And>g. g_id (f g) = g_id g \<and> g_state (f g) = g_state g \<and> g_completed_at (f g) = g_completed_at g) \<Longrightarrow>
    gr_step None r (modify_group gid f r)"

text \<open>How one call moves one group: it disappears, or keeps its state, or makes one legal
  transition; and it stays filed under its id with a completion time when terminal.\<close>

definition group_ok :: "uuid \<Rightarrow> JobGroup \<Rightarrow> bool" where
  "group_ok gid g \<longleftrightarrow> g_id g = gid \<and> (group_is_terminal (g_state g) \<longrightarrow> g_completed_at g \<noteq> None)"

definition group_moves :: "uuid \<Rightarrow> JobGroup option \<Rightarrow> JobGroup option \<Rightarrow> bool" where
  "group_moves gid old new \<longleftrightarrow>
     (case new of
        None \<Rightarrow> True
      | Some g' \<Rightarrow> (\<exists>g. old = Some g \<and> (group_ok gid g \<longrightarrow> group_ok gid g') \<and>
                    (g_state g' = g_state g \<or> valid_transition (g_state g) (g_state g'))))"

lemma group_moves_refl [simp]: "group_moves gid old old"
  by (auto simp: group_moves_def split: option.split)

lemma group_moves_None [simp]: "group_moves gid old None"
  by (simp add: group_moves_def)

lemma group_moves_map:
  assumes "\<And>g. group_ok gid g \<Longrightarrow> group_ok gid (f g)"
    and "\<And>g. g_state (f g) = g_state g \<or> valid_transition (g_state g) (g_state (f g))"
  shows "group_moves gid old (map_option f old)"
  using assms by (cases old) (auto simp: group_moves_def)

lemma group_moves_modify:
  assumes "\<And>g. group_ok gid g \<Longrightarrow> group_ok gid (f g)"
    and "\<And>g. g_state (f g) = g_state g \<or> valid_transition (g_state g) (g_state (f g))"
  shows "group_moves k (gr_groups r k) (gr_groups (modify_group gid f r) k)"
  using group_moves_map [OF assms] by simp

lemma group_ok_enter [simp]: "group_ok gid (enter_state now s g) \<longleftrightarrow> g_id g = gid"
  by (auto simp: group_ok_def enter_state_def)

lemma group_ok_reason [simp]: "group_ok gid (g\<lparr> g_status_reason := x \<rparr>) = group_ok gid g"
  by (simp add: group_ok_def)

lemma group_okD: "group_ok gid g \<Longrightarrow> g_id g = gid"
  by (simp add: group_ok_def)

lemma check_completion_shape:
  "snd (check_group_completion now gid r) = r \<or>
   (\<exists>s reason. snd (check_group_completion now gid r) =
      set_status_reason gid reason (snd (update_state now gid s r)))"
  by (simp add: check_group_completion_def Let_def split: option.split) blast

lemma group_moves_reason_update:
  "group_moves k (gr_groups r k) (gr_groups (set_status_reason gid reason (snd (update_state now gid s r))) k)"
  by (auto simp: groups_update_state option.map_comp o_def dest: group_okD intro!: group_moves_map)

lemma fold_evict_apply:
  "gr_groups (fold (\<lambda>gid r. r\<lparr> gr_groups := hm_remove gid (gr_groups r),
                              gr_group_jobs := hm_remove gid (gr_group_jobs r) \<rparr>) ids r) k =
   (if k \<in> set ids then None else gr_groups r k)"
  by (induction ids arbitrary: r) (simp_all add: hm_simps)

lemma gr_step_moves:
  assumes "gr_step l r r'" "l \<noteq> Some k"
  shows "group_moves k (gr_groups r k) (gr_groups r' k)"
  using assms
proof (induction rule: gr_step.induct)
  case (gs_check r now gid)
  then show ?case using check_completion_shape [of now gid r] group_moves_reason_update
    by (metis group_moves_refl)
next
  case gs_evict
  then show ?case by (simp add: gr_evict_terminal_def Let_def fold_evict_apply)
next
  case gs_update
  then show ?case by (auto simp: groups_update_state dest: group_okD intro!: group_moves_map)
next
  case gs_fail
  then show ?case
    by (auto simp: fail_group_jobs_def groups_update_state dest: group_okD intro!: group_moves_map)
next
  case (gs_field f r gid)
  then show ?case by (intro group_moves_modify) (simp_all add: group_ok_def)
next
  case gs_migrate
  then show ?case by (auto simp: migrate_group_def group_ok_def intro!: group_moves_map)
next
  case gs_touch
  then show ?case by (auto simp: touch_activity_def group_ok_def intro!: group_moves_map)
qed (simp_all add: add_group_def add_job_to_group_def gr_mark_stale_jobs_unknown_def Let_def
    update_job_in_group_def get_job_mut_in_group_def)

lemma gr_step_groups_ok:
  assumes "gr_step l r r'" "\<And>k g. gr_groups r k = Some g \<Longrightarrow> group_ok k g" "gr_groups r' k = Some g'"
  shows "group_ok k g'"
proof (cases "l = Some k")
  case True
  with assms(1) show ?thesis
    by (cases rule: gr_step.cases) (use assms(3) in \<open>auto simp: add_group_def group_ok_def\<close>)
next
  case False
  from gr_step_moves [OF assms(1) False] assms(2,3) show ?thesis
    by (auto simp: group_moves_def)
qed

lemma valid_transition_terminal:
  "valid_transition s s' \<Longrightarrow> group_is_terminal s \<Longrightarrow> group_is_terminal s'"
  by (auto simp: valid_transition_def)

section \<open>Properties\<close>

abbreviation gr_steps :: "JobGroupRegistry \<Rightarrow> JobGroupRegistry \<Rightarrow> bool" where
  "gr_steps \<equiv> (\<lambda>r r'. \<exists>l. gr_step l r r')\<^sup>*\<^sup>*"

abbreviation gr_steps_without :: "uuid \<Rightarrow> JobGroupRegistry \<Rightarrow> JobGroupRegistry \<Rightarrow> bool" where
  "gr_steps_without k \<equiv> (\<lambda>r r'. \<exists>l. l \<noteq> Some k \<and> gr_step l r r')\<^sup>*\<^sup>*"


text \<open>C10: A group that has ended stays ended: whatever calls follow, in any order, the
  group is still terminal or has been evicted; and it is \<open>Success\<close> only if it already was,
  since the only way into \<open>Success\<close> is from \<open>Running\<close>.  Only adding a new group under the
  same id starts over.\<close>

theorem terminal_group_stays_terminal:
  assumes "gr_groups r gid = Some g" "group_is_terminal (g_state g)"
    and "gr_steps_without gid r r'"
  shows "case gr_groups r' gid of
           None \<Rightarrow> True
         | Some g' \<Rightarrow> group_is_terminal (g_state g') \<and> (g_state g' = GSuccess \<longrightarrow> g_state g = GSuccess)"
  using assms(3)
proof (induction rule: rtranclp_induct)
  case base
  then show ?case using assms by simp
next
  case (step y z)
  then obtain l where "gr_step l y z" "l \<noteq> Some gid" by blast
  from gr_step_moves [OF this] step.IH show ?case
    by (auto simp: group_moves_def valid_transition_def split: option.splits)
qed

definition sample_group :: "JobGroupState \<Rightarrow> JobGroup" where
  "sample_group s = (JobGroup_new 0 ''g1'' ''repo'' None None)\<lparr> g_state := s, g_reserved_stages := [''build'', ''test''] \<rparr>"

definition stage_job :: "string \<Rightarrow> JobState \<Rightarrow> Job" where
  "stage_job st s = (Job_new 0 (''g1-'' @ st) ''make'' TCommon 1 100 10)\<lparr> j_stage_name := Some st, j_state := s \<rparr>"

definition sample_groups :: "JobGroupState \<Rightarrow> Job list \<Rightarrow> JobGroupRegistry" where
  "sample_groups s js = \<lparr> gr_groups = [''g1'' \<mapsto> sample_group s], gr_group_jobs = [''g1'' \<mapsto> js] \<rparr>"

lemmas sample_group_defs = sample_groups_def sample_group_def stage_job_def JobGroup_new_def Job_new_def


theorem terminal_group_stays_terminal_witness:
  "case gr_groups (snd (update_state 9 ''g1'' GRunning (sample_groups GFailed []))) ''g1'' of
     None \<Rightarrow> False | Some g' \<Rightarrow> group_is_terminal (g_state g')"
proof -
  let ?r = "sample_groups GFailed []"
  have steps: "gr_steps_without ''g1'' ?r (snd (update_state 9 ''g1'' GRunning ?r))"
    by (intro r_into_rtranclp exI [of _ None]) (simp add: gs_update)
  have g: "gr_groups ?r ''g1'' = Some (sample_group GFailed)" "group_is_terminal (g_state (sample_group GFailed))"
    by (simp_all add: sample_group_defs)
  have "gr_groups (snd (update_state 9 ''g1'' GRunning ?r)) ''g1'' \<noteq> None"
    by (simp add: groups_update_state sample_group_defs)
  with terminal_group_stays_terminal [OF g steps] show ?thesis by (auto split: option.splits)
qed

text \<open>C8: Completion of an active group with submitted jobs, on every branch.  It fails
  exactly when a job failed; it is cancelled exactly when none failed and one was
  cancelled; it succeeds exactly when every job is successful or of unknown outcome and
  every reserved stage has a job; otherwise nothing is reported and nothing changes.  A
  reported state that the group may enter is entered, with the completion time.\<close>

theorem check_group_completion_exact:
  assumes "gr_groups r gid = Some g" "\<not> group_is_terminal (g_state g)"
    and "gr_group_jobs r gid = Some js" "js \<noteq> []"
    and "check_group_completion now gid r = (res, r')"
  shows "(res = Some GFailed \<longleftrightarrow> (\<exists>j \<in> set js. j_state j = JFailed))
       \<and> (res = Some GCancelled \<longleftrightarrow>
            (\<forall>j \<in> set js. j_state j \<noteq> JFailed) \<and> (\<exists>j \<in> set js. j_state j = JCancelled))
       \<and> (res = Some GSuccess \<longleftrightarrow>
            (\<forall>j \<in> set js. j_state j \<in> {JSuccess, JUnknown}) \<and>
            (\<forall>st \<in> set (g_reserved_stages g). \<exists>j \<in> set js. j_stage_name j = Some st))
       \<and> (res = None \<longrightarrow> r' = r)
       \<and> (\<forall>s. res = Some s \<longrightarrow> s \<in> {GFailed, GCancelled, GSuccess} \<and>
            (valid_transition (g_state g) s \<longrightarrow>
               (\<exists>g'. gr_groups r' gid = Some g' \<and> g_state g' = s \<and> g_completed_at g' = Some now)))"
proof -
  have no_missing: "missing_stages g js = [] \<longleftrightarrow> (\<forall>st \<in> set (g_reserved_stages g). \<exists>j \<in> set js. j_stage_name j = Some st)"
    by (auto simp: missing_stages_def filter_empty_conv in_set_map_filter)
  have after: "\<exists>g'. gr_groups (set_status_reason gid reason (snd (update_state now gid s r))) gid = Some g'
      \<and> g_state g' = s \<and> g_completed_at g' = Some now"
    if "valid_transition (g_state g) s" "group_is_terminal s" for s reason
    using that assms(1) by (simp add: groups_update_state enter_state_def)
  have calm: "\<not> (\<exists>j \<in> set js. j_state j = JFailed)" "\<not> (\<exists>j \<in> set js. j_state j = JCancelled)"
    "\<forall>j \<in> set js. settled (j_state j)"
    if "\<forall>j \<in> set js. j_state j \<in> {JSuccess, JUnknown}"
    using that by (fastforce simp: settled_def)+
  note chk = check_group_completion_def Let_def list_ex_iff list_all_iff assms(1-4)
  consider (failed) "\<exists>j \<in> set js. j_state j = JFailed"
    | (cancelled) "\<forall>j \<in> set js. j_state j \<noteq> JFailed" "\<exists>j \<in> set js. j_state j = JCancelled"
    | (pending) "\<forall>j \<in> set js. j_state j \<notin> {JFailed, JCancelled}" "\<exists>j \<in> set js. \<not> settled (j_state j)"
    | (missing) "\<forall>j \<in> set js. j_state j \<in> {JSuccess, JUnknown}" "missing_stages g js \<noteq> []"
    | (success) "\<forall>j \<in> set js. j_state j \<in> {JSuccess, JUnknown}" "missing_stages g js = []"
    by (auto simp: settled_def)
  then show ?thesis
  proof cases
    case failed
    then have "res = Some GFailed"
      "r' = set_status_reason gid (failure_reason js) (snd (update_state now gid GFailed r))"
      using assms(5) by (simp_all add: chk)
    moreover have "\<not> (\<forall>j \<in> set js. j_state j \<in> {JSuccess, JUnknown})" using failed by fastforce
    ultimately show ?thesis using failed after by simp
  next
    case cancelled
    then have "res = Some GCancelled"
      "r' = set_status_reason gid ''Cancelled: stage was cancelled'' (snd (update_state now gid GCancelled r))"
      using assms(5) by (simp_all add: chk)
    moreover have "\<not> (\<forall>j \<in> set js. j_state j \<in> {JSuccess, JUnknown})" using cancelled by fastforce
    ultimately show ?thesis using cancelled after by simp
  next
    case pending
    then have "res = None" "r' = r" using assms(5) by (auto simp: chk)
    with pending show ?thesis by (auto simp: settled_def)
  next
    case missing
    have "g_reserved_stages g \<noteq> []" using missing(2) by (auto simp: missing_stages_def)
    then have "res = None" "r' = r" using assms(5) missing(2) calm [OF missing(1)]
      by (simp_all add: chk)
    with missing no_missing calm [OF missing(1)] show ?thesis by simp
  next
    case success
    have "res = Some GSuccess"
      "r' = set_status_reason gid ''All stages completed successfully'' (snd (update_state now gid GSuccess r))"
      using assms(5) success(2) calm [OF success(1)] by (simp_all add: chk)
    with success no_missing after calm [OF success(1)] show ?thesis by simp
  qed
qed

theorem check_group_completion_exact_witness:
  "fst (check_group_completion 9 ''g1'' (sample_groups GRunning [stage_job ''build'' JSuccess])) = None
   \<and> fst (check_group_completion 9 ''g1''
       (sample_groups GRunning [stage_job ''build'' JSuccess, stage_job ''test'' JSuccess])) = Some GSuccess"
proof -
  have one: "fst (check_group_completion 9 ''g1'' (sample_groups GRunning [stage_job ''build'' JSuccess])) = None"
    by (simp add: check_group_completion_def missing_stages_def List.map_filter_simps settled_def sample_group_defs)
  let ?r = "sample_groups GRunning [stage_job ''build'' JSuccess, stage_job ''test'' JSuccess]"
  let ?js = "[stage_job ''build'' JSuccess, stage_job ''test'' JSuccess]"
  have "gr_groups ?r ''g1'' = Some (sample_group GRunning)" "gr_group_jobs ?r ''g1'' = Some ?js"
    and "\<not> group_is_terminal (g_state (sample_group GRunning))" "?js \<noteq> []"
    by (simp_all add: sample_groups_def sample_group_def)
  from check_group_completion_exact [OF this(1,3,2,4) prod.collapse [symmetric]] one show ?thesis
    by (simp add: sample_group_defs)
qed

lemma map_id_hm_values:
  "(\<And>k g. m k = Some g \<Longrightarrow> g_id g = k) \<Longrightarrow> map g_id (hm_values gs m) = filter (\<lambda>k. m k \<noteq> None) gs"
  by (induction gs) (auto split: option.splits)

lemma ids_for_worker:
  assumes "hm_order gs (gr_groups r)" "\<And>k g. gr_groups r k = Some g \<Longrightarrow> g_id g = k"
  shows "distinct (map g_id (get_groups_for_worker gs wid r))"
    and "set (map g_id (get_groups_for_worker gs wid r)) =
         {gid. \<exists>g. gr_groups r gid = Some g \<and> \<not> group_is_terminal (g_state g) \<and> g_reserved_worker_id g = Some wid}"
proof -
  have "distinct (map g_id (hm_values gs (gr_groups r)))"
    using assms map_id_hm_values [of "gr_groups r" gs] by (simp add: hm_order_def)
  then show "distinct (map g_id (get_groups_for_worker gs wid r))"
    by (simp add: get_groups_for_worker_def distinct_map_filter)
  show "set (map g_id (get_groups_for_worker gs wid r)) =
         {gid. \<exists>g. gr_groups r gid = Some g \<and> \<not> group_is_terminal (g_state g) \<and> g_reserved_worker_id g = Some wid}"
    using assms(2) by (force simp: get_groups_for_worker_def set_hm_values_order [OF assms(1)] ran_def)
qed

lemma has_pending_iff:
  "has_pending gid r \<longleftrightarrow> (\<exists>j \<in> set (get_jobs_for_group gid r). j_state j \<in> {JQueued, JAssigned})"
  by (auto simp: has_pending_def get_jobs_for_group_def list_ex_iff split: option.split)

text \<open>C11: When a worker dies, its active groups are split without loss or overlap: each
  active group reserved on that worker, and no other, is listed exactly once, for
  migration when it still has a queued or assigned job and for failure otherwise.\<close>

theorem worker_death_partition:
  assumes "hm_order gs (gr_groups r)" "\<forall>k g. gr_groups r k = Some g \<longrightarrow> g_id g = k"
    and "handle_worker_death gs wid r = (mig, fl)"
  shows "distinct (mig @ fl)
       \<and> set mig \<union> set fl = {gid. \<exists>g. gr_groups r gid = Some g \<and> \<not> group_is_terminal (g_state g)
                                    \<and> g_reserved_worker_id g = Some wid}
       \<and> (\<forall>gid \<in> set mig. \<exists>j \<in> set (get_jobs_for_group gid r). j_state j \<in> {JQueued, JAssigned})
       \<and> (\<forall>gid \<in> set fl. \<forall>j \<in> set (get_jobs_for_group gid r). j_state j \<notin> {JQueued, JAssigned})"
proof -
  let ?ids = "map g_id (get_groups_for_worker gs wid r)"
  note ids = ids_for_worker [OF assms(1), of wid]
  have split: "mig = filter (\<lambda>gid. has_pending gid r) ?ids" "fl = filter (\<lambda>gid. \<not> has_pending gid r) ?ids"
    using assms(3) by (auto simp: handle_worker_death_def Let_def)
  have "distinct (mig @ fl)" using ids(1) assms(2) by (auto simp: split)
  moreover have "set mig \<union> set fl = set ?ids" by (auto simp: split)
  ultimately show ?thesis using ids(2) assms(2) by (auto simp: split has_pending_iff)
qed

text \<open>Failing a group fails all of it: the group ends \<open>Failed\<close> with a completion time,
  every job of it that was still queued, assigned or running becomes \<open>Failed\<close> with the
  reason, jobs that had already settled keep their record, and the order of the jobs
  stays.\<close>

theorem fail_group_jobs_exact:
  assumes "gr_groups r gid = Some g" "gr_group_jobs r gid = Some js"
    and "r' = fail_group_jobs now gid reason r"
  shows "(\<exists>g'. gr_groups r' gid = Some g' \<and> g_state g' = GFailed \<and> g_completed_at g' = Some now)
       \<and> (\<exists>js'. gr_group_jobs r' gid = Some js' \<and> length js' = length js \<and>
            (\<forall>i < length js. settled (j_state (js' ! i)) \<and> j_job_id (js' ! i) = j_job_id (js ! i) \<and>
               (if settled (j_state (js ! i)) then js' ! i = js ! i
                else j_state (js' ! i) = JFailed \<and> j_status_reason (js' ! i) = Some reason)))"
proof -
  have "gr_groups r' gid = Some (enter_state now GFailed g)"
    using assms by (simp add: fail_group_jobs_def groups_update_state)
  moreover have "gr_group_jobs r' gid = Some (map (fail_job now reason) js)"
    using assms by (simp add: fail_group_jobs_def)
  ultimately show ?thesis by (simp add: enter_state_def fail_job_def settled_def)
qed

theorem worker_death_partition_witness:
  "let r = \<lparr> gr_groups = [''g1'' \<mapsto> (sample_group GRunning)\<lparr> g_reserved_worker_id := Some ''w'' \<rparr>],
             gr_group_jobs = [''g1'' \<mapsto> [stage_job ''build'' JQueued]] \<rparr>
   in handle_worker_death [''g1''] ''w'' r = ([''g1''], []) \<and> distinct ([''g1''] @ [])"
proof -
  let ?r = "\<lparr> gr_groups = [''g1'' \<mapsto> (sample_group GRunning)\<lparr> g_reserved_worker_id := Some ''w'' \<rparr>],
              gr_group_jobs = [''g1'' \<mapsto> [stage_job ''build'' JQueued]] \<rparr>"
  have "hm_order [''g1''] (gr_groups ?r)" "\<forall>k g. gr_groups ?r k = Some g \<longrightarrow> g_id g = k"
    and run: "handle_worker_death [''g1''] ''w'' ?r = ([''g1''], [])"
    by (auto simp: hm_order_def handle_worker_death_def get_groups_for_worker_def has_pending_def
        sample_group_defs split: if_splits)
  from worker_death_partition [OF this] run show ?thesis by (simp add: Let_def)
qed

theorem fail_group_jobs_exact_witness:
  "(\<exists>g'. gr_groups (fail_group_jobs 9 ''g1'' ''worker died'' (sample_groups GRunning [stage_job ''build'' JRunning])) ''g1''
        = Some g' \<and> g_state g' = GFailed \<and> g_completed_at g' = Some 9)"
proof -
  let ?r = "sample_groups GRunning [stage_job ''build'' JRunning]"
  have "gr_groups ?r ''g1'' = Some (sample_group GRunning)" "gr_group_jobs ?r ''g1'' = Some [stage_job ''build'' JRunning]"
    by (simp_all add: sample_groups_def)
  from fail_group_jobs_exact [OF this refl] show ?thesis by blast
qed

section \<open>Divergences\<close>

text \<open>The cancel paths call \<open>update_state(Cancelled)\<close> and then \<open>fail_group_jobs\<close>, which
  always moves the group on to \<open>Failed\<close>.\<close>

theorem cancel_then_fail_ends_failed:
  assumes "gr_groups r gid = Some g"
  shows "\<exists>g'. gr_groups (fail_group_jobs now gid reason (snd (update_state now gid GCancelled r))) gid = Some g'
              \<and> g_state g' = GFailed"
  using assms by (simp add: fail_group_jobs_def groups_update_state)

text \<open>A job of unknown outcome does not keep its group from succeeding.\<close>

theorem unknown_job_completes_group:
  "check_group_completion 9 ''g1'' (sample_groups GRunning [stage_job ''build'' JUnknown, stage_job ''test'' JSuccess])
   = (Some GSuccess, set_status_reason ''g1'' ''All stages completed successfully''
        (snd (update_state 9 ''g1'' GSuccess (sample_groups GRunning [stage_job ''build'' JUnknown, stage_job ''test'' JSuccess]))))"
  by (simp add: check_group_completion_def missing_stages_def List.map_filter_simps settled_def sample_group_defs)

end
