(* ===== verification/Sort_By.thy ===== *)
theory Sort_By
  imports F64 Prelude
begin

text \<open>
  The stable sort \<open>slice::sort_by\<close> and the contract of a comparator: on the
  elements it compares it is a total preorder.  The head of a sorted list is then
  least, and so is the first element that passes a test among those that pass it.
\<close>

fun insert_by :: "('a \<Rightarrow> 'a \<Rightarrow> ordering) \<Rightarrow> 'a \<Rightarrow> 'a list \<Rightarrow> 'a list" where
  "insert_by cmp x [] = [x]"
| "insert_by cmp x (y # ys) = (if cmp x y = Greater then y # insert_by cmp x ys else x # y # ys)"

definition sort_by :: "('a \<Rightarrow> 'a \<Rightarrow> ordering) \<Rightarrow> 'a list \<Rightarrow> 'a list" where
  "sort_by cmp xs = foldr (insert_by cmp) xs []"

definition cmp_ord :: "'a::linorder \<Rightarrow> 'a \<Rightarrow> ordering" where
  "cmp_ord a b = (if a < b then Less else if a = b then Equal else Greater)"

fun then_with :: "ordering \<Rightarrow> ordering \<Rightarrow> ordering" where
  "then_with Equal o2 = o2"
| "then_with o1 o2 = o1"

lemma then_with_not_Greater:
  "then_with o1 o2 \<noteq> Greater \<longleftrightarrow> o1 = Less \<or> (o1 = Equal \<and> o2 \<noteq> Greater)"
  by (cases o1) auto

lemma cmp_ord_simps [simp]:
  "cmp_ord a b = Less \<longleftrightarrow> a < b" "cmp_ord a b = Equal \<longleftrightarrow> a = b" "cmp_ord a b = Greater \<longleftrightarrow> b < a"
  by (auto simp: cmp_ord_def)

lemma set_insert_by [simp]: "set (insert_by cmp x xs) = insert x (set xs)"
  by (induction xs) auto

lemma set_sort_by [simp]: "set (sort_by cmp xs) = set xs"
  by (induction xs) (auto simp: sort_by_def)

lemma insert_by_nonempty [simp]: "insert_by cmp x xs \<noteq> []"
  by (cases xs) auto

lemma sort_by_nonempty [simp]: "sort_by cmp xs = [] \<longleftrightarrow> xs = []"
  by (cases xs) (auto simp: sort_by_def)

lemma find_head: "List.find P xs = (case filter P xs of [] \<Rightarrow> None | x # _ \<Rightarrow> Some x)"
  by (induction xs) auto

lemma find_mem: "List.find P xs = Some x \<Longrightarrow> x \<in> set xs \<and> P x"
  by (induction xs) (auto split: if_splits)

locale comparator =
  fixes cmp :: "'a \<Rightarrow> 'a \<Rightarrow> ordering" and V :: "'a set"
  assumes total: "x \<in> V \<Longrightarrow> y \<in> V \<Longrightarrow> cmp x y = Greater \<Longrightarrow> cmp y x \<noteq> Greater"
    and trans: "x \<in> V \<Longrightarrow> y \<in> V \<Longrightarrow> z \<in> V \<Longrightarrow> cmp x y \<noteq> Greater \<Longrightarrow> cmp y z \<noteq> Greater \<Longrightarrow> cmp x z \<noteq> Greater"
    and refl: "x \<in> V \<Longrightarrow> cmp x x \<noteq> Greater"
begin

lemma insert_by_sorted:
  assumes "sorted_wrt (\<lambda>x y. cmp x y \<noteq> Greater) ys" "set ys \<subseteq> V" "x \<in> V"
  shows "sorted_wrt (\<lambda>x y. cmp x y \<noteq> Greater) (insert_by cmp x ys)"
  using assms
proof (induction ys)
  case (Cons y ys)
  show ?case
  proof (cases "cmp x y = Greater")
    case True
    then have "cmp y x \<noteq> Greater" using total Cons.prems by simp
    with True Cons show ?thesis by auto
  next
    case False
    have "cmp x z \<noteq> Greater" if "z \<in> set ys" for z
      using trans [of x y z] that False Cons.prems by auto
    with False Cons.prems show ?thesis by auto
  qed
qed simp

lemma sort_by_sorted: "set xs \<subseteq> V \<Longrightarrow> sorted_wrt (\<lambda>x y. cmp x y \<noteq> Greater) (sort_by cmp xs)"
proof (induction xs)
  case (Cons x xs)
  then have "sorted_wrt (\<lambda>x y. cmp x y \<noteq> Greater) (sort_by cmp xs)" "set (sort_by cmp xs) \<subseteq> V" "x \<in> V" by auto
  from insert_by_sorted [OF this] show ?case by (simp add: sort_by_def)
qed (simp add: sort_by_def)

lemma head_least:
  assumes "set xs \<subseteq> V" "y \<in> set xs"
  shows "cmp (hd (sort_by cmp xs)) y \<noteq> Greater"
proof -
  obtain h t where s: "sort_by cmp xs = h # t"
    using assms(2) by (metis empty_iff list.set(1) neq_Nil_conv sort_by_nonempty)
  then have "y = h \<or> y \<in> set t" using assms(2) by (metis set_ConsD set_sort_by)
  moreover have "h \<in> V" using s assms(1) by (metis list.set_intros(1) set_sort_by subsetD)
  ultimately show ?thesis using sort_by_sorted [OF assms(1)] refl by (auto simp: s)
qed

lemma find_least:
  assumes "set xs \<subseteq> V" "List.find P (sort_by cmp xs) = Some x" "y \<in> set xs" "P y"
  shows "cmp x y \<noteq> Greater"
proof -
  let ?f = "filter P (sort_by cmp xs)"
  obtain t where f: "?f = x # t" using assms(2) by (auto simp: find_head split: list.splits)
  have "x \<in> set ?f" by (simp add: f)
  then have x: "x \<in> V" using assms(1) by auto
  have "y \<in> set ?f" using assms(3,4) by simp
  then have "y = x \<or> y \<in> set t" by (simp add: f)
  moreover have "sorted_wrt (\<lambda>x y. cmp x y \<noteq> Greater) ?f" using sort_by_sorted [OF assms(1)] by (simp add: sorted_wrt_filter)
  ultimately show ?thesis using refl x by (auto simp: f)
qed

end

end
