(* ===== verification/Scheduler.thy ===== *)
theory Scheduler
  imports Worker_State Sort_By
begin

text \<open>
  The best-fit scheduler (\<open>ci-controller/src/scheduler.rs\<close>): filter by memory, disk, CPU,
  job type and labels, sort by load and free memory, then apply the NVMe and branch
  preferences.  \<open>sort_by\<close> is the standard library's stable sort; when a load is NaN the
  comparison is not an order and only the membership results below apply.
\<close>

section \<open>Sorting\<close>

definition list_swap0 :: "nat \<Rightarrow> 'a list \<Rightarrow> 'a list" where
  "list_swap0 pos xs = xs[0 := xs ! pos, pos := xs ! 0]"

fun position :: "('a \<Rightarrow> bool) \<Rightarrow> 'a list \<Rightarrow> nat option" where
  "position P [] = None"
| "position P (x # xs) = (if P x then Some 0 else map_option Suc (position P xs))"

section \<open>The scheduler\<close>

record BestFitScheduler =
  nvme_preference :: bool
  branch_affinity :: bool

definition cpu_ok :: "Job \<Rightarrow> WorkerState \<Rightarrow> bool" where
  "cpu_ok job w =
     (if j_required_cpu job = 0 then True
      else case ws_last_heartbeat w of
        Some hb \<Rightarrow>
          f64_ge (f64_mul (f64_of_u32 (wi_total_cpu (ws_info w)))
                    (f64_sub (Fin 1) (f64_div_pos (hb_used_cpu_percent hb) 100)))
                 (f64_of_u32 (j_required_cpu job))
      | None \<Rightarrow> True)"

definition candidate :: "Job \<Rightarrow> WorkerState \<Rightarrow> bool" where
  "candidate job w \<longleftrightarrow>
     free_memory_mb w \<ge> j_required_memory_mb job \<and>
     free_disk_mb w \<ge> j_required_disk_mb job \<and>
     cpu_ok job w \<and>
     job_type_display (j_job_type job) \<in> set (wi_supported_job_types (ws_info w)) \<and>
     list_all (\<lambda>lbl. lbl \<in> set (wi_labels (ws_info w))) (j_required_labels job)"

definition system_load :: "WorkerState \<Rightarrow> f64" where
  "system_load w = (case ws_last_heartbeat w of Some hb \<Rightarrow> hb_system_load hb | None \<Rightarrow> Fin 0)"

definition cmp_worker :: "WorkerState \<Rightarrow> WorkerState \<Rightarrow> ordering" where
  "cmp_worker a b =
     then_with (case f64_partial_cmp (system_load a) (system_load b) of Some c \<Rightarrow> c | None \<Rightarrow> Equal)
               (cmp_ord (free_memory_mb b) (free_memory_mb a))"

definition has_running_jobs :: "WorkerState \<Rightarrow> bool" where
  "has_running_jobs w =
     (case ws_last_heartbeat w of Some hb \<Rightarrow> hb_running_job_ids hb \<noteq> [] | None \<Rightarrow> False)"

definition apply_branch_affinity :: "Job \<Rightarrow> WorkerState list \<Rightarrow> WorkerState list" where
  "apply_branch_affinity job cands =
     (case j_branch_id job of
        Some b \<Rightarrow>
          if b \<noteq> [] then
            (case position has_running_jobs cands of
               Some pos \<Rightarrow> list_swap0 pos cands
             | None \<Rightarrow> cands)
          else cands
      | None \<Rightarrow> cands)"

definition select_worker :: "BestFitScheduler \<Rightarrow> Job \<Rightarrow> WorkerState list \<Rightarrow> WorkerState option" where
  "select_worker sch job workers =
     (let candidates = filter (candidate job) workers
      in if candidates = [] then None
         else
           let candidates = sort_by cmp_worker candidates;
               nvme = (if nvme_preference sch \<and> j_job_type job = TNix
                       then List.find (\<lambda>w. wi_disk_type (ws_info w) = Nvme) candidates else None)
           in case nvme of
                Some w \<Rightarrow> Some w
              | None \<Rightarrow>
                  (case (if branch_affinity sch then apply_branch_affinity job candidates else candidates) of
                     w # _ \<Rightarrow> Some w | [] \<Rightarrow> None))"

section \<open>Lemmas\<close>

lemma position_Some: "position P xs = Some i \<Longrightarrow> i < length xs \<and> P (xs ! i)"
  by (induction xs arbitrary: i) (auto split: if_splits)

lemma apply_branch_affinity_mem:
  assumes "cands \<noteq> []"
  shows "apply_branch_affinity job cands \<noteq> [] \<and> hd (apply_branch_affinity job cands) \<in> set cands"
proof -
  have "list_swap0 pos cands \<noteq> [] \<and> hd (list_swap0 pos cands) \<in> set cands"
    if "position has_running_jobs cands = Some pos" for pos
  proof -
    have "pos < length cands" using position_Some [OF that] by simp
    moreover have "hd (list_swap0 pos cands) = cands ! pos"
      using assms calculation by (cases cands; cases pos) (auto simp: list_swap0_def)
    ultimately show ?thesis using assms by (simp add: list_swap0_def)
  qed
  then show ?thesis using assms
    by (auto simp: apply_branch_affinity_def split: option.splits)
qed

definition loads_comparable :: "WorkerState list \<Rightarrow> bool" where
  "loads_comparable ws \<longleftrightarrow> (\<forall>w \<in> set ws. system_load w \<noteq> NaN)"

lemma cmp_worker_not_Greater:
  assumes "system_load a \<noteq> NaN" "system_load b \<noteq> NaN"
  shows "cmp_worker a b \<noteq> Greater \<longleftrightarrow>
         f64_partial_cmp (system_load a) (system_load b) = Some Less \<or>
         (system_load a = system_load b \<and> free_memory_mb b \<le> free_memory_mb a)"
proof (cases "f64_partial_cmp (system_load a) (system_load b)")
  case None
  with assms show ?thesis by (simp add: f64_partial_cmp_None)
next
  case (Some c)
  then show ?thesis
    using f64_partial_cmp_Equal [of "system_load a" "system_load b"] assms
    by (cases c) (auto simp: cmp_worker_def cmp_ord_def not_less)
qed

text \<open>On comparable loads the comparison is a total preorder.\<close>

lemma cmp_worker_preorder:
  fixes V defines "V \<equiv> {w. system_load w \<noteq> NaN}"
  shows "x \<in> V \<Longrightarrow> y \<in> V \<Longrightarrow> cmp_worker x y = Greater \<Longrightarrow> cmp_worker y x \<noteq> Greater"
    and "x \<in> V \<Longrightarrow> y \<in> V \<Longrightarrow> z \<in> V \<Longrightarrow> cmp_worker x y \<noteq> Greater \<Longrightarrow>
         cmp_worker y z \<noteq> Greater \<Longrightarrow> cmp_worker x z \<noteq> Greater"
    and "x \<in> V \<Longrightarrow> cmp_worker x x \<noteq> Greater"
proof -
  let ?l = system_load
  have total: "f64_partial_cmp (?l x) (?l y) = Some Less \<or> f64_partial_cmp (?l y) (?l x) = Some Less \<or> ?l x = ?l y"
    if "?l x \<noteq> NaN" "?l y \<noteq> NaN"
    using that by (cases "?l x"; cases "?l y") auto
  show "x \<in> V \<Longrightarrow> y \<in> V \<Longrightarrow> cmp_worker x y = Greater \<Longrightarrow> cmp_worker y x \<noteq> Greater"
    using total cmp_worker_not_Greater [of x y] cmp_worker_not_Greater [of y x]
    by (cases "free_memory_mb x \<le> free_memory_mb y") (auto simp: V_def)
  show "x \<in> V \<Longrightarrow> y \<in> V \<Longrightarrow> z \<in> V \<Longrightarrow> cmp_worker x y \<noteq> Greater \<Longrightarrow>
         cmp_worker y z \<noteq> Greater \<Longrightarrow> cmp_worker x z \<noteq> Greater"
    using cmp_worker_not_Greater [of x y] cmp_worker_not_Greater [of y z] cmp_worker_not_Greater [of x z]
    by (auto simp: V_def dest: f64_partial_cmp_less_trans)
  show "x \<in> V \<Longrightarrow> cmp_worker x x \<noteq> Greater"
    using cmp_worker_not_Greater [of x x] by (simp add: V_def)
qed

interpretation worker_order: comparator cmp_worker "{w. system_load w \<noteq> NaN}"
  by unfold_locales (rule cmp_worker_preorder; assumption)+

section \<open>Properties\<close>

text \<open>C6: The scheduler returns no worker exactly when none of the offered workers fits the
  job, and otherwise one of the offered workers that fits: enough free memory, disk and
  CPU, the job type supported and every required label present, whatever preferences are
  switched on.\<close>

theorem select_worker_sound_complete:
  "case select_worker sch job ws of
     None \<Rightarrow> \<forall>w \<in> set ws. \<not> candidate job w
   | Some w \<Rightarrow> w \<in> set ws \<and> candidate job w"
proof (cases "filter (candidate job) ws = []")
  case True
  then show ?thesis by (simp add: select_worker_def filter_empty_conv)
next
  case False
  define c where "c = sort_by cmp_worker (filter (candidate job) ws)"
  define n where "n = (if nvme_preference sch \<and> j_job_type job = TNix
            then List.find (\<lambda>w. wi_disk_type (ws_info w) = Nvme) c else None)"
  define b where "b = (if branch_affinity sch then apply_branch_affinity job c else c)"
  have mem: "set c = {w \<in> set ws. candidate job w}" and ne: "c \<noteq> []" using False by (auto simp: c_def)
  have b: "b \<noteq> []" "hd b \<in> set c"
    using apply_branch_affinity_mem [OF ne, of job] ne hd_in_set [OF ne] by (simp_all add: b_def)
  have sel: "select_worker sch job ws = (case n of Some w \<Rightarrow> Some w | None \<Rightarrow> (case b of w # _ \<Rightarrow> Some w | [] \<Rightarrow> None))"
    unfolding select_worker_def Let_def c_def [symmetric] n_def [symmetric] b_def [symmetric]
    using False by (simp only: if_False)
  have nvme: "w \<in> set c" if "n = Some w" for w
  proof -
    have "List.find (\<lambda>w. wi_disk_type (ws_info w) = Nvme) c = Some w" using that by (simp add: n_def split: if_splits)
    then obtain i where "i < length c" "c ! i = w" by (auto simp: find_Some_iff)
    then show ?thesis by (metis nth_mem)
  qed
  show ?thesis
  proof (cases n)
    case None
    with b sel mem show ?thesis by (cases b) auto
  next
    case (Some w)
    with nvme sel mem show ?thesis by auto
  qed
qed

text \<open>C7: With both preferences off and all loads comparable, the chosen worker is best:
  no fitting worker has a lower load, nor the same load and more free memory.\<close>

theorem select_worker_best:
  assumes "\<not> nvme_preference sch" "\<not> branch_affinity sch" "loads_comparable ws"
    and "select_worker sch job ws = Some w" "v \<in> set ws" "candidate job v"
  shows "f64_partial_cmp (system_load w) (system_load v) = Some Less
       \<or> (system_load w = system_load v \<and> free_memory_mb v \<le> free_memory_mb w)"
proof -
  let ?c = "filter (candidate job) ws"
  have ne: "?c \<noteq> []" and v: "v \<in> set ?c" using assms(5,6) by (auto simp: filter_empty_conv)
  have w: "w = hd (sort_by cmp_worker ?c)" using assms(1,2,4) ne
    by (auto simp: select_worker_def Let_def split: list.splits)
  have sub: "set ?c \<subseteq> {w. system_load w \<noteq> NaN}" using assms(3) by (auto simp: loads_comparable_def)
  have "cmp_worker w v \<noteq> Greater"
    unfolding w by (rule worker_order.head_least [OF sub v])
  moreover have "w \<in> set ?c" unfolding w using ne
    by (metis set_sort_by list.set_sel(1) sort_by_nonempty)
  ultimately show ?thesis using cmp_worker_not_Greater [of w v] sub v by blast
qed

definition with_load :: "string \<Rightarrow> rat \<Rightarrow> u64 \<Rightarrow> WorkerState" where
  "with_load wid ld used =
     (WorkerState_new 0 (sample_info\<lparr> wi_worker_id := wid \<rparr>))\<lparr> ws_last_heartbeat := Some
        \<lparr> hb_worker_id = wid, hb_used_cpu_percent = Fin 50, hb_used_memory_mb = used, hb_used_disk_mb = 0,
          hb_running_job_ids = [], hb_system_load = Fin ld, hb_timestamp = 0, hb_disk_details = [] \<rparr> \<rparr>"

theorem select_worker_sound_complete_witness:
  "let ws = [with_load ''a'' 2 0]; big = Job_new 0 ''j'' ''make'' TCommon 0 99999 10;
       small = Job_new 0 ''j'' ''make'' TCommon 0 100 10;
       sch = \<lparr> nvme_preference = True, branch_affinity = True \<rparr>
   in select_worker sch big ws = None \<and> \<not> candidate big (with_load ''a'' 2 0)
    \<and> select_worker sch small ws \<noteq> None \<and> candidate small (the (select_worker sch small ws))"
proof -
  let ?ws = "[with_load ''a'' 2 0]"
  let ?big = "Job_new 0 ''j'' ''make'' TCommon 0 99999 10" and ?small = "Job_new 0 ''j'' ''make'' TCommon 0 100 10"
  let ?sch = "\<lparr> nvme_preference = True, branch_affinity = True \<rparr>"
  have "candidate ?small (with_load ''a'' 2 0)" "\<not> candidate ?big (with_load ''a'' 2 0)"
    by (simp_all add: candidate_def cpu_ok_def free_memory_mb_def free_disk_mb_def disk_cap_def Let_def
        with_load_def sample_info_def WorkerState_new_def Job_new_def saturating_sub_def)
  then show ?thesis
    using select_worker_sound_complete [where sch = ?sch and job = ?big and ws = ?ws]
      select_worker_sound_complete [where sch = ?sch and job = ?small and ws = ?ws]
    by (auto simp: Let_def split: option.splits)
qed

theorem select_worker_best_witness:
  "let ws = [with_load ''a'' 2 0, with_load ''b'' 1 0];
       job = Job_new 0 ''j'' ''make'' TCommon 0 100 10;
       sch = \<lparr> nvme_preference = False, branch_affinity = False \<rparr>
   in select_worker sch job ws = Some (with_load ''b'' 1 0)
    \<and> f64_partial_cmp (system_load (with_load ''b'' 1 0)) (system_load (with_load ''a'' 2 0)) = Some Less"
proof -
  let ?ws = "[with_load ''a'' 2 0, with_load ''b'' 1 0]"
  let ?job = "Job_new 0 ''j'' ''make'' TCommon 0 100 10"
  let ?sch = "\<lparr> nvme_preference = False, branch_affinity = False \<rparr>"
  have cand: "candidate ?job (with_load ''a'' 2 0)" "candidate ?job (with_load ''b'' 1 0)"
    by (simp_all add: candidate_def cpu_ok_def free_memory_mb_def free_disk_mb_def disk_cap_def Let_def
        with_load_def sample_info_def WorkerState_new_def Job_new_def saturating_sub_def)
  have load: "system_load (with_load ''a'' 2 0) = Fin 2" "system_load (with_load ''b'' 1 0) = Fin 1"
    by (simp_all add: system_load_def with_load_def)
  have sel: "select_worker ?sch ?job ?ws = Some (with_load ''b'' 1 0)"
    by (simp add: select_worker_def cand sort_by_def cmp_worker_def load)
  have cmp: "loads_comparable ?ws" by (simp add: loads_comparable_def load)
  from select_worker_best [OF _ _ cmp sel _ cand(1)] sel load show ?thesis by (simp add: Let_def)
qed

end
