(* ===== verification/Log_Stream.thy ===== *)
theory Log_Stream
  imports Prelude
begin

text \<open>
  The log stream protocol between a worker and the controller: the chunk message of
  \<open>orchestrator.proto\<close>, contiguous chunk sequences, and the contract of a receiver
  that extends its log by a chunk which starts where the log ends.
\<close>

text \<open>A byte is an Isabelle \<open>char\<close>, an 8-bit value.\<close>

type_synonym bytes = "char list"

record LogChunk =
  lc_worker_id :: string
  lc_job_id :: string
  lc_offset :: u64
  lc_data :: bytes
  lc_timestamp_unix :: int

definition next_offset :: "u64 \<Rightarrow> bytes \<Rightarrow> u64" where
  "next_offset off data = off + of_nat (length data)"

fun contiguous :: "u64 \<Rightarrow> LogChunk list \<Rightarrow> bool" where
  "contiguous off [] = True"
| "contiguous off (c # cs) \<longleftrightarrow> lc_offset c = off \<and> contiguous (next_offset off (lc_data c)) cs"

definition chunks_data :: "LogChunk list \<Rightarrow> bytes" where
  "chunks_data cs = concat (map lc_data cs)"

lemma chunks_data_simps [simp]:
  "chunks_data [] = []" "chunks_data (c # cs) = lc_data c @ chunks_data cs"
  "chunks_data (cs @ ds) = chunks_data cs @ chunks_data ds"
  by (simp_all add: chunks_data_def)

lemma next_offset_append [simp]:
  "next_offset (next_offset off a) b = next_offset off (a @ b)" "next_offset off [] = off"
  by (simp_all add: next_offset_def)

lemma contiguous_append:
  "contiguous off (cs @ ds) \<longleftrightarrow> contiguous off cs \<and> contiguous (next_offset off (chunks_data cs)) ds"
  by (induction cs arbitrary: off) auto

locale log_sink =
  fixes accept :: "LogChunk \<Rightarrow> 's \<Rightarrow> 's"
    and received :: "'s \<Rightarrow> bytes"
    and ready :: "'s \<Rightarrow> bool"
    and limit :: nat
  assumes accept_next:
    "ready s \<Longrightarrow> lc_offset c = of_nat (length (received s)) \<Longrightarrow>
     length (received s) + length (lc_data c) \<le> limit \<Longrightarrow>
     ready (accept c s) \<and> received (accept c s) = received s @ lc_data c"
begin

theorem accept_all:
  "ready s \<Longrightarrow> contiguous (of_nat (length (received s))) cs \<Longrightarrow>
   length (received s) + length (chunks_data cs) \<le> limit \<Longrightarrow>
   ready (fold accept cs s) \<and> received (fold accept cs s) = received s @ chunks_data cs"
proof (induction cs arbitrary: s)
  case (Cons c cs)
  have "ready (accept c s) \<and> received (accept c s) = received s @ lc_data c"
    using Cons.prems by (intro accept_next) simp_all
  moreover from this have "contiguous (of_nat (length (received (accept c s)))) cs"
    using Cons.prems(2) by (simp add: next_offset_def)
  ultimately show ?case using Cons.IH [of "accept c s"] Cons.prems(3) by simp
qed simp

end

end
