(* ===== verification/Log_Aggregator.thy ===== *)
theory Log_Aggregator
  imports Log_Stream
begin

text \<open>
  The controller's log aggregator (\<open>ci-controller/src/log_aggregator.rs\<close>).  The broadcast
  channel of a job is the list of the chunks sent on it; a receiver is its position in
  that list.  The log files form a map from paths to contents; \<open>can_write\<close> says which
  paths the operating system lets the controller append to.
\<close>

section \<open>State\<close>

record LogChunkData =
  cd_worker_id :: string
  cd_offset :: u64
  cd_data :: bytes
  cd_timestamp_unix :: int

record JobLogState =
  jl_last_offset :: u64
  jl_total_bytes :: u64
  jl_complete :: bool
  jl_log_data :: bytes
  jl_broadcast_tx :: "LogChunkData list"
  jl_finalized_at :: "datetime option"

record LogAggregator =
  la_jobs :: "string \<rightharpoonup> JobLogState"
  la_broadcast_capacity :: nat
  la_log_dir :: "string option"
  la_uuid_aliases :: "string \<rightharpoonup> string"
  la_job_log_paths :: "string \<rightharpoonup> string"

type_synonym disk = "string \<rightharpoonup> bytes"

definition MAX_BUFFERED_BYTES_PER_JOB :: nat where
  "MAX_BUFFERED_BYTES_PER_JOB = 50 * 1024 * 1024"

definition LogAggregator_new :: LogAggregator where
  "LogAggregator_new =
     \<lparr> la_jobs = Map.empty, la_broadcast_capacity = 256, la_log_dir = None,
       la_uuid_aliases = Map.empty, la_job_log_paths = Map.empty \<rparr>"

definition with_log_dir :: "string \<Rightarrow> LogAggregator" where
  "with_log_dir dir = LogAggregator_new\<lparr> la_log_dir := Some dir \<rparr>"

definition fresh_log :: JobLogState where
  "fresh_log = \<lparr> jl_last_offset = 0, jl_total_bytes = 0, jl_complete = False, jl_log_data = [],
                 jl_broadcast_tx = [], jl_finalized_at = None \<rparr>"

section \<open>Operations\<close>

definition register_alias :: "string \<Rightarrow> string \<Rightarrow> LogAggregator \<Rightarrow> LogAggregator" where
  "register_alias uid jid a = a\<lparr> la_uuid_aliases := (la_uuid_aliases a)(uid \<mapsto> jid) \<rparr>"

definition register_log_path :: "string \<Rightarrow> string \<Rightarrow> string \<Rightarrow> LogAggregator \<Rightarrow> LogAggregator" where
  "register_log_path jid gid stage a =
     a\<lparr> la_job_log_paths := (la_job_log_paths a)(jid \<mapsto> gid @ ''/'' @ stage @ ''.log'') \<rparr>"

definition resolve_job_id :: "LogAggregator \<Rightarrow> string \<Rightarrow> string" where
  "resolve_job_id a i = (case la_uuid_aliases a i of Some j \<Rightarrow> j | None \<Rightarrow> i)"

definition restart_log :: "u64 \<Rightarrow> JobLogState \<Rightarrow> JobLogState" where
  "restart_log off st = (if off = 0 \<and> jl_last_offset st > 0 then fresh_log else st)"

definition disk_path :: "LogAggregator \<Rightarrow> string \<Rightarrow> string \<Rightarrow> string" where
  "disk_path a dir jid =
     (case la_job_log_paths a jid of
        Some structured \<Rightarrow> dir @ ''/'' @ structured
      | None \<Rightarrow> dir @ ''/'' @ jid @ ''.log'')"

definition append_file :: "(string \<Rightarrow> bool) \<Rightarrow> string \<Rightarrow> bytes \<Rightarrow> disk \<Rightarrow> disk" where
  "append_file can_write path data d =
     (if can_write path
      then d(path \<mapsto> (case d path of Some old \<Rightarrow> old | None \<Rightarrow> []) @ data) else d)"

definition send_chunk :: "LogChunk \<Rightarrow> JobLogState \<Rightarrow> JobLogState" where
  "send_chunk c st =
     st\<lparr> jl_broadcast_tx := jl_broadcast_tx st @
           [\<lparr> cd_worker_id = lc_worker_id c, cd_offset = lc_offset c, cd_data = lc_data c,
              cd_timestamp_unix = lc_timestamp_unix c \<rparr>] \<rparr>"

definition drain_front :: "nat \<Rightarrow> JobLogState \<Rightarrow> JobLogState" where
  "drain_front incoming st =
     (let overflow = length (jl_log_data st) + incoming - MAX_BUFFERED_BYTES_PER_JOB;
          n = min overflow (length (jl_log_data st))
      in st\<lparr> jl_log_data := drop n (jl_log_data st) \<rparr>)"

definition append_chunk ::
  "(string \<Rightarrow> bool) \<Rightarrow> LogChunk \<Rightarrow> LogAggregator \<times> disk \<Rightarrow> u64 \<times> LogAggregator \<times> disk" where
  "append_chunk can_write c s =
     (let (a, d) = s;
          jid = lc_job_id c; off = lc_offset c; data = lc_data c;
          st = restart_log off (case la_jobs a jid of Some st \<Rightarrow> st | None \<Rightarrow> fresh_log);
          put = (\<lambda>st. a\<lparr> la_jobs := (la_jobs a)(jid \<mapsto> st) \<rparr>)
      in
      if off < jl_last_offset st then (jl_last_offset st, put st, d)
      else
        let st = st\<lparr> jl_last_offset := off + of_nat (length data),
                     jl_total_bytes := jl_total_bytes st + of_nat (length data) \<rparr>;
            full = length (jl_log_data st) + length data > MAX_BUFFERED_BYTES_PER_JOB
        in
        if full \<and> la_log_dir a = None
        then (jl_last_offset st, put (send_chunk c st), d)
        else
          let st = (if full then drain_front (length data) st else st);
              st = st\<lparr> jl_log_data := jl_log_data st @ data \<rparr>;
              d = (case la_log_dir a of
                     Some dir \<Rightarrow> append_file can_write (disk_path a dir jid) data d
                   | None \<Rightarrow> d)
          in (jl_last_offset st, put (send_chunk c st), d))"

definition last_offset :: "string \<Rightarrow> LogAggregator \<Rightarrow> u64" where
  "last_offset jid a = (case la_jobs a (resolve_job_id a jid) of Some st \<Rightarrow> jl_last_offset st | None \<Rightarrow> 0)"

definition finalize :: "datetime \<Rightarrow> string \<Rightarrow> LogAggregator \<Rightarrow> LogAggregator" where
  "finalize now jid a =
     a\<lparr> la_jobs := hm_modify jid (\<lambda>st. st\<lparr> jl_complete := True, jl_finalized_at := Some now \<rparr>) (la_jobs a) \<rparr>"

definition is_complete :: "string \<Rightarrow> LogAggregator \<Rightarrow> bool" where
  "is_complete jid a = (case la_jobs a (resolve_job_id a jid) of Some st \<Rightarrow> jl_complete st | None \<Rightarrow> False)"

definition get_log_data :: "string \<Rightarrow> LogAggregator \<Rightarrow> bytes" where
  "get_log_data jid a = (case la_jobs a (resolve_job_id a jid) of Some st \<Rightarrow> jl_log_data st | None \<Rightarrow> [])"

text \<open>\<open>utf8_lossy\<close> is \<open>String::from_utf8_lossy\<close>, \<open>read_text\<close> is \<open>read_to_string\<close> on the log files.\<close>

definition get_log_string ::
  "(bytes \<Rightarrow> string) \<Rightarrow> (string \<Rightarrow> string option) \<Rightarrow> string \<Rightarrow> LogAggregator \<Rightarrow> string" where
  "get_log_string utf8_lossy read_text jid a =
     (let data = get_log_data jid a in
      if data \<noteq> [] then utf8_lossy data
      else case la_log_dir a of
        None \<Rightarrow> []
      | Some dir \<Rightarrow>
          (let i = resolve_job_id a jid;
               structured = (case la_job_log_paths a i of
                               Some p \<Rightarrow> read_text (dir @ ''/'' @ p) | None \<Rightarrow> None)
           in case structured of
                Some t \<Rightarrow> t
              | None \<Rightarrow> (case read_text (dir @ ''/'' @ i @ ''.log'') of Some t \<Rightarrow> t | None \<Rightarrow> [])))"

definition buffered_chunk :: "u64 \<Rightarrow> bytes \<Rightarrow> LogChunkData" where
  "buffered_chunk off data =
     \<lparr> cd_worker_id = [], cd_offset = off, cd_data = data, cd_timestamp_unix = 0 \<rparr>"

definition subscribe ::
  "string \<Rightarrow> u64 \<Rightarrow> LogAggregator \<Rightarrow> (LogChunkData list \<times> nat \<times> bool) \<times> LogAggregator" where
  "subscribe jid from_offset a =
     (let i = resolve_job_id a jid in
      case la_jobs a i of
        Some st \<Rightarrow>
          (let len = length (jl_log_data st);
               actual = (if unat from_offset > len then of_nat len else from_offset);
               buffered =
                 (if actual = 0
                  then (if jl_log_data st \<noteq> [] then [buffered_chunk 0 (jl_log_data st)] else [])
                  else if actual < of_nat len
                  then [buffered_chunk actual (drop (unat actual) (jl_log_data st))]
                  else [])
           in ((buffered, length (jl_broadcast_tx st), jl_complete st), a))
      | None \<Rightarrow> (([], 0, False), a\<lparr> la_jobs := (la_jobs a)(i \<mapsto> fresh_log) \<rparr>))"

definition cleanup_old_logs :: "datetime \<Rightarrow> int \<Rightarrow> LogAggregator \<Rightarrow> LogAggregator" where
  "cleanup_old_logs now max_age_secs a =
     a\<lparr> la_jobs := hm_retain (\<lambda>_ st. \<not> (jl_complete st \<and>
          (case jl_finalized_at st of Some t \<Rightarrow> num_seconds (now - t) > max_age_secs | None \<Rightarrow> False)))
          (la_jobs a) \<rparr>"

section \<open>The aggregator as a log receiver\<close>

text \<open>One job's log: it is in step with its stream when the next expected offset is the
  number of bytes buffered.\<close>

definition job_log :: "string \<Rightarrow> LogAggregator \<Rightarrow> bytes" where
  "job_log jid a = (case la_jobs a jid of Some st \<Rightarrow> jl_log_data st | None \<Rightarrow> [])"

definition in_step :: "string \<Rightarrow> LogAggregator \<Rightarrow> bool" where
  "in_step jid a =
     (case la_jobs a jid of
        Some st \<Rightarrow> jl_last_offset st = of_nat (length (jl_log_data st)) \<and>
                   length (jl_log_data st) \<le> MAX_BUFFERED_BYTES_PER_JOB
      | None \<Rightarrow> True)"

lemma append_chunk_next:
  assumes "in_step (lc_job_id c) a" "lc_offset c = of_nat (length (job_log (lc_job_id c) a))"
    and "length (job_log (lc_job_id c) a) + length (lc_data c) \<le> MAX_BUFFERED_BYTES_PER_JOB"
    and "append_chunk can_write c (a, d) = (off, a', d')"
  shows "job_log (lc_job_id c) a' = job_log (lc_job_id c) a @ lc_data c \<and> in_step (lc_job_id c) a'
       \<and> off = of_nat (length (job_log (lc_job_id c) a'))"
proof -
  let ?j = "lc_job_id c"
  define st where "st = (case la_jobs a ?j of Some st \<Rightarrow> st | None \<Rightarrow> fresh_log)"
  have st: "jl_last_offset st = lc_offset c" "jl_log_data st = job_log ?j a"
    using assms(1,2) by (auto simp: st_def in_step_def job_log_def fresh_log_def split: option.splits)
  have "restart_log (lc_offset c) st = st" using st(1) by (auto simp: restart_log_def)
  then show ?thesis
    using assms(2-4) st unfolding append_chunk_def Let_def split st_def [symmetric]
    by (auto simp: job_log_def in_step_def send_chunk_def split: option.splits)
qed

definition accept_chunk ::
  "(string \<Rightarrow> bool) \<Rightarrow> string \<Rightarrow> LogChunk \<Rightarrow> LogAggregator \<times> disk \<Rightarrow> LogAggregator \<times> disk" where
  "accept_chunk can_write jid c s = snd (append_chunk can_write (c\<lparr> lc_job_id := jid \<rparr>) s)"

interpretation aggregator: log_sink "accept_chunk can_write jid" "\<lambda>s. job_log jid (fst s)"
  "\<lambda>s. in_step jid (fst s)" MAX_BUFFERED_BYTES_PER_JOB for can_write jid
proof unfold_locales
  fix s :: "LogAggregator \<times> disk" and c :: LogChunk
  assume "in_step jid (fst s)" "lc_offset c = of_nat (length (job_log jid (fst s)))"
    "length (job_log jid (fst s)) + length (lc_data c) \<le> MAX_BUFFERED_BYTES_PER_JOB"
  then show "in_step jid (fst (accept_chunk can_write jid c s)) \<and>
    job_log jid (fst (accept_chunk can_write jid c s)) = job_log jid (fst s) @ lc_data c"
    using append_chunk_next [of "c\<lparr> lc_job_id := jid \<rparr>" "fst s" can_write "snd s"]
    by (cases "append_chunk can_write (c\<lparr> lc_job_id := jid \<rparr>) s") (auto simp: accept_chunk_def)
qed

section \<open>Properties\<close>

definition buffers_bounded :: "LogAggregator \<Rightarrow> bool" where
  "buffers_bounded a \<longleftrightarrow> (\<forall>jid. length (job_log jid a) \<le> MAX_BUFFERED_BYTES_PER_JOB)"

lemma restart_log_bounded:
  "length (jl_log_data (restart_log off st)) \<le> length (jl_log_data st)"
  by (simp add: restart_log_def fresh_log_def)

lemma drain_front_bounded:
  assumes "n \<le> MAX_BUFFERED_BYTES_PER_JOB"
  shows "length (jl_log_data (drain_front n st)) + n \<le> MAX_BUFFERED_BYTES_PER_JOB"
  using assms by (auto simp: drain_front_def Let_def min_def)

text \<open>C15: The in-memory log buffer of a job never exceeds 50 MiB: appending a chunk no
  larger than the bound keeps every buffer within it, whether the oldest bytes are
  drained (logs on disk) or the chunk is not buffered (no disk).\<close>

theorem append_chunk_bounded:
  assumes "buffers_bounded a" "length (lc_data c) \<le> MAX_BUFFERED_BYTES_PER_JOB"
    and "append_chunk can_write c (a, d) = (off, a', d')"
  shows "buffers_bounded a'"
proof -
  define st0 where "st0 = (case la_jobs a (lc_job_id c) of Some st \<Rightarrow> st | None \<Rightarrow> fresh_log)"
  define st where "st = restart_log (lc_offset c) st0"
  define st1 where "st1 = st\<lparr> jl_last_offset := lc_offset c + of_nat (length (lc_data c)),
                     jl_total_bytes := jl_total_bytes st + of_nat (length (lc_data c)) \<rparr>"
  have "length (jl_log_data st0) \<le> MAX_BUFFERED_BYTES_PER_JOB"
    using assms(1) by (cases "la_jobs a (lc_job_id c)")
      (simp_all add: st0_def fresh_log_def buffers_bounded_def job_log_def, metis option.simps(5))
  then have st: "length (jl_log_data st) \<le> MAX_BUFFERED_BYTES_PER_JOB"
    unfolding st_def using restart_log_bounded order_trans by blast
  have st1: "jl_log_data st1 = jl_log_data st" by (simp add: st1_def)
  note unfold = assms(3) [unfolded append_chunk_def Let_def split, folded st0_def, folded st_def, folded st1_def]
  have "\<exists>st'. la_jobs a' = (la_jobs a)(lc_job_id c \<mapsto> st') \<and> length (jl_log_data st') \<le> MAX_BUFFERED_BYTES_PER_JOB"
  proof (cases "lc_offset c < jl_last_offset st")
    case True
    with unfold st show ?thesis by auto
  next
    case accepted: False
    show ?thesis
    proof (cases "length (jl_log_data st) + length (lc_data c) > MAX_BUFFERED_BYTES_PER_JOB")
      case True
      with unfold accepted st st1 drain_front_bounded [OF assms(2), of st1] show ?thesis
        by (cases "la_log_dir a") (auto simp: send_chunk_def)
    next
      case False
      with unfold accepted st1 show ?thesis by (auto simp: send_chunk_def)
    qed
  qed
  then show ?thesis using assms(1) by (auto simp: buffers_bounded_def job_log_def)
qed

definition sample_chunk :: "u64 \<Rightarrow> bytes \<Rightarrow> LogChunk" where
  "sample_chunk off data =
     \<lparr> lc_worker_id = ''w1'', lc_job_id = ''j1'', lc_offset = off, lc_data = data, lc_timestamp_unix = 0 \<rparr>"

theorem append_chunk_bounded_witness:
  "buffers_bounded (fst (snd (append_chunk (\<lambda>_. True) (sample_chunk 0 ''hello'') (LogAggregator_new, Map.empty))))"
proof -
  have "buffers_bounded LogAggregator_new"
    by (simp add: buffers_bounded_def job_log_def LogAggregator_new_def)
  moreover have "length (lc_data (sample_chunk 0 ''hello'')) \<le> MAX_BUFFERED_BYTES_PER_JOB"
    by (simp add: sample_chunk_def MAX_BUFFERED_BYTES_PER_JOB_def)
  ultimately show ?thesis using append_chunk_bounded by (metis prod.collapse)
qed

text \<open>Replayed chunks change nothing: a chunk that starts after the beginning of the
  log and before the next expected offset is dropped; the log, the broadcast channel and
  the files stay as they are, and the expected offset is returned.\<close>

theorem append_chunk_duplicate:
  assumes "la_jobs a (lc_job_id c) = Some st" "0 < lc_offset c" "lc_offset c < jl_last_offset st"
  shows "append_chunk can_write c (a, d) = (jl_last_offset st, a, d)"
proof -
  have "restart_log (lc_offset c) st = st" using assms(2) by (auto simp: restart_log_def)
  with assms(1,3) show ?thesis by (simp add: append_chunk_def map_upd_triv Let_def)
qed

theorem append_chunk_duplicate_witness:
  "let a = LogAggregator_new\<lparr> la_jobs := [''j1'' \<mapsto> fresh_log\<lparr> jl_last_offset := 5, jl_log_data := ''hello'' \<rparr>] \<rparr>
   in append_chunk (\<lambda>_. True) (sample_chunk 2 ''llo'') (a, Map.empty) = (5, a, Map.empty)"
proof -
  let ?st = "fresh_log\<lparr> jl_last_offset := 5, jl_log_data := ''hello'' \<rparr>"
  let ?a = "LogAggregator_new\<lparr> la_jobs := [''j1'' \<mapsto> ?st] \<rparr>"
  have "la_jobs ?a (lc_job_id (sample_chunk 2 ''llo'')) = Some ?st" "0 < lc_offset (sample_chunk 2 ''llo'')"
    "lc_offset (sample_chunk 2 ''llo'') < jl_last_offset ?st"
    by (simp_all add: sample_chunk_def)
  from append_chunk_duplicate [OF this] show ?thesis by (simp add: Let_def)
qed

text \<open>A chunk that overlaps the end of the log is dropped whole, so its new bytes are lost;
  and a restart at offset 0 resets the buffer but appends to the old file.\<close>

theorem overlapping_chunk_loses_tail:
  "let a = LogAggregator_new\<lparr> la_jobs := [''j1'' \<mapsto> fresh_log\<lparr> jl_last_offset := 5, jl_log_data := ''hello'' \<rparr>] \<rparr>
   in job_log ''j1'' (fst (snd (append_chunk (\<lambda>_. True) (sample_chunk 2 ''llo world'') (a, Map.empty)))) = ''hello''"
  by (simp add: append_chunk_def restart_log_def sample_chunk_def Let_def job_log_def)

theorem restart_keeps_old_file:
  "let a = (with_log_dir ''/logs'')\<lparr> la_jobs := [''j1'' \<mapsto> fresh_log\<lparr> jl_last_offset := 3, jl_log_data := ''old'' \<rparr>] \<rparr>;
       s = snd (append_chunk (\<lambda>_. True) (sample_chunk 0 ''new'') (a, [''/logs/j1.log'' \<mapsto> ''old'']))
   in job_log ''j1'' (fst s) = ''new'' \<and> snd s ''/logs/j1.log'' = Some ''oldnew''"
  by (simp add: append_chunk_def restart_log_def sample_chunk_def Let_def job_log_def fresh_log_def
      with_log_dir_def LogAggregator_new_def disk_path_def append_file_def send_chunk_def
      MAX_BUFFERED_BYTES_PER_JOB_def)

end
