(* ===== verification/Controller.thy ===== *)
theory Controller
  imports Dag Worker_Registry Job_Registry Job_Group_Registry Scheduler Log_Aggregator
begin

text \<open>
  The shared state of the controller (\<open>state.rs\<close>, \<open>monitoring.rs\<close>), the records its
  handlers exchange (\<open>models/stage.rs\<close>, \<open>storage.rs\<close>, \<open>orchestrator.proto\<close>), and the
  environment they run in.  PostgreSQL and Redis are reached through
  \<open>Storage\<close>, whose fields are the results of the queries a handler makes, and through
  the list of effects, which records in order every write to the database, to Redis
  and to the workers' job streams.  A failed write is only logged by the handlers, so it has
  no further influence.  The environment also holds what the uuid, regex and
  chrono crates compute, and the iteration orders of the hash maps.
\<close>

section \<open>Rows and messages\<close>

record Repo =
  rp_id :: uuid
  rp_repo_name :: string
  rp_repo_url :: string
  rp_default_branch :: string
  rp_enabled :: bool
  rp_max_concurrent_builds :: int
  rp_cancel_superseded :: bool
  rp_global_pre_script :: "string option"
  rp_global_pre_script_scope :: string
  rp_global_post_script :: "string option"
  rp_global_post_script_scope :: string
  rp_global_pre_script_lock_enabled :: bool
  rp_global_pre_script_lock_key :: "string option"
  rp_global_pre_script_lock_timeout_secs :: int
  rp_global_post_script_lock_enabled :: bool
  rp_global_post_script_lock_key :: "string option"
  rp_global_post_script_lock_timeout_secs :: int
  rp_created_at :: datetime
  rp_updated_at :: datetime

record StageConfig =
  sc_id :: uuid
  sc_repo_id :: uuid
  sc_stage_name :: string
  sc_command :: "string option"
  sc_required_cpu :: int
  sc_required_memory_mb :: int
  sc_required_disk_mb :: int
  sc_max_duration_secs :: int
  sc_execution_order :: int
  sc_parallel_group :: "string option"
  sc_allow_worker_migration :: bool
  sc_job_type :: string
  sc_depends_on :: "string list"
  sc_required_labels :: "string list"
  sc_max_retries :: int
  sc_command_mode :: string
  sc_created_at :: datetime
  sc_updated_at :: datetime

record StageScript =
  ss_id :: uuid
  ss_stage_config_id :: uuid
  ss_worker_id :: "string option"
  ss_script_type :: string
  ss_script_scope :: string
  ss_script :: string
  ss_lock_enabled :: bool
  ss_lock_key :: "string option"
  ss_lock_timeout_secs :: int
  ss_created_at :: datetime
  ss_updated_at :: datetime

record PipelineVariable =
  pv_name :: string
  pv_value :: string
  pv_is_secret :: bool

record DbJob =
  dj_id :: uuid
  dj_job_group_id :: uuid
  dj_stage_config_id :: "uuid option"
  dj_stage_name :: string
  dj_command :: string
  dj_pre_script :: "string option"
  dj_post_script :: "string option"
  dj_worker_id :: "string option"
  dj_state :: string
  dj_exit_code :: "int option"
  dj_pre_exit_code :: "int option"
  dj_post_exit_code :: "int option"
  dj_log_path :: "string option"
  dj_started_at :: "datetime option"
  dj_completed_at :: "datetime option"
  dj_retry_count :: int
  dj_status_reason :: "string option"
  dj_created_at :: datetime
  dj_updated_at :: datetime

record ScriptLockConfig =
  lk_enabled :: bool
  lk_lock_key :: string
  lk_timeout_secs :: int
  lk_scope :: string

record CancelDirective =
  cx_job_id :: string
  cx_reason :: string
  cx_signal :: int

record JobAssignment =
  ja_job_id :: string
  ja_command :: string
  ja_job_type :: string
  ja_required_cpu :: u32
  ja_required_memory_mb :: u64
  ja_required_disk_mb :: u64
  ja_isolation_required :: bool
  ja_branch_id :: string
  ja_environment :: "string \<rightharpoonup> string"
  ja_cancel :: "CancelDirective option"
  ja_job_group_id :: string
  ja_stage_name :: string
  ja_pre_script :: string
  ja_post_script :: string
  ja_max_duration_secs :: int
  ja_secret_env_keys :: "string list"
  ja_pre_script_lock :: "ScriptLockConfig option"
  ja_post_script_lock :: "ScriptLockConfig option"
  ja_purge_group_files :: "uuid option"
  ja_group_created_at :: string

record WorkerRow =
  wr_worker_id :: string
  wr_hostname :: "string option"
  wr_total_cpu :: "int option"
  wr_total_memory_mb :: "int option"
  wr_total_disk_mb :: "int option"
  wr_disk_type :: "string option"
  wr_supported_job_types :: "string list option"
  wr_docker_enabled :: bool
  wr_status :: string
  wr_last_heartbeat_at :: "datetime option"
  wr_registered_at :: datetime
  wr_labels :: "string list option"
  wr_system_info :: "string option"
  wr_worker_token_hash :: "string option"
  wr_registration_token_id :: "uuid option"
  wr_approved :: bool
  wr_description :: "string option"
  wr_priority :: int
  wr_max_cpu :: "int option"
  wr_max_memory_mb :: "int option"
  wr_max_disk_mb :: "int option"
  wr_max_cpu_percent :: "int option"
  wr_max_memory_percent :: "int option"
  wr_max_disk_percent :: "int option"

section \<open>Effects\<close>

datatype effect =
    DbCreateGroup JobGroup
  | DbUpdateGroupState uuid JobGroupState "string option"
  | DbCreateJob DbJob
  | DbUpdateJobState uuid string "int option" string
  | DbUpdateJobReason uuid string
  | DbRecordStageResources uuid uuid uuid "int option" int
  | DbCancelJobsForGroup uuid
  | DbUpsertWorker WorkerRow
  | DbIncrementTokenUses uuid
  | DbArchiveGroups "uuid list"
  | DbDeleteArchive "uuid list"
  | DbCleanupOrphanedJobs
  | RemoveGroupDir uuid
  | RedisReserve string uuid u64
  | RedisRelease string uuid
  | RedisReleaseForce string
  | RedisRefreshTtl string uuid u64
  | SendAssignment string JobAssignment
  | SendNotification uuid string uuid "string option" "string option" JobGroupState
  | NotifyWaiters

section \<open>Metrics\<close>

record Metrics =
  m_jobs_submitted :: u64
  m_jobs_completed :: u64
  m_jobs_failed :: u64
  m_jobs_cancelled :: u64
  m_stages_submitted :: u64
  m_worker_reservations :: u64
  m_stage_failures :: u64
  m_active_builds :: int
  m_active_stages :: int
  m_connected_workers :: int

definition Metrics_new :: Metrics where
  "Metrics_new =
     \<lparr> m_jobs_submitted = 0, m_jobs_completed = 0, m_jobs_failed = 0, m_jobs_cancelled = 0, m_stages_submitted = 0,
       m_worker_reservations = 0, m_stage_failures = 0, m_active_builds = 0, m_active_stages = 0,
       m_connected_workers = 0 \<rparr>"

definition inc_jobs_submitted :: "Metrics \<Rightarrow> Metrics" where
  "inc_jobs_submitted m = m\<lparr> m_jobs_submitted := m_jobs_submitted m + 1 \<rparr>"

definition inc_jobs_completed :: "Metrics \<Rightarrow> Metrics" where
  "inc_jobs_completed m = m\<lparr> m_jobs_completed := m_jobs_completed m + 1 \<rparr>"

definition inc_jobs_failed :: "Metrics \<Rightarrow> Metrics" where
  "inc_jobs_failed m = m\<lparr> m_jobs_failed := m_jobs_failed m + 1 \<rparr>"

definition inc_jobs_cancelled :: "Metrics \<Rightarrow> Metrics" where
  "inc_jobs_cancelled m = m\<lparr> m_jobs_cancelled := m_jobs_cancelled m + 1 \<rparr>"

definition inc_stages_submitted :: "Metrics \<Rightarrow> Metrics" where
  "inc_stages_submitted m = m\<lparr> m_stages_submitted := m_stages_submitted m + 1 \<rparr>"

definition inc_worker_reservations :: "Metrics \<Rightarrow> Metrics" where
  "inc_worker_reservations m = m\<lparr> m_worker_reservations := m_worker_reservations m + 1 \<rparr>"

definition inc_stage_failures :: "Metrics \<Rightarrow> Metrics" where
  "inc_stage_failures m = m\<lparr> m_stage_failures := m_stage_failures m + 1 \<rparr>"

definition inc_active_builds :: "Metrics \<Rightarrow> Metrics" where
  "inc_active_builds m = m\<lparr> m_active_builds := m_active_builds m + 1 \<rparr>"

definition dec_active_builds :: "Metrics \<Rightarrow> Metrics" where
  "dec_active_builds m = m\<lparr> m_active_builds := m_active_builds m - 1 \<rparr>"

definition inc_active_stages :: "Metrics \<Rightarrow> Metrics" where
  "inc_active_stages m = m\<lparr> m_active_stages := m_active_stages m + 1 \<rparr>"

definition dec_active_stages :: "Metrics \<Rightarrow> Metrics" where
  "dec_active_stages m = m\<lparr> m_active_stages := m_active_stages m - 1 \<rparr>"

definition set_connected_workers :: "int \<Rightarrow> Metrics \<Rightarrow> Metrics" where
  "set_connected_workers n m = m\<lparr> m_connected_workers := n \<rparr>"

section \<open>Environment\<close>

text \<open>Query results, an error on the left; a count of active groups may depend on the
  writes made so far.\<close>

type_synonym 'a query = "string + 'a"

record Storage =
  st_repo_by_name :: "string \<Rightarrow> Repo option query"
  st_repo :: "uuid \<Rightarrow> Repo option query"
  st_stage_configs :: "uuid \<Rightarrow> StageConfig list query"
  st_stage_config_by_name :: "uuid \<Rightarrow> string \<Rightarrow> StageConfig option query"
  st_stage_dependencies :: "uuid \<Rightarrow> (string \<rightharpoonup> string list) query"
  st_find_by_idempotency_key :: "string \<Rightarrow> JobGroup option query"
  st_branch_blacklist :: "string \<Rightarrow> string list query"
  st_command_blacklist :: "uuid \<Rightarrow> uuid option \<Rightarrow> string list query"
  st_count_active_groups :: "effect list \<Rightarrow> uuid \<Rightarrow> int query"
  st_find_superseded :: "uuid \<Rightarrow> string \<Rightarrow> uuid \<Rightarrow> uuid list query"
  st_variables :: "uuid \<Rightarrow> PipelineVariable list query"
  st_scripts_for_stage :: "uuid \<Rightarrow> string option \<Rightarrow> StageScript list query"
  st_job :: "uuid \<Rightarrow> DbJob option query"
  st_job_group :: "uuid \<Rightarrow> JobGroup option query"
  st_workers_for_group :: "uuid \<Rightarrow> string list query"
  st_config_settings :: "(string \<rightharpoonup> string) query"

record Env =
  env_storage :: "Storage option"
  env_redis :: bool
  env_nvme_preference :: bool
  env_reservation_timeout_secs :: u64
  env_heartbeat_timeout_secs :: u32
  env_regex :: "string \<Rightarrow> (string \<Rightarrow> bool) option"
  env_rfc3339 :: "datetime \<Rightarrow> string"
  env_v5 :: "string \<Rightarrow> string"
  env_parse_uuid :: "string \<Rightarrow> uuid option"
  env_uuid_error :: "string \<Rightarrow> string"
  env_worker_order :: "WorkerRegistry \<Rightarrow> string list"
  env_group_order :: "(uuid \<rightharpoonup> JobGroup) \<Rightarrow> uuid list"
  env_job_order :: "JobRegistry \<Rightarrow> string list"
  env_deps_order :: "deps \<Rightarrow> string list"
  env_degree_order :: "deps \<Rightarrow> string list"

record ControllerState =
  cs_workers :: WorkerRegistry
  cs_jobs :: JobRegistry
  cs_groups :: JobGroupRegistry
  cs_logs :: LogAggregator
  cs_senders :: "string \<rightharpoonup> bool"
  cs_metrics :: Metrics
  cs_effects :: "effect list"

text \<open>A job stream is present with its receiver alive (\<open>True\<close>) or dropped (\<open>False\<close>).\<close>

datatype status_code =
    InvalidArgument | NotFound | FailedPrecondition | AlreadyExists | PermissionDenied
  | ResourceExhausted | Unauthenticated | Internal | Unavailable

datatype Status = Status status_code string

type_synonym 'a handler = "ControllerState \<Rightarrow> (Status + 'a) \<times> ControllerState"

definition emit :: "effect \<Rightarrow> ControllerState \<Rightarrow> ControllerState" where
  "emit e cs = cs\<lparr> cs_effects := cs_effects cs @ [e] \<rparr>"

definition emit_db :: "Env \<Rightarrow> effect \<Rightarrow> ControllerState \<Rightarrow> ControllerState" where
  "emit_db env e cs = (if env_storage env = None then cs else emit e cs)"

definition emit_redis :: "Env \<Rightarrow> effect \<Rightarrow> ControllerState \<Rightarrow> ControllerState" where
  "emit_redis env e cs = (if env_redis env then emit e cs else cs)"

definition send_to :: "string \<Rightarrow> JobAssignment \<Rightarrow> ControllerState \<Rightarrow> ControllerState" where
  "send_to wid a cs = (if cs_senders cs wid = Some True then emit (SendAssignment wid a) cs else cs)"

definition map_workers :: "(WorkerRegistry \<Rightarrow> WorkerRegistry) \<Rightarrow> ControllerState \<Rightarrow> ControllerState" where
  "map_workers f cs = cs\<lparr> cs_workers := f (cs_workers cs) \<rparr>"

definition map_jobs :: "(JobRegistry \<Rightarrow> JobRegistry) \<Rightarrow> ControllerState \<Rightarrow> ControllerState" where
  "map_jobs f cs = cs\<lparr> cs_jobs := f (cs_jobs cs) \<rparr>"

definition map_groups :: "(JobGroupRegistry \<Rightarrow> JobGroupRegistry) \<Rightarrow> ControllerState \<Rightarrow> ControllerState" where
  "map_groups f cs = cs\<lparr> cs_groups := f (cs_groups cs) \<rparr>"

definition map_logs :: "(LogAggregator \<Rightarrow> LogAggregator) \<Rightarrow> ControllerState \<Rightarrow> ControllerState" where
  "map_logs f cs = cs\<lparr> cs_logs := f (cs_logs cs) \<rparr>"

definition map_metrics :: "(Metrics \<Rightarrow> Metrics) \<Rightarrow> ControllerState \<Rightarrow> ControllerState" where
  "map_metrics f cs = cs\<lparr> cs_metrics := f (cs_metrics cs) \<rparr>"

text \<open>What each write leaves alone.\<close>

lemma emit_frame [simp]:
  "cs_workers (emit e cs) = cs_workers cs" "cs_jobs (emit e cs) = cs_jobs cs" "cs_groups (emit e cs) = cs_groups cs"
  "cs_senders (emit e cs) = cs_senders cs" "cs_metrics (emit e cs) = cs_metrics cs" "cs_logs (emit e cs) = cs_logs cs"
  "cs_effects (emit e cs) = cs_effects cs @ [e]"
  by (simp_all add: emit_def)

lemma emit_db_frame [simp]:
  "cs_workers (emit_db env e cs) = cs_workers cs" "cs_jobs (emit_db env e cs) = cs_jobs cs"
  "cs_groups (emit_db env e cs) = cs_groups cs" "cs_senders (emit_db env e cs) = cs_senders cs"
  "cs_metrics (emit_db env e cs) = cs_metrics cs" "cs_logs (emit_db env e cs) = cs_logs cs"
  by (simp_all add: emit_db_def)

lemma emit_redis_frame [simp]:
  "cs_workers (emit_redis env e cs) = cs_workers cs" "cs_jobs (emit_redis env e cs) = cs_jobs cs"
  "cs_groups (emit_redis env e cs) = cs_groups cs" "cs_senders (emit_redis env e cs) = cs_senders cs"
  "cs_metrics (emit_redis env e cs) = cs_metrics cs" "cs_logs (emit_redis env e cs) = cs_logs cs"
  by (simp_all add: emit_redis_def)

lemma send_to_frame [simp]:
  "cs_workers (send_to w a cs) = cs_workers cs" "cs_jobs (send_to w a cs) = cs_jobs cs"
  "cs_groups (send_to w a cs) = cs_groups cs" "cs_senders (send_to w a cs) = cs_senders cs"
  "cs_metrics (send_to w a cs) = cs_metrics cs" "cs_logs (send_to w a cs) = cs_logs cs"
  by (simp_all add: send_to_def)

lemma map_state_frame [simp]:
  "cs_workers (map_workers f cs) = f (cs_workers cs)" "cs_jobs (map_workers f cs) = cs_jobs cs"
  "cs_groups (map_workers f cs) = cs_groups cs" "cs_senders (map_workers f cs) = cs_senders cs"
  "cs_metrics (map_workers f cs) = cs_metrics cs" "cs_effects (map_workers f cs) = cs_effects cs"
  "cs_workers (map_jobs g cs) = cs_workers cs" "cs_jobs (map_jobs g cs) = g (cs_jobs cs)"
  "cs_groups (map_jobs g cs) = cs_groups cs" "cs_senders (map_jobs g cs) = cs_senders cs"
  "cs_metrics (map_jobs g cs) = cs_metrics cs" "cs_effects (map_jobs g cs) = cs_effects cs"
  "cs_workers (map_groups h cs) = cs_workers cs" "cs_jobs (map_groups h cs) = cs_jobs cs"
  "cs_groups (map_groups h cs) = h (cs_groups cs)" "cs_senders (map_groups h cs) = cs_senders cs"
  "cs_metrics (map_groups h cs) = cs_metrics cs" "cs_effects (map_groups h cs) = cs_effects cs"
  "cs_workers (map_logs k cs) = cs_workers cs" "cs_jobs (map_logs k cs) = cs_jobs cs"
  "cs_groups (map_logs k cs) = cs_groups cs" "cs_metrics (map_logs k cs) = cs_metrics cs"
  "cs_senders (map_logs k cs) = cs_senders cs" "cs_effects (map_logs k cs) = cs_effects cs"
  "cs_workers (map_metrics m cs) = cs_workers cs" "cs_jobs (map_metrics m cs) = cs_jobs cs"
  "cs_groups (map_metrics m cs) = cs_groups cs" "cs_senders (map_metrics m cs) = cs_senders cs"
  "cs_metrics (map_metrics m cs) = m (cs_metrics cs)" "cs_effects (map_metrics m cs) = cs_effects cs"
  by (simp_all add: map_workers_def map_jobs_def map_groups_def map_logs_def map_metrics_def)

section \<open>An example\<close>

text \<open>One idle worker with an open stream, no database, Redis present; the witnesses of the
  handlers start from it.\<close>

definition sample_env :: Env where
  "sample_env =
     \<lparr> env_storage = None, env_redis = True, env_nvme_preference = False, env_reservation_timeout_secs = 600,
       env_heartbeat_timeout_secs = 60,
       env_regex = (\<lambda>_. None), env_rfc3339 = (\<lambda>_. ''1970-01-01T00:00:00+00:00''), env_v5 = (\<lambda>s. ''v5-'' @ s),
       env_parse_uuid = Some, env_uuid_error = (\<lambda>_. ''invalid character''), env_worker_order = (\<lambda>_. [''w1'']), env_group_order = (\<lambda>_. [''g1'']),
       env_job_order = (\<lambda>_. [''a'', ''b'']), env_deps_order = (\<lambda>_. []), env_degree_order = (\<lambda>_. []) \<rparr>"

definition sample_cs :: ControllerState where
  "sample_cs =
     \<lparr> cs_workers = [''w1'' \<mapsto> WorkerState_new 0 sample_info], cs_jobs = Map.empty, cs_groups = JobGroupRegistry_new,
       cs_logs = LogAggregator_new, cs_senders = [''w1'' \<mapsto> True], cs_metrics = Metrics_new, cs_effects = [] \<rparr>"

lemma sample_cs_simps [simp]:
  "cs_workers sample_cs = [''w1'' \<mapsto> WorkerState_new 0 sample_info]" "cs_jobs sample_cs = Map.empty"
  "cs_groups sample_cs = JobGroupRegistry_new" "cs_senders sample_cs = [''w1'' \<mapsto> True]" "cs_effects sample_cs = []"
  "env_storage sample_env = None" "env_worker_order sample_env = (\<lambda>_. [''w1''])" "env_group_order sample_env = (\<lambda>_. [''g1''])"
  "env_job_order sample_env = (\<lambda>_. [''a'', ''b''])" "env_parse_uuid sample_env = Some" "env_redis sample_env"
  by (simp_all add: sample_cs_def sample_env_def)

text \<open>A database with one repo of two stages and a blacklisted branch.\<close>

definition sample_repo :: Repo where
  "sample_repo =
     \<lparr> rp_id = ''repo'', rp_repo_name = ''app'', rp_repo_url = ''git'', rp_default_branch = ''main'', rp_enabled = True,
       rp_max_concurrent_builds = 0, rp_cancel_superseded = False, rp_global_pre_script = None,
       rp_global_pre_script_scope = ''worker'', rp_global_post_script = None, rp_global_post_script_scope = ''worker'',
       rp_global_pre_script_lock_enabled = False, rp_global_pre_script_lock_key = None,
       rp_global_pre_script_lock_timeout_secs = 0, rp_global_post_script_lock_enabled = False,
       rp_global_post_script_lock_key = None, rp_global_post_script_lock_timeout_secs = 0,
       rp_created_at = 0, rp_updated_at = 0 \<rparr>"

definition sample_stage :: "string \<Rightarrow> string list \<Rightarrow> StageConfig" where
  "sample_stage name depends_on =
     \<lparr> sc_id = name, sc_repo_id = ''repo'', sc_stage_name = name, sc_command = Some ''make'', sc_required_cpu = 2,
       sc_required_memory_mb = 1000, sc_required_disk_mb = 10, sc_max_duration_secs = 60, sc_execution_order = 0,
       sc_parallel_group = None, sc_allow_worker_migration = False, sc_job_type = ''common'', sc_depends_on = depends_on,
       sc_required_labels = [], sc_max_retries = 0, sc_command_mode = ''fixed'', sc_created_at = 0, sc_updated_at = 0 \<rparr>"

definition sample_storage :: Storage where
  "sample_storage =
     \<lparr> st_repo_by_name = (\<lambda>n. Inr (if n = ''app'' then Some sample_repo else None)),
       st_repo = (\<lambda>_. Inr (Some sample_repo)),
       st_stage_configs = (\<lambda>_. Inr [sample_stage ''build'' [], sample_stage ''test'' [''build'']]),
       st_stage_config_by_name = (\<lambda>_ n. Inr (if n = ''build'' then Some (sample_stage ''build'' [])
          else if n = ''test'' then Some (sample_stage ''test'' [''build'']) else None)),
       st_stage_dependencies = (\<lambda>_. Inr [''build'' \<mapsto> [], ''test'' \<mapsto> [''build'']]),
       st_find_by_idempotency_key = (\<lambda>_. Inr None), st_branch_blacklist = (\<lambda>_. Inr [''bad'']),
       st_command_blacklist = (\<lambda>_ _. Inr [''rm'']), st_count_active_groups = (\<lambda>_ _. Inr 0),
       st_find_superseded = (\<lambda>_ _ _. Inr []), st_variables = (\<lambda>_. Inr []), st_scripts_for_stage = (\<lambda>_ _. Inr []),
       st_job = (\<lambda>_. Inr None), st_job_group = (\<lambda>_. Inr None), st_workers_for_group = (\<lambda>_. Inr [''w1'']),
       st_config_settings = Inr Map.empty \<rparr>"

definition sample_db_env :: Env where
  "sample_db_env = sample_env\<lparr> env_storage := Some sample_storage, env_regex := (\<lambda>p. Some (\<lambda>s. s = p)),
     env_deps_order := (\<lambda>_. [''build'', ''test'']), env_degree_order := (\<lambda>_. [''build'', ''test'']) \<rparr>"

lemma sample_db_env_simps [simp]:
  "env_storage sample_db_env = Some sample_storage" "env_worker_order sample_db_env = (\<lambda>_. [''w1''])"
  "env_group_order sample_db_env = (\<lambda>_. [''g1''])" "env_job_order sample_db_env = (\<lambda>_. [''a'', ''b''])"
  "env_parse_uuid sample_db_env = Some"
  by (simp_all add: sample_db_env_def)

end
