(* ===== verification/Rust_Str.thy ===== *)
theory Rust_Str
  imports Prelude
begin

text \<open>
  What the sources use of \<open>str\<close> and of the integer parsers of Rust's standard library, on
  UTF-8 byte strings: character classes, prefixes, splitting, ASCII case, and \<open>parse\<close> to
  \<open>u64\<close> and \<open>i64\<close>, with the round trip through decimal printing.
\<close>

section \<open>Characters\<close>

definition code :: "char \<Rightarrow> nat" where
  "code c = of_char c"

definition is_digit :: "char \<Rightarrow> bool" where
  "is_digit c \<longleftrightarrow> 48 \<le> code c \<and> code c \<le> 57"

definition lower :: "char \<Rightarrow> char" where
  "lower c = (if 65 \<le> code c \<and> code c \<le> 90 then char_of (code c + 32) else c)"

section \<open>Prefixes and splitting\<close>

definition starts_with :: "string \<Rightarrow> string \<Rightarrow> bool" where
  "starts_with p s \<longleftrightarrow> take (length p) s = p"

definition strip_prefix :: "string \<Rightarrow> string \<Rightarrow> string option" where
  "strip_prefix p s = (if starts_with p s then Some (drop (length p) s) else None)"

definition split_once :: "char \<Rightarrow> string \<Rightarrow> (string \<times> string) option" where
  "split_once c s = (case dropWhile (\<lambda>x. x \<noteq> c) s of [] \<Rightarrow> None | _ # rest \<Rightarrow> Some (takeWhile (\<lambda>x. x \<noteq> c) s, rest))"

text \<open>\<open>split_once\<close> at a substring, and \<open>split\<close> at a character, which never yields the empty list.\<close>

fun split_once_str :: "string \<Rightarrow> string \<Rightarrow> (string \<times> string) option" where
  "split_once_str pat [] = (if pat = [] then Some ([], []) else None)"
| "split_once_str pat (c # cs) =
     (if starts_with pat (c # cs) then Some ([], drop (length pat) (c # cs))
      else map_option (\<lambda>(a, b). (c # a, b)) (split_once_str pat cs))"

fun split_on :: "char \<Rightarrow> string \<Rightarrow> string list" where
  "split_on sep [] = [[]]"
| "split_on sep (c # cs) =
     (case split_on sep cs of
        [] \<Rightarrow> [[c]]
      | w # ws \<Rightarrow> if c = sep then [] # w # ws else (c # w) # ws)"

fun contains_str :: "string \<Rightarrow> string \<Rightarrow> bool" where
  "contains_str pat [] \<longleftrightarrow> pat = []"
| "contains_str pat (c # cs) \<longleftrightarrow> starts_with pat (c # cs) \<or> contains_str pat cs"

text \<open>\<open>trim\<close> on text whose white space is ASCII.\<close>

definition is_blank :: "char \<Rightarrow> bool" where
  "is_blank c \<longleftrightarrow> code c = 32 \<or> (9 \<le> code c \<and> code c \<le> 13)"

definition trim_ascii :: "string \<Rightarrow> string" where
  "trim_ascii s = rev (dropWhile is_blank (rev (dropWhile is_blank s)))"

lemma starts_with_append [simp]: "starts_with p (p @ s)"
  by (simp add: starts_with_def)

lemma strip_prefix_append [simp]: "strip_prefix p (p @ s) = Some s"
  by (simp add: strip_prefix_def)

lemma strip_prefix_same: "strip_prefix (p @ q) (p @ s) = strip_prefix q s"
  by (simp add: strip_prefix_def starts_with_def)

lemma starts_with_shorter: "starts_with (p @ q) s \<Longrightarrow> starts_with p s"
  by (auto simp: starts_with_def dest: arg_cong [where f = "take (length p)"])

lemma split_on_nonempty [simp]: "split_on sep s \<noteq> []"
  by (induction s) (auto split: list.split)

section \<open>Integers\<close>

definition digits_value :: "string \<Rightarrow> nat" where
  "digits_value ds = foldl (\<lambda>n c. 10 * n + (code c - 48)) 0 ds"

definition parse_digits :: "string \<Rightarrow> nat option" where
  "parse_digits ds = (if ds \<noteq> [] \<and> list_all is_digit ds then Some (digits_value ds) else None)"

definition parse_u64 :: "string \<Rightarrow> u64 option" where
  "parse_u64 s =
     (case parse_digits (case s of c # r \<Rightarrow> if c = CHR ''+'' then r else s | [] \<Rightarrow> []) of
        Some n \<Rightarrow> if n < 2 ^ 64 then Some (of_nat n) else None
      | None \<Rightarrow> None)"

definition parse_i64 :: "string \<Rightarrow> int option" where
  "parse_i64 s =
     (case s of
        c # r \<Rightarrow>
          if c = CHR ''-''
          then (case parse_digits r of Some n \<Rightarrow> if n \<le> 2 ^ 63 then Some (- int n) else None | None \<Rightarrow> None)
          else (case parse_digits (if c = CHR ''+'' then r else s) of
                  Some n \<Rightarrow> if n < 2 ^ 63 then Some (int n) else None | None \<Rightarrow> None)
      | [] \<Rightarrow> None)"

definition parse_bool_exact :: "string \<Rightarrow> bool option" where
  "parse_bool_exact s = (if s = ''true'' then Some True else if s = ''false'' then Some False else None)"

definition bool_to_string :: "bool \<Rightarrow> string" where
  "bool_to_string b = (if b then ''true'' else ''false'')"

lemma code_digit: "d < 10 \<Longrightarrow> code (char_of (48 + d)) = 48 + d"
  by (simp add: code_def)

lemma digits_of_dec: "list_all is_digit (nat_to_dec n) \<and> nat_to_dec n \<noteq> [] \<and> digits_value (nat_to_dec n) = n"
proof (induction n rule: nat_to_dec.induct)
  case (1 n)
  show ?case
  proof (cases "n < 10")
    case True
    then show ?thesis by (simp add: nat_to_dec.simps [of n] digits_value_def is_digit_def code_digit)
  next
    case False
    then show ?thesis using 1
      by (simp add: nat_to_dec.simps [of n] digits_value_def is_digit_def code_digit)
  qed
qed

lemma digit_not_sign: "is_digit c \<Longrightarrow> c \<noteq> CHR ''+'' \<and> c \<noteq> CHR ''-''"
  by (auto simp: is_digit_def code_def)

lemma parse_u64_dec [simp]: "parse_u64 (nat_to_dec (unat w)) = Some (w :: u64)"
proof -
  note d = digits_of_dec [of "unat w"]
  obtain c r where cr: "nat_to_dec (unat w) = c # r" using d by (cases "nat_to_dec (unat w)") auto
  then have "c \<noteq> CHR ''+''" using d digit_not_sign [of c] by simp
  moreover have "unat w < 2 ^ 64" using unsigned_less [of w, where 'a = nat] by simp
  ultimately show ?thesis using d by (simp add: parse_u64_def parse_digits_def cr)
qed

lemma parse_bool_exact_to_string [simp]: "parse_bool_exact (bool_to_string b) = Some b"
  by (simp add: parse_bool_exact_def bool_to_string_def)

text \<open>Where the signed parser accepts a number that is not negative, the unsigned one reads the same.\<close>

lemma parse_i64_u64:
  assumes "parse_i64 s = Some n" "0 < n"
  shows "\<exists>w. parse_u64 s = Some w \<and> uint w = n"
proof -
  obtain c r where s: "s = c # r" using assms(1) by (cases s) (auto simp: parse_i64_def)
  have "c \<noteq> CHR ''-''" using assms by (auto simp: parse_i64_def s split: option.splits if_splits)
  then obtain m where m: "parse_digits (if c = CHR ''+'' then r else s) = Some m" "m < 2 ^ 63" "n = int m"
    using assms(1) by (auto simp: parse_i64_def s split: option.splits if_splits)
  then have "parse_u64 s = Some (of_nat m)" by (auto simp: parse_u64_def s split: if_splits)
  moreover have "uint (of_nat m :: u64) = int m" using m(2) by (simp add: unsigned_of_nat take_bit_nat_eq_self)
  ultimately show ?thesis using m(3) by blast
qed

end
