(* ===== verification/Access.thy ===== *)
theory Access
  imports Controller Rust_Str
begin

text \<open>
  Who may call the REST API (\<open>auth/middleware.rs\<close>, \<open>auth/jwt.rs\<close>, \<open>api/auth_handlers.rs\<close>,
  \<open>api/user_handlers.rs\<close>, \<open>csrf.rs\<close>, \<open>rate_limit.rs\<close>, \<open>models/user.rs\<close>).  The tables of users,
  sessions, keys and tokens are state; the hash, password and token libraries are the parameters
  of \<open>Crypto\<close>; \<open>flt\<close> says which storage calls fail, by the name of the storage function.
\<close>

section \<open>Errors\<close>

datatype ApiError =
    BadRequest string | Unauthorized string | Forbidden string | ApiNotFound string
  | Conflict string | ApiInternal string | StorageUnavailable

fun api_response :: "ApiError \<Rightarrow> nat \<times> string" where
  "api_response (BadRequest msg) = (400, msg)"
| "api_response (Unauthorized msg) = (401, msg)"
| "api_response (Forbidden msg) = (403, msg)"
| "api_response (ApiNotFound msg) = (404, msg)"
| "api_response (Conflict msg) = (409, msg)"
| "api_response (ApiInternal msg) = (500, ''Server error. Please try again later.'')"
| "api_response StorageUnavailable = (503, ''Database unavailable'')"

section \<open>Roles and users\<close>

datatype UserRole = SuperAdmin | Admin | Operator | Viewer

definition role_from_db_str :: "string \<Rightarrow> UserRole" where
  "role_from_db_str s =
     (if s = ''super_admin'' then SuperAdmin else if s = ''admin'' then Admin
      else if s = ''operator'' then Operator else Viewer)"

fun role_as_db_str :: "UserRole \<Rightarrow> string" where
  "role_as_db_str SuperAdmin = ''super_admin''"
| "role_as_db_str Admin = ''admin''"
| "role_as_db_str Operator = ''operator''"
| "role_as_db_str Viewer = ''viewer''"

definition can_manage_users :: "UserRole \<Rightarrow> bool" where
  "can_manage_users r \<longleftrightarrow> r = SuperAdmin"

definition can_manage_repos :: "UserRole \<Rightarrow> bool" where
  "can_manage_repos r \<longleftrightarrow> r \<in> {SuperAdmin, Admin}"

definition can_cancel_jobs :: "UserRole \<Rightarrow> bool" where
  "can_cancel_jobs r \<longleftrightarrow> r \<in> {SuperAdmin, Admin}"

definition can_trigger_builds :: "UserRole \<Rightarrow> bool" where
  "can_trigger_builds r \<longleftrightarrow> r \<noteq> Viewer"

definition can_manage_workers :: "UserRole \<Rightarrow> bool" where
  "can_manage_workers r \<longleftrightarrow> r \<in> {SuperAdmin, Admin}"

lemma role_round_trip [simp]: "role_from_db_str (role_as_db_str r) = r"
  by (cases r) (simp_all add: role_from_db_str_def)

record User =
  us_id :: uuid
  us_username :: string
  us_password_hash :: string
  us_display_name :: "string option"
  us_role :: UserRole
  us_active :: bool
  us_created_at :: datetime
  us_updated_at :: datetime

record Session =
  se_user_id :: uuid
  se_token_jti :: string
  se_expires_at :: datetime
  se_revoked :: bool

record ApiKey =
  ak_user_id :: uuid
  ak_key_hash :: string
  ak_revoked :: bool

record DbWorkerToken =
  wt_name :: string
  wt_token_hash :: string
  wt_scope :: string
  wt_active :: bool
  wt_expires_at :: "datetime option"

record AuthDb =
  ad_users :: "User list"
  ad_sessions :: "Session list"
  ad_api_keys :: "ApiKey list"
  ad_worker_tokens :: "DbWorkerToken list"

record Claims =
  cl_sub :: string
  cl_username :: string
  cl_role :: string
  cl_jti :: string
  cl_exp :: int
  cl_iat :: int

record Crypto =
  cy_sha256 :: "string \<Rightarrow> string"
  cy_hash_password :: "string \<Rightarrow> string query"
  cy_verify_password :: "string \<Rightarrow> string \<Rightarrow> bool query"
  cy_encode :: "string \<Rightarrow> Claims \<Rightarrow> string query"
  cy_decode :: "string \<Rightarrow> datetime \<Rightarrow> string \<Rightarrow> Claims query"

text \<open>A token always decodes to the same claims, until it is refused.\<close>

definition decode_stable :: "Crypto \<Rightarrow> bool" where
  "decode_stable cy \<longleftrightarrow> (\<forall>secret t t' tok c c'.
     cy_decode cy secret t tok = Inr c \<longrightarrow> cy_decode cy secret t' tok = Inr c' \<longrightarrow> c' = c)"

section \<open>Storage\<close>

type_synonym faults = "string \<Rightarrow> string option"

definition attempt :: "faults \<Rightarrow> string \<Rightarrow> 'a \<Rightarrow> 'a query" where
  "attempt flt op x = (case flt op of Some e \<Rightarrow> Inl e | None \<Rightarrow> Inr x)"

definition is_session_valid :: "datetime \<Rightarrow> string \<Rightarrow> AuthDb \<Rightarrow> bool" where
  "is_session_valid now jti db \<longleftrightarrow>
     list_ex (\<lambda>s. se_token_jti s = jti \<and> \<not> se_revoked s \<and> now < se_expires_at s) (ad_sessions db)"

definition revoke_session :: "string \<Rightarrow> AuthDb \<Rightarrow> AuthDb" where
  "revoke_session jti db =
     db\<lparr> ad_sessions := map (\<lambda>s. if se_token_jti s = jti \<and> \<not> se_revoked s then s\<lparr> se_revoked := True \<rparr> else s) (ad_sessions db) \<rparr>"

definition create_session :: "uuid \<Rightarrow> string \<Rightarrow> datetime \<Rightarrow> AuthDb \<Rightarrow> AuthDb" where
  "create_session user_id jti expires_at db =
     db\<lparr> ad_sessions := ad_sessions db @
        [\<lparr> se_user_id = user_id, se_token_jti = jti, se_expires_at = expires_at, se_revoked = False \<rparr>] \<rparr>"

definition get_user :: "uuid \<Rightarrow> AuthDb \<Rightarrow> User option" where
  "get_user user_id db = List.find (\<lambda>u. us_id u = user_id) (ad_users db)"

definition get_user_by_username :: "string \<Rightarrow> AuthDb \<Rightarrow> User option" where
  "get_user_by_username username db = List.find (\<lambda>u. us_username u = username) (ad_users db)"

definition update_user_row ::
  "datetime \<Rightarrow> uuid \<Rightarrow> string option \<Rightarrow> UserRole option \<Rightarrow> bool option \<Rightarrow> string option \<Rightarrow> AuthDb \<Rightarrow> AuthDb" where
  "update_user_row now user_id display_name role active password_hash db =
     db\<lparr> ad_users := map (\<lambda>u. if us_id u = user_id
        then u\<lparr> us_display_name := (case display_name of Some d \<Rightarrow> Some d | None \<Rightarrow> us_display_name u),
                us_role := (case role of Some r \<Rightarrow> r | None \<Rightarrow> us_role u),
                us_active := (case active of Some a \<Rightarrow> a | None \<Rightarrow> us_active u),
                us_password_hash := (case password_hash of Some h \<Rightarrow> h | None \<Rightarrow> us_password_hash u),
                us_updated_at := now \<rparr>
        else u) (ad_users db) \<rparr>"

text \<open>The sessions of a deleted user go with it.\<close>

definition delete_user_row :: "uuid \<Rightarrow> AuthDb \<Rightarrow> AuthDb" where
  "delete_user_row user_id db =
     db\<lparr> ad_users := filter (\<lambda>u. us_id u \<noteq> user_id) (ad_users db),
         ad_sessions := filter (\<lambda>s. se_user_id s \<noteq> user_id) (ad_sessions db) \<rparr>"

section \<open>Authentication\<close>

record ApiAuth =
  aa_enabled :: bool
  aa_jwt_secret :: string
  aa_storage :: bool

record AuthUser =
  au_user_id :: uuid
  au_username :: string
  au_role :: UserRole

text \<open>A request as the extractor sees it; header names are lower case.\<close>

record HttpRequest =
  hq_method :: string
  hq_path :: string
  hq_query :: "string option"
  hq_headers :: "string \<rightharpoonup> string"

definition NIL_UUID :: string where
  "NIL_UUID = ''00000000-0000-0000-0000-000000000000''"

text \<open>\<open>HeaderValue::to_str\<close>: visible ASCII and tabs only.\<close>

definition to_str :: "string \<Rightarrow> string option" where
  "to_str v = (if list_all (\<lambda>c. code c = 9 \<or> (32 \<le> code c \<and> code c < 127)) v then Some v else None)"

definition header :: "string \<Rightarrow> HttpRequest \<Rightarrow> string option" where
  "header name req = Option.bind (hq_headers req name) to_str"

type_synonym auth_error = "nat \<times> string"

definition unauthorized :: "string \<Rightarrow> auth_error + 'a" where
  "unauthorized msg = Inl (401, msg)"

definition resolve_runner_token :: "Crypto \<Rightarrow> ApiAuth \<Rightarrow> faults \<Rightarrow> datetime \<Rightarrow> string \<Rightarrow> AuthDb \<Rightarrow> auth_error + AuthUser" where
  "resolve_runner_token cy cfg flt now raw_key db =
     (if \<not> aa_storage cfg then unauthorized ''Storage unavailable''
      else case attempt flt ''get_worker_token_by_hash''
                  (List.find (\<lambda>t. wt_token_hash t = cy_sha256 cy raw_key) (ad_worker_tokens db)) of
        Inl _ \<Rightarrow> Inl (500, ''Token lookup failed'')
      | Inr None \<Rightarrow> unauthorized ''Invalid runner token''
      | Inr (Some t) \<Rightarrow>
          if \<not> wt_active t then unauthorized ''Runner token is inactive''
          else if wt_scope t \<noteq> ''runner'' then unauthorized ''Invalid runner token''
          else if (case wt_expires_at t of Some e \<Rightarrow> e < now | None \<Rightarrow> False) then unauthorized ''Runner token has expired''
          else Inr \<lparr> au_user_id = NIL_UUID, au_username = ''runner:'' @ wt_name t, au_role = Operator \<rparr>)"

definition resolve_api_key :: "Crypto \<Rightarrow> ApiAuth \<Rightarrow> faults \<Rightarrow> string \<Rightarrow> AuthDb \<Rightarrow> auth_error + AuthUser" where
  "resolve_api_key cy cfg flt raw_key db =
     (if \<not> aa_storage cfg then unauthorized ''Storage unavailable''
      else case attempt flt ''get_api_key_by_hash''
                  (List.find (\<lambda>k. ak_key_hash k = cy_sha256 cy raw_key \<and> \<not> ak_revoked k) (ad_api_keys db)) of
        Inl _ \<Rightarrow> Inl (500, ''Key lookup failed'')
      | Inr None \<Rightarrow> unauthorized ''Invalid API key''
      | Inr (Some k) \<Rightarrow>
          (case attempt flt ''get_user'' (get_user (ak_user_id k) db) of
             Inl _ \<Rightarrow> Inl (500, ''User lookup failed'')
           | Inr None \<Rightarrow> unauthorized ''API key owner not found''
           | Inr (Some u) \<Rightarrow>
               if \<not> us_active u then unauthorized ''Account is disabled''
               else Inr \<lparr> au_user_id = us_id u, au_username = us_username u, au_role = us_role u \<rparr>))"

definition resolve_jwt ::
  "Crypto \<Rightarrow> (string \<Rightarrow> uuid option) \<Rightarrow> ApiAuth \<Rightarrow> faults \<Rightarrow> datetime \<Rightarrow> string \<Rightarrow> AuthDb \<Rightarrow> auth_error + AuthUser" where
  "resolve_jwt cy parse_uuid cfg flt now token db =
     (case cy_decode cy (aa_jwt_secret cfg) now token of
        Inl e \<Rightarrow> unauthorized (''Invalid token: '' @ e)
      | Inr claims \<Rightarrow>
          if aa_storage cfg \<and> (case attempt flt ''is_session_valid'' (is_session_valid now (cl_jti claims) db) of
                                 Inl _ \<Rightarrow> True | Inr valid \<Rightarrow> \<not> valid)
          then unauthorized ''Session revoked or expired''
          else case parse_uuid (cl_sub claims) of
                 None \<Rightarrow> unauthorized ''Invalid user ID in token''
               | Some user_id \<Rightarrow>
                   Inr \<lparr> au_user_id = user_id, au_username = cl_username claims, au_role = role_from_db_str (cl_role claims) \<rparr>)"

definition query_token :: "HttpRequest \<Rightarrow> string option" where
  "query_token req =
     Option.bind (hq_query req) (\<lambda>q.
       case List.map_filter (strip_prefix ''token='') (split_on (CHR 0x26) q) of t # _ \<Rightarrow> Some t | [] \<Rightarrow> None)"

definition from_request_parts ::
  "Crypto \<Rightarrow> (string \<Rightarrow> uuid option) \<Rightarrow> ApiAuth \<Rightarrow> faults \<Rightarrow> datetime \<Rightarrow> HttpRequest \<Rightarrow> AuthDb \<Rightarrow> auth_error + AuthUser" where
  "from_request_parts cy parse_uuid cfg flt now req db =
     (if \<not> aa_enabled cfg
      then Inr \<lparr> au_user_id = NIL_UUID, au_username = ''anonymous'', au_role = SuperAdmin \<rparr>
      else case header ''x-api-key'' req of
        Some raw_key \<Rightarrow>
          if starts_with ''chola_svc_'' raw_key then resolve_runner_token cy cfg flt now raw_key db
          else resolve_api_key cy cfg flt raw_key db
      | None \<Rightarrow>
          (case (case header ''authorization'' req of
                   Some h \<Rightarrow> Some h | None \<Rightarrow> map_option (\<lambda>t. ''Bearer '' @ t) (query_token req)) of
             None \<Rightarrow> unauthorized ''Missing Authorization header''
           | Some auth_header \<Rightarrow>
               (case strip_prefix ''Bearer chola_svc_'' auth_header of
                  Some rest \<Rightarrow> resolve_runner_token cy cfg flt now (''chola_svc_'' @ rest) db
                | None \<Rightarrow>
                    (case strip_prefix ''Bearer chola_'' auth_header of
                       Some raw_key \<Rightarrow> resolve_api_key cy cfg flt (''chola_'' @ raw_key) db
                     | None \<Rightarrow>
                         (case strip_prefix ''Bearer '' auth_header of
                            None \<Rightarrow> unauthorized ''Invalid Authorization header format''
                          | Some token \<Rightarrow> resolve_jwt cy parse_uuid cfg flt now token db)))))"

section \<open>Sessions\<close>

type_synonym 'a api = "AuthDb \<Rightarrow> (ApiError + 'a) \<times> AuthDb"

definition fallible :: "'a query \<Rightarrow> ApiError + 'a" where
  "fallible q = map_sum ApiInternal id q"

definition claims_of :: "datetime \<Rightarrow> string \<Rightarrow> u64 \<Rightarrow> User \<Rightarrow> Claims" where
  "claims_of now jti expiry_secs u =
     \<lparr> cl_sub = us_id u, cl_username = us_username u, cl_role = role_as_db_str (us_role u), cl_jti = jti,
       cl_exp = now div nanos_per_sec + uint expiry_secs, cl_iat = now div nanos_per_sec \<rparr>"

text \<open>\<open>jti\<close> is the fresh token id.\<close>

definition encode_token :: "Crypto \<Rightarrow> string \<Rightarrow> datetime \<Rightarrow> string \<Rightarrow> u64 \<Rightarrow> User \<Rightarrow> (string \<times> string) query" where
  "encode_token cy secret now jti expiry_secs u =
     map_sum id (\<lambda>token. (token, jti)) (cy_encode cy secret (claims_of now jti expiry_secs u))"

definition login ::
  "Crypto \<Rightarrow> ApiAuth \<Rightarrow> faults \<Rightarrow> datetime \<Rightarrow> string \<Rightarrow> u64 \<Rightarrow> string \<Rightarrow> string \<Rightarrow> (string \<times> datetime \<times> User) api" where
  "login cy cfg flt now jti jwt_expiry username password db =
     (if \<not> aa_storage cfg then (Inl StorageUnavailable, db)
      else case attempt flt ''get_user_by_username'' (get_user_by_username username db) of
        Inl e \<Rightarrow> (Inl (ApiInternal e), db)
      | Inr None \<Rightarrow> (Inl (Unauthorized ''Invalid credentials''), db)
      | Inr (Some u) \<Rightarrow>
          if \<not> us_active u then (Inl (Unauthorized ''Account is disabled''), db)
          else case cy_verify_password cy password (us_password_hash u) of
            Inl e \<Rightarrow> (Inl (ApiInternal e), db)
          | Inr False \<Rightarrow> (Inl (Unauthorized ''Invalid credentials''), db)
          | Inr True \<Rightarrow>
              (case encode_token cy (aa_jwt_secret cfg) now jti jwt_expiry u of
                 Inl e \<Rightarrow> (Inl (ApiInternal e), db)
               | Inr (token, jti) \<Rightarrow>
                   (let expires_at = now + sint jwt_expiry * nanos_per_sec
                    in case flt ''create_session'' of
                         Some _ \<Rightarrow> (Inl (ApiInternal ''Failed to create session''), db)
                       | None \<Rightarrow> (Inr (token, expires_at, u), create_session (us_id u) jti expires_at db))))"

definition logout :: "Crypto \<Rightarrow> ApiAuth \<Rightarrow> faults \<Rightarrow> datetime \<Rightarrow> HttpRequest \<Rightarrow> AuthDb \<Rightarrow> AuthDb" where
  "logout cy cfg flt now req db =
     (if \<not> aa_storage cfg then db
      else case Option.bind (header ''authorization'' req) (strip_prefix ''Bearer '') of
        None \<Rightarrow> db
      | Some token \<Rightarrow>
          (case cy_decode cy (aa_jwt_secret cfg) now token of
             Inl _ \<Rightarrow> db
           | Inr claims \<Rightarrow> (case flt ''revoke_session'' of Some _ \<Rightarrow> db | None \<Rightarrow> revoke_session (cl_jti claims) db)))"

section \<open>Users\<close>

definition validate_string :: "string \<Rightarrow> string \<Rightarrow> nat \<Rightarrow> ApiError + unit" where
  "validate_string field v max_len =
     (if v = [] then Inl (BadRequest (field @ '' cannot be empty''))
      else if length v > max_len then Inl (BadRequest (field @ '' exceeds max length of '' @ nat_to_dec max_len))
      else Inr ())"

text \<open>\<open>uni = (upper, numeric)\<close> says whether a text holds an upper-case letter and a numeric character
  in the sense of Unicode.\<close>

type_synonym unicode = "(string \<Rightarrow> bool) \<times> (string \<Rightarrow> bool)"

definition validate_password :: "unicode \<Rightarrow> string \<Rightarrow> ApiError + unit" where
  "validate_password uni password =
     (if length password < 8 then Inl (BadRequest ''Password must be at least 8 characters'')
      else if \<not> fst uni password then Inl (BadRequest ''Password must contain an uppercase letter'')
      else if \<not> snd uni password then Inl (BadRequest ''Password must contain a number'')
      else Inr ())"

definition change_password ::
  "Crypto \<Rightarrow> unicode \<Rightarrow> ApiAuth \<Rightarrow> faults \<Rightarrow> datetime \<Rightarrow> AuthUser \<Rightarrow> string \<Rightarrow> string \<Rightarrow> unit api" where
  "change_password cy uni cfg flt now me current_password new_password db =
     (if \<not> aa_storage cfg then (Inl StorageUnavailable, db)
      else
        let checked = and_then (fallible (attempt flt ''get_user'' (get_user (au_user_id me) db))) (\<lambda>found.
              case found of
                None \<Rightarrow> Inl (ApiNotFound ''User not found'')
              | Some u \<Rightarrow>
                  and_then (fallible (cy_verify_password cy current_password (us_password_hash u))) (\<lambda>valid.
                    if \<not> valid then Inl (Unauthorized ''Current password is incorrect'')
                    else and_then (validate_password uni new_password) (\<lambda>_.
                      and_then (fallible (cy_hash_password cy new_password)) (\<lambda>hash.
                        fallible (attempt flt ''update_user_password'' hash)))))
        in case checked of
             Inl e \<Rightarrow> (Inl e, db)
           | Inr hash \<Rightarrow> (Inr (), update_user_row now (au_user_id me) None None None (Some hash) db))"

record CreateUserRequest =
  cu_username :: string
  cu_password :: string
  cu_display_name :: "string option"
  cu_role :: string

definition valid_role :: "string \<Rightarrow> bool" where
  "valid_role r \<longleftrightarrow> r \<in> {''super_admin'', ''admin'', ''operator'', ''viewer''}"

text \<open>The table refuses a taken username and an unknown role.\<close>

definition create_user ::
  "Crypto \<Rightarrow> unicode \<Rightarrow> ApiAuth \<Rightarrow> faults \<Rightarrow> datetime \<Rightarrow> uuid \<Rightarrow> AuthUser \<Rightarrow> CreateUserRequest \<Rightarrow> User api" where
  "create_user cy uni cfg flt now new_id me body db =
     (let checked =
            (if \<not> can_manage_users (au_role me) then Inl (Forbidden ''Insufficient permissions'')
             else and_then (validate_string ''username'' (cu_username body) 100) (\<lambda>_.
                  and_then (case cu_display_name body of Some dn \<Rightarrow> validate_string ''display_name'' dn 255 | None \<Rightarrow> Inr ()) (\<lambda>_.
                  if \<not> aa_storage cfg then Inl StorageUnavailable
                  else and_then (validate_password uni (cu_password body)) (\<lambda>_.
                       and_then (fallible (cy_hash_password cy (cu_password body))) (\<lambda>hash.
                       if get_user_by_username (cu_username body) db \<noteq> None \<or> \<not> valid_role (cu_role body)
                       then Inl (ApiInternal ''constraint'')
                       else fallible (attempt flt ''create_user'' hash))))))
      in case checked of
           Inl e \<Rightarrow> (Inl e, db)
         | Inr hash \<Rightarrow>
             (let u = \<lparr> us_id = new_id, us_username = cu_username body, us_password_hash = hash,
                        us_display_name = cu_display_name body, us_role = role_from_db_str (cu_role body), us_active = True,
                        us_created_at = now, us_updated_at = now \<rparr>
              in (Inr u, db\<lparr> ad_users := ad_users db @ [u] \<rparr>)))"

record UpdateUserRequest =
  uu_display_name :: "string option"
  uu_role :: "string option"
  uu_active :: "bool option"
  uu_password :: "string option"

definition update_user ::
  "Crypto \<Rightarrow> unicode \<Rightarrow> ApiAuth \<Rightarrow> faults \<Rightarrow> datetime \<Rightarrow> AuthUser \<Rightarrow> uuid \<Rightarrow> UpdateUserRequest \<Rightarrow> User api" where
  "update_user cy uni cfg flt now me user_id body db =
     (let checked =
            (if \<not> can_manage_users (au_role me) then Inl (Forbidden ''Insufficient permissions'')
             else and_then (case uu_display_name body of Some dn \<Rightarrow> validate_string ''display_name'' dn 255 | None \<Rightarrow> Inr ()) (\<lambda>_.
                  if \<not> aa_storage cfg then Inl StorageUnavailable
                  else and_then (case uu_password body of
                                   Some pw \<Rightarrow> and_then (validate_password uni pw) (\<lambda>_.
                                                map_sum id Some (fallible (cy_hash_password cy pw)))
                                 | None \<Rightarrow> Inr None) (\<lambda>hash.
                       if get_user user_id db \<noteq> None \<and> (case uu_role body of Some r \<Rightarrow> \<not> valid_role r | None \<Rightarrow> False)
                       then Inl (ApiInternal ''constraint'')
                       else fallible (attempt flt ''update_user'' hash))))
      in case checked of
           Inl e \<Rightarrow> (Inl e, db)
         | Inr hash \<Rightarrow>
             (let db' = update_user_row now user_id (uu_display_name body) (map_option role_from_db_str (uu_role body))
                          (uu_active body) hash db
              in case get_user user_id db' of
                   Some u \<Rightarrow> (Inr u, db')
                 | None \<Rightarrow> (Inl (ApiNotFound ''User not found''), db')))"

definition reset_password ::
  "Crypto \<Rightarrow> unicode \<Rightarrow> ApiAuth \<Rightarrow> faults \<Rightarrow> datetime \<Rightarrow> AuthUser \<Rightarrow> uuid \<Rightarrow> string \<Rightarrow> unit api" where
  "reset_password cy uni cfg flt now me user_id new_password db =
     (let checked =
            (if \<not> can_manage_users (au_role me) then Inl (Forbidden ''Super admin only'')
             else and_then (validate_password uni new_password) (\<lambda>_.
                  if \<not> aa_storage cfg then Inl StorageUnavailable
                  else and_then (fallible (cy_hash_password cy new_password)) (\<lambda>hash.
                       fallible (attempt flt ''update_user_password'' hash))))
      in case checked of
           Inl e \<Rightarrow> (Inl e, db)
         | Inr hash \<Rightarrow>
             if get_user user_id db = None then (Inl (ApiNotFound ''User not found''), db)
             else (Inr (), update_user_row now user_id None None None (Some hash) db))"

definition delete_user :: "ApiAuth \<Rightarrow> faults \<Rightarrow> AuthUser \<Rightarrow> uuid \<Rightarrow> unit api" where
  "delete_user cfg flt me user_id db =
     (if \<not> can_manage_users (au_role me) then (Inl (Forbidden ''Insufficient permissions''), db)
      else if \<not> aa_storage cfg then (Inl StorageUnavailable, db)
      else case flt ''delete_user'' of
        Some e \<Rightarrow> (Inl (ApiInternal e), db)
      | None \<Rightarrow>
          if get_user user_id db = None then (Inl (ApiNotFound ''User not found''), db)
          else (Inr (), delete_user_row user_id db))"

section \<open>Rate limiting\<close>

text \<open>The state of one address; \<open>now\<close> is a reading of the monotonic clock.\<close>

definition check_rate :: "u32 \<Rightarrow> int \<Rightarrow> int \<Rightarrow> (u32 \<times> int) option \<Rightarrow> bool \<times> (u32 \<times> int)" where
  "check_rate max_requests window now entry =
     (let (n, start) = (case entry of Some e \<Rightarrow> e | None \<Rightarrow> (0, now))
      in if now - start \<ge> window then (True, (1, now))
         else if n < max_requests then (True, (n + 1, start))
         else (False, (n, start)))"

definition check :: "u32 \<Rightarrow> int \<Rightarrow> int \<Rightarrow> string \<Rightarrow> (string \<rightharpoonup> u32 \<times> int) \<Rightarrow> bool \<times> (string \<rightharpoonup> u32 \<times> int)" where
  "check max_requests window now ip m =
     (let (ok, e) = check_rate max_requests window now (m ip) in (ok, m(ip \<mapsto> e)))"

text \<open>\<open>peer\<close> is the address of the connection, when the server records it, and \<open>parse_ip\<close> the parser of
  addresses.\<close>

definition extract_ip :: "(string \<Rightarrow> string option) \<Rightarrow> string option \<Rightarrow> HttpRequest \<Rightarrow> string" where
  "extract_ip parse_ip peer req =
     (case peer of
        Some ip \<Rightarrow> ip
      | None \<Rightarrow>
          (case Option.bind (header ''x-forwarded-for'' req) (\<lambda>s. parse_ip (trim_ascii (hd (split_on (CHR '','') s)))) of
             Some ip \<Rightarrow> ip | None \<Rightarrow> ''0.0.0.0''))"

fun run_checks :: "u32 \<Rightarrow> int \<Rightarrow> (int \<times> string) list \<Rightarrow> (string \<rightharpoonup> u32 \<times> int) \<Rightarrow> (int \<times> string \<times> bool) list" where
  "run_checks max_requests window [] m = []"
| "run_checks max_requests window ((now, ip) # reqs) m =
     (let (ok, m') = check max_requests window now ip m in (now, ip, ok) # run_checks max_requests window reqs m')"

section \<open>Cross-site requests\<close>

definition origin_allowed :: "string \<Rightarrow> HttpRequest \<Rightarrow> string list \<Rightarrow> bool" where
  "origin_allowed origin req allowed \<longleftrightarrow>
     origin \<in> set allowed
     \<or> (let origin_host = (case split_once_str ''://'' origin of Some (_, h) \<Rightarrow> h | None \<Rightarrow> origin);
            raw = (case hq_headers req ''x-forwarded-host'' of Some h \<Rightarrow> Some h | None \<Rightarrow> hq_headers req ''host'');
            req_host = (case Option.bind raw to_str of
                          Some h \<Rightarrow> trim_ascii (hd (split_on (CHR '','') h)) | None \<Rightarrow> [])
        in req_host \<noteq> [] \<and> map lower origin_host = map lower req_host)"

definition csrf_middleware :: "string list \<Rightarrow> HttpRequest \<Rightarrow> bool" where
  "csrf_middleware allowed req \<longleftrightarrow>
     (let is_mutating = hq_method req \<in> {''POST'', ''PUT'', ''DELETE''};
          is_webhook = starts_with ''/api/v1/webhooks'' (hq_path req);
          origin = (case header ''origin'' req of Some o' \<Rightarrow> o' | None \<Rightarrow> [])
      in \<not> (is_mutating \<and> \<not> is_webhook \<and> origin \<noteq> [] \<and> \<not> origin_allowed origin req allowed))"

section \<open>Rate limiting: what gets through\<close>

definition accepted_in :: "int \<Rightarrow> int \<Rightarrow> string \<Rightarrow> (int \<times> string \<times> bool) list \<Rightarrow> nat" where
  "accepted_in a w ip rs = length (filter (\<lambda>(t, i, ok). i = ip \<and> ok \<and> a \<le> t \<and> t < a + w) rs)"

definition limit :: "u32 \<Rightarrow> nat" where
  "limit max_requests = max 1 (unat max_requests)"

lemma accepted_in_simps [simp]:
  "accepted_in a w ip [] = 0"
  "accepted_in a w ip ((t, i, ok) # rs) = (if i = ip \<and> ok \<and> a \<le> t \<and> t < a + w then 1 else 0) + accepted_in a w ip rs"
  by (simp_all add: accepted_in_def)

lemma check_rate_Some:
  assumes "check_rate mx w t (Some (n, start)) = (ok, (n', start'))" "unat n \<le> limit mx" "start \<le> t"
  obtains (reset) "t - start \<ge> w" "ok" "n' = 1" "start' = t"
  | (take) "t - start < w" "ok" "unat n' = unat n + 1" "start' = start" "unat n' \<le> limit mx"
  | (refuse) "t - start < w" "\<not> ok" "n' = n" "start' = start"
proof (cases "t - start \<ge> w")
  case True
  then show ?thesis using assms(1) by (intro reset) (auto simp: check_rate_def)
next
  case False
  show ?thesis
  proof (cases "n < mx")
    case True
    then have "unat n < unat mx" by (simp add: word_less_nat_alt)
    moreover from this have "unat (n + 1) = unat n + 1"
      using unat_add_noov [of n 1] unsigned_less [of mx, where 'a = nat] by simp
    ultimately show ?thesis using False True assms(1) by (intro take) (auto simp: check_rate_def limit_def)
  qed (use False assms(1) in \<open>intro refuse, auto simp: check_rate_def\<close>)
qed

lemma run_checks_late:
  "sorted (map fst reqs) \<Longrightarrow> \<forall>(t, i) \<in> set reqs. a + w \<le> t \<Longrightarrow> accepted_in a w ip (run_checks mx w reqs m) = 0"
  by (induction mx w reqs m rule: run_checks.induct) (auto simp: Let_def split: prod.split)

text \<open>Within a window that began after \<open>a\<close>, then over windows in general.\<close>

lemma accepted_same_window:
  assumes "sorted (map fst reqs)" "\<forall>(t, i) \<in> set reqs. start \<le> t" "m ip = Some (n, start)" "unat n \<le> limit mx" "a \<le> start"
  shows "accepted_in a w ip (run_checks mx w reqs m) + unat n \<le> limit mx"
  using assms
proof (induction reqs arbitrary: m n)
  case (Cons r reqs)
  obtain t i where r: "r = (t, i)" by (cases r)
  obtain ok m' where c: "check mx w t i m = (ok, m')" by (cases "check mx w t i m")
  show ?case
  proof (cases "i = ip")
    case False
    then have "m' ip = Some (n, start)" using c Cons.prems(3) by (auto simp: check_def split: prod.splits)
    then show ?thesis using Cons False by (simp add: r c)
  next
    case True
    obtain n' start' where e: "check_rate mx w t (Some (n, start)) = (ok, (n', start'))" "m' ip = Some (n', start')"
      using c True Cons.prems(3) by (auto simp: check_def split: prod.splits)
    have "start \<le> t" using Cons.prems(2) by (simp add: r)
    with e(1) Cons.prems(4) show ?thesis
    proof (cases rule: check_rate_Some)
      case reset
      have "accepted_in a w ip (run_checks mx w reqs m') = 0"
        by (rule run_checks_late) (use Cons.prems(1,5) reset(1) in \<open>fastforce simp: r\<close>)+
      then show ?thesis using reset(1) Cons.prems(4,5) by (simp add: r c)
    next
      case take
      then show ?thesis using Cons.IH [of m' n'] Cons.prems e(2) by (simp add: r c)
    next
      case refuse
      then show ?thesis using Cons.IH [of m' n'] Cons.prems e(2) by (simp add: r c)
    qed
  qed
qed simp

lemma accepted_from:
  assumes "sorted (map fst reqs)" "\<forall>(t, i) \<in> set reqs. start \<le> t \<and> a \<le> t" "m ip = Some (n, start)" "unat n \<le> limit mx"
  shows "accepted_in a w ip (run_checks mx w reqs m) + unat n \<le> 2 * limit mx"
  using assms
proof (induction reqs arbitrary: m n)
  case (Cons r reqs)
  obtain t i where r: "r = (t, i)" by (cases r)
  obtain ok m' where c: "check mx w t i m = (ok, m')" by (cases "check mx w t i m")
  show ?case
  proof (cases "i = ip")
    case False
    then have "m' ip = Some (n, start)" using c Cons.prems(3) by (auto simp: check_def split: prod.splits)
    then show ?thesis using Cons False by (simp add: r c)
  next
    case True
    obtain n' start' where e: "check_rate mx w t (Some (n, start)) = (ok, (n', start'))" "m' ip = Some (n', start')"
      using c True Cons.prems(3) by (auto simp: check_def split: prod.splits)
    have "start \<le> t" using Cons.prems(2) by (simp add: r)
    with e(1) Cons.prems(4) show ?thesis
    proof (cases rule: check_rate_Some)
      case reset
      have "accepted_in a w ip (run_checks mx w reqs m') + unat (1 :: u32) \<le> limit mx"
        by (rule accepted_same_window [where start = t])
          (use Cons.prems(1,2) e(2) reset in \<open>auto simp: r limit_def\<close>)
      then show ?thesis using Cons.prems(4) by (simp add: r c)
    next
      case take
      then show ?thesis using Cons.IH [of m' n'] Cons.prems e(2) by (simp add: r c)
    next
      case refuse
      then show ?thesis using Cons.IH [of m' n'] Cons.prems e(2) by (simp add: r c)
    qed
  qed
qed simp

text \<open>The entry of an address once it has one; a first request starts its window.\<close>

definition entry_ok :: "u32 \<Rightarrow> int \<Rightarrow> (u32 \<times> int) option \<Rightarrow> bool" where
  "entry_ok mx t e \<longleftrightarrow> (\<forall>n start. e = Some (n, start) \<longrightarrow> unat n \<le> limit mx \<and> start \<le> t)"

lemma check_entry_ok:
  assumes "check mx w t i m = (ok, m')" "entry_ok mx t (m ip)"
  shows "entry_ok mx t (m' ip)" and "i = ip \<Longrightarrow> ok \<Longrightarrow> \<exists>n start. m' ip = Some (n, start) \<and> unat n \<ge> 1"
proof -
  obtain n start where e: "check_rate mx w t (m ip) = check_rate mx w t (Some (n, start))" "unat n \<le> limit mx" "start \<le> t"
  proof (cases "m ip")
    case None
    then show ?thesis by (intro that [of 0 t]) (simp_all add: check_rate_def)
  next
    case (Some e)
    then show ?thesis using assms(2) by (cases e) (auto simp: entry_ok_def intro: that)
  qed
  have step: "entry_ok mx t (m' ip) \<and> (ok \<longrightarrow> (\<exists>n start. m' ip = Some (n, start) \<and> unat n \<ge> 1))" if i: "i = ip"
  proof -
    obtain n' start' where c: "check_rate mx w t (Some (n, start)) = (ok, (n', start'))" "m' ip = Some (n', start')"
      using assms(1) i e(1) by (auto simp: check_def split: prod.splits)
    from c(1) e(2,3) have "unat n' \<le> limit mx \<and> start' \<le> t \<and> (ok \<longrightarrow> unat n' \<ge> 1)"
      by (cases rule: check_rate_Some) (use e in \<open>auto simp: limit_def\<close>)
    then show ?thesis by (simp add: entry_ok_def c(2))
  qed
  moreover have "m' ip = m ip" if "i \<noteq> ip" using that assms(1) by (auto simp: check_def split: prod.splits)
  ultimately show "entry_ok mx t (m' ip)" "i = ip \<Longrightarrow> ok \<Longrightarrow> \<exists>n start. m' ip = Some (n, start) \<and> unat n \<ge> 1"
    using assms(2) by (cases "i = ip"; simp)+
qed

lemma accepted_bound:
  assumes "sorted (map fst reqs)" "\<forall>(t, i) \<in> set reqs. entry_ok mx t (m ip)"
  shows "accepted_in a w ip (run_checks mx w reqs m) \<le> 2 * limit mx"
  using assms
proof (induction reqs arbitrary: m)
  case (Cons r reqs)
  obtain t i where r: "r = (t, i)" by (cases r)
  obtain ok m' where c: "check mx w t i m = (ok, m')" by (cases "check mx w t i m")
  have ent: "entry_ok mx t (m' ip)" using check_entry_ok(1) [OF c] Cons.prems(2) by (simp add: r)
  have rest: "\<forall>(t', i') \<in> set reqs. entry_ok mx t' (m' ip)"
    using ent Cons.prems(1) by (force simp: entry_ok_def r)
  have IH: "accepted_in a w ip (run_checks mx w reqs m') \<le> 2 * limit mx"
    by (rule Cons.IH) (use Cons.prems(1) rest in \<open>simp_all add: r\<close>)
  show ?case
  proof (cases "i = ip \<and> ok \<and> a \<le> t")
    case False
    then show ?thesis using IH by (auto simp: r c)
  next
    case True
    obtain n start where m: "m' ip = Some (n, start)" "unat n \<ge> 1"
      using check_entry_ok(2) [OF c, of ip] Cons.prems(2) True by (auto simp: r)
    have "accepted_in a w ip (run_checks mx w reqs m') + unat n \<le> 2 * limit mx"
      by (rule accepted_from [where start = start]) (use Cons.prems(1) ent m True in \<open>force simp: r entry_ok_def\<close>)+
    then show ?thesis using m(2) by (simp add: r c)
  qed
qed simp

section \<open>Sessions that stay dead\<close>

text \<open>The changes the handlers make to the tables.  \<open>jti\<close> is a token id that no later token gets.\<close>

inductive auth_step :: "Crypto \<Rightarrow> ApiAuth \<Rightarrow> string \<Rightarrow> AuthDb \<Rightarrow> AuthDb \<Rightarrow> bool" for cy cfg jti where
  "login cy cfg flt now new_jti jwt_expiry username password db = (res, db') \<Longrightarrow> new_jti \<noteq> jti \<Longrightarrow> auth_step cy cfg jti db db'"
| "db' = logout cy cfg flt now req db \<Longrightarrow> auth_step cy cfg jti db db'"
| "change_password cy uni cfg flt now me old new db = (res', db') \<Longrightarrow> auth_step cy cfg jti db db'"
| "create_user cy uni cfg flt now new_id me body db = (res'', db') \<Longrightarrow> auth_step cy cfg jti db db'"
| "update_user cy uni cfg flt now me user_id upd db = (res'', db') \<Longrightarrow> auth_step cy cfg jti db db'"
| "reset_password cy uni cfg flt now me user_id new db = (res', db') \<Longrightarrow> auth_step cy cfg jti db db'"
| "delete_user cfg flt me user_id db = (res', db') \<Longrightarrow> auth_step cy cfg jti db db'"

definition dead :: "string \<Rightarrow> AuthDb \<Rightarrow> bool" where
  "dead jti db \<longleftrightarrow> (\<forall>s \<in> set (ad_sessions db). se_token_jti s = jti \<longrightarrow> se_revoked s)"

lemma dead_revoke: "dead jti (revoke_session jti db)" "dead jti db \<Longrightarrow> dead jti (revoke_session j db)"
  by (simp_all add: dead_def revoke_session_def del: if_image_distrib)

lemma dead_cong: "ad_sessions db' = ad_sessions db \<Longrightarrow> dead jti db' = dead jti db"
  by (simp add: dead_def)

lemma dead_invalid: "dead jti db \<Longrightarrow> \<not> is_session_valid now jti db"
  unfolding dead_def is_session_valid_def list_ex_iff by blast

lemma update_user_row_sessions [simp]: "ad_sessions (update_user_row now user_id d r a h db) = ad_sessions db"
  by (simp add: update_user_row_def)

lemma map_sum_Inr: "map_sum f g x = Inr y \<longleftrightarrow> (\<exists>z. x = Inr z \<and> y = g z)"
  by (cases x) auto

lemma encode_token_jti: "encode_token cy secret now jti expiry u = Inr (token, j) \<Longrightarrow> j = jti"
  by (auto simp: encode_token_def map_sum_Inr)

lemma login_db:
  "snd (login cy cfg flt now jti expiry username password db) = db
   \<or> (\<exists>u e. snd (login cy cfg flt now jti expiry username password db) = create_session u jti e db)"
  unfolding login_def Let_def
  by (auto split: sum.split option.split bool.split dest: encode_token_jti)

lemma login_sessions:
  "login cy cfg flt now jti expiry username password db = (res, db') \<Longrightarrow> db' = db \<or> (\<exists>u e. db' = create_session u jti e db)"
  using login_db [of cy cfg flt now jti expiry username password db] by simp

lemma auth_step_dead:
  assumes "auth_step cy cfg jti db db'" "dead jti db"
  shows "dead jti db'"
  using assms
proof cases
  case (1 flt now new_jti jwt_expiry username password res)
  then consider "db' = db" | u e where "db' = create_session u new_jti e db"
    using login_sessions by blast
  then show ?thesis using assms(2) 1(2) by cases (auto simp: dead_def create_session_def)
next
  case (2 flt now req)
  then show ?thesis using assms(2) dead_revoke(2) by (auto simp: logout_def split: option.split sum.split)
next
  case (3 uni flt now me old new res')
  then have "ad_sessions db' = ad_sessions db" by (auto simp: change_password_def Let_def split: if_splits sum.splits)
  then show ?thesis using assms(2) dead_cong by blast
next
  case (4 uni flt now new_id me body res'')
  then have "ad_sessions db' = ad_sessions db" by (auto simp: create_user_def Let_def split: if_splits sum.splits)
  then show ?thesis using assms(2) dead_cong by blast
next
  case (5 uni flt now me user_id upd res'')
  then have "ad_sessions db' = ad_sessions db" by (auto simp: update_user_def Let_def split: if_splits sum.splits option.splits)
  then show ?thesis using assms(2) dead_cong by blast
next
  case (6 uni flt now me user_id new res')
  then have "ad_sessions db' = ad_sessions db" by (auto simp: reset_password_def Let_def split: if_splits sum.splits)
  then show ?thesis using assms(2) dead_cong by blast
next
  case (7 flt me user_id res')
  then show ?thesis using assms(2) by (auto simp: delete_user_def dead_def delete_user_row_def split: if_splits option.splits)
qed

section \<open>Properties\<close>

text \<open>C40: The rate limiter lets at most twice the limit through in any span as long as its
  window, whatever requests of whatever addresses come in, in the order of the clock.  (A
  limit of zero counts as one.)\<close>

theorem rate_limit_bound:
  assumes "sorted (map fst reqs)"
  shows "accepted_in a window ip (run_checks max_requests window reqs Map.empty) \<le> 2 * max 1 (unat max_requests)"
  using accepted_bound [OF assms, of max_requests Map.empty] by (simp add: entry_ok_def limit_def)

theorem rate_limit_bound_witness:
  "sorted (map fst [(59 :: int, ''a''), (59, ''a''), (60, ''a''), (61, ''a''), (61, ''a''), (61, ''a'')])
   \<and> accepted_in 59 60 ''a'' (run_checks 2 60 [(59, ''a''), (59, ''a''), (60, ''a''), (61, ''a''), (61, ''a''), (61, ''a'')] Map.empty) \<le> 4
   \<and> accepted_in 59 60 ''a'' (run_checks 2 60 [(0, ''a''), (59, ''a''), (60, ''a''), (61, ''a''), (61, ''a''), (61, ''a'')] Map.empty) = 3"
proof -
  have "accepted_in 59 60 ''a'' (run_checks 2 60 [(0, ''a''), (59, ''a''), (60, ''a''), (61, ''a''), (61, ''a''), (61, ''a'')] Map.empty) = 3"
    by code_simp
  with rate_limit_bound [of "[(59, ''a''), (59, ''a''), (60, ''a''), (61, ''a''), (61, ''a''), (61, ''a'')]" 59 60 "''a''" 2]
  show ?thesis by (simp del: run_checks.simps)
qed


text \<open>A small token scheme: the token is the secret, a mark and the claims it was made from.\<close>

definition sample_claims :: Claims where
  "sample_claims = \<lparr> cl_sub = ''u1'', cl_username = ''ann'', cl_role = ''admin'', cl_jti = ''j1'', cl_exp = 100, cl_iat = 0 \<rparr>"

definition sample_crypto :: Crypto where
  "sample_crypto =
     \<lparr> cy_sha256 = rev, cy_hash_password = (\<lambda>p. Inr (rev p)), cy_verify_password = (\<lambda>p h. Inr (rev p = h)),
       cy_encode = (\<lambda>s c. Inr (s @ cl_jti c)),
       cy_decode = (\<lambda>s t tok. if tok = s @ ''j1'' \<and> t < 100 * nanos_per_sec then Inr sample_claims else Inl ''InvalidToken'') \<rparr>"

definition sample_user :: User where
  "sample_user = \<lparr> us_id = ''u1'', us_username = ''ann'', us_password_hash = rev ''Secret123'', us_display_name = None,
     us_role = Admin, us_active = True, us_created_at = 0, us_updated_at = 0 \<rparr>"

definition sample_auth_db :: AuthDb where
  "sample_auth_db = \<lparr> ad_users = [sample_user], ad_sessions = [], ad_api_keys = [], ad_worker_tokens = [] \<rparr>"

definition sample_api :: ApiAuth where
  "sample_api = \<lparr> aa_enabled = True, aa_jwt_secret = ''s-'', aa_storage = True \<rparr>"

definition sample_http :: "string \<Rightarrow> HttpRequest" where
  "sample_http token = \<lparr> hq_method = ''GET'', hq_path = ''/api/v1/auth/me'', hq_query = None, hq_headers = [''authorization'' \<mapsto> ''Bearer '' @ token] \<rparr>"


text \<open>An account that is disabled or reduced to a viewer keeps its sessions and the role they carry: the
  extractor takes the role from the token and does not read the user (an API key reads it), so no update
  of a user changes what a session token is answered.\<close>

lemma checked_write:
  "snd (case c of Inl e \<Rightarrow> (Inl e, db) | Inr h \<Rightarrow> (let db' = f h in case g db' of Some u \<Rightarrow> (Inr u, db') | None \<Rightarrow> (Inl x, db')))
     = (case c of Inl _ \<Rightarrow> db | Inr h \<Rightarrow> f h)"
  by (simp add: Let_def split: sum.split option.split)

lemma update_user_db:
  "\<exists>c :: ApiError + string option. snd (update_user cy uni cfg flt now me user_id body db) =
     (case c of Inl _ \<Rightarrow> db
      | Inr h \<Rightarrow> update_user_row now user_id (uu_display_name body) (map_option role_from_db_str (uu_role body)) (uu_active body) h db)"
  unfolding update_user_def by (subst Let_def, subst checked_write, rule exI, rule refl)

lemma is_session_valid_users: "is_session_valid now jti (update_user_row t user_id dn r a h db) = is_session_valid now jti db"
  by (simp add: is_session_valid_def update_user_row_def)

theorem disabled_user_keeps_role:
  "resolve_jwt cy parse_uuid cfg flt' now' token (snd (update_user cy uni cfg flt now me user_id body db))
     = resolve_jwt cy parse_uuid cfg flt' now' token db"
proof -
  let ?db' = "snd (update_user cy uni cfg flt now me user_id body db)"
  have "is_session_valid now' j ?db' = is_session_valid now' j db" for j
  proof -
    obtain c :: "ApiError + string option" where "?db' = (case c of Inl _ \<Rightarrow> db
      | Inr h \<Rightarrow> update_user_row now user_id (uu_display_name body) (map_option role_from_db_str (uu_role body)) (uu_active body) h db)"
      using update_user_db [of cy uni cfg flt now me user_id body db] ..
    then show ?thesis by (cases c) (simp_all add: is_session_valid_users)
  qed
  then show ?thesis by (simp only: resolve_jwt_def)
qed

end
