(* ===== verification/Settings.thy ===== *)
theory Settings
  imports Access
begin

text \<open>
  Runtime settings: the resolution of a key against the \<open>config_settings\<close> table and the configuration
  file (\<open>state.rs\<close>), the retention section of the configuration (\<open>models/config.rs\<close>) and the handlers of
  \<open>settings_handlers.rs\<close>.  The table is a map from keys to values.  Every read of the table may fail; the
  fault of a read inside \<open>resolve_setting\<close> goes by the key that is resolved.  The descriptions, ranges and
  option lists that the view of the settings carries for the user interface are left out.
\<close>

type_synonym settings = "string \<rightharpoonup> string"

section \<open>Resolution\<close>

text \<open>\<open>st\<close> is the table, absent when the controller runs without a database.\<close>

definition resolve_setting :: "settings option \<Rightarrow> faults \<Rightarrow> string \<Rightarrow> string \<Rightarrow> string" where
  "resolve_setting st flt key config_default =
     (case st of
        None \<Rightarrow> config_default
      | Some db \<Rightarrow>
          (case attempt flt key db of
             Inl _ \<Rightarrow> config_default
           | Inr settings \<Rightarrow> (case settings key of Some v \<Rightarrow> v | None \<Rightarrow> config_default)))"

definition resolve_setting_u64 :: "settings option \<Rightarrow> faults \<Rightarrow> string \<Rightarrow> u64 \<Rightarrow> u64" where
  "resolve_setting_u64 st flt key config_default =
     unwrap_or config_default (parse_u64 (resolve_setting st flt key (nat_to_dec (unat config_default))))"

definition resolve_setting_bool :: "settings option \<Rightarrow> faults \<Rightarrow> string \<Rightarrow> bool \<Rightarrow> bool" where
  "resolve_setting_bool st flt key config_default =
     unwrap_or config_default (parse_bool_exact (resolve_setting st flt key (bool_to_string config_default)))"

text \<open>The cast \<open>as i32\<close> of a \<open>u64\<close>.\<close>

definition as_i32 :: "u64 \<Rightarrow> int" where
  "as_i32 w = sint (ucast w :: u32)"

section \<open>The retention section of the configuration\<close>

record RetentionConfig =
  rc_max_builds_per_repo :: u32
  rc_t1_purge_files_after_days :: u32
  rc_t2_archive_after_days :: u32
  rc_t3_delete_archive_after_days :: u32
  rc_cleanup_interval_secs :: u64
  rc_enable_worker_fanout :: bool

definition RetentionConfig_default :: RetentionConfig where
  "RetentionConfig_default =
     \<lparr> rc_max_builds_per_repo = 5000, rc_t1_purge_files_after_days = 7, rc_t2_archive_after_days = 30,
       rc_t3_delete_archive_after_days = 365, rc_cleanup_interval_secs = 3600, rc_enable_worker_fanout = False \<rparr>"

definition retention_validate :: "RetentionConfig \<Rightarrow> string + unit" where
  "retention_validate rc =
     (let t1 = rc_t1_purge_files_after_days rc; t2 = rc_t2_archive_after_days rc; t3 = rc_t3_delete_archive_after_days rc
      in if t1 \<ge> t2
         then Inl (''retention: t1_purge_files_after_days ('' @ nat_to_dec (unat t1)
                @ '') must be < t2_archive_after_days ('' @ nat_to_dec (unat t2) @ '')'')
         else if t2 \<ge> t3
         then Inl (''retention: t2_archive_after_days ('' @ nat_to_dec (unat t2)
                @ '') must be < t3_delete_archive_after_days ('' @ nat_to_dec (unat t3) @ '')'')
         else Inr ())"

section \<open>Validation\<close>

abbreviation T1_KEY :: string where "T1_KEY \<equiv> ''retention.t1_purge_files_after_days''"
abbreviation T2_KEY :: string where "T2_KEY \<equiv> ''retention.t2_archive_after_days''"
abbreviation T3_KEY :: string where "T3_KEY \<equiv> ''retention.t3_delete_archive_after_days''"

definition EDITABLE_KEYS :: "string list" where
  "EDITABLE_KEYS =
     [''scheduling.strategy'', ''scheduling.nvme_preference'', ''scheduling.branch_affinity'',
      ''workers.heartbeat_timeout_secs'', ''workers.reservation_timeout_secs'', ''workers.idle_timeout_secs'',
      ''workers.stall_timeout_secs'', ''logging.level'', ''logging.log_dir'', ''retention.max_builds_per_repo'',
      T1_KEY, T2_KEY, T3_KEY, ''retention.cleanup_interval_secs'', ''retention.enable_worker_fanout'',
      ''execution.work_dir'', ''execution.log_dir'', ''execution.repos_dir'']"

definition RETENTION_NUMERIC_BOUNDS :: "(string \<times> int \<times> int) list" where
  "RETENTION_NUMERIC_BOUNDS =
     [(''retention.max_builds_per_repo'', 100, 1000000), (T1_KEY, 1, 3650), (T2_KEY, 1, 3650), (T3_KEY, 1, 36500),
      (''retention.cleanup_interval_secs'', 60, 86400)]"

definition validate_int_range :: "string \<Rightarrow> string \<Rightarrow> int \<Rightarrow> int \<Rightarrow> ApiError + unit" where
  "validate_int_range key v mn mx =
     (case parse_i64 v of
        None \<Rightarrow> Inl (BadRequest (key @ '' must be an integer''))
      | Some n \<Rightarrow>
          if n < mn \<or> n > mx
          then Inl (BadRequest (key @ '' must be between '' @ int_to_dec mn @ '' and '' @ int_to_dec mx))
          else Inr ())"

definition validate_path :: "string \<Rightarrow> string \<Rightarrow> ApiError + unit" where
  "validate_path key v =
     (if v = [] then Inl (BadRequest (key @ '' must not be empty''))
      else if \<not> starts_with ''/'' v then Inl (BadRequest (key @ '' must be an absolute path (start with /)''))
      else if contains_str ''..'' v then Inl (BadRequest (key @ '' must not contain '' @ quoted ''..''))
      else Inr ())"

definition must_be_bool :: "string \<Rightarrow> ApiError" where
  "must_be_bool key = BadRequest (key @ '' must be '' @ quoted ''true'' @ '' or '' @ quoted ''false'')"

definition parse_bool :: "string \<Rightarrow> string \<Rightarrow> ApiError + bool" where
  "parse_bool key v =
     (let l = map lower v
      in if l = ''true'' then Inr True else if l = ''false'' then Inr False else Inl (must_be_bool key))"

definition validate_setting_value :: "string \<Rightarrow> string \<Rightarrow> ApiError + unit" where
  "validate_setting_value key v =
     (if key = ''scheduling.strategy'' then
        (if v \<in> {''best-fit'', ''round-robin''} then Inr ()
         else Inl (BadRequest (''strategy must be '' @ quoted ''best-fit'' @ '' or '' @ quoted ''round-robin'')))
      else if key \<in> {''scheduling.nvme_preference'', ''scheduling.branch_affinity''} then
        (if v \<in> {''true'', ''false''} then Inr () else Inl (must_be_bool key))
      else if key = ''workers.heartbeat_timeout_secs'' then validate_int_range key v 5 300
      else if key \<in> {''workers.reservation_timeout_secs'', ''workers.idle_timeout_secs'', ''workers.stall_timeout_secs''}
      then validate_int_range key v 60 86400
      else if key = ''logging.level'' then
        (if v \<in> {''trace'', ''debug'', ''info'', ''warn'', ''error''} then Inr ()
         else Inl (BadRequest ''level must be one of: trace, debug, info, warn, error''))
      else if key \<in> {''retention.max_builds_per_repo'', T1_KEY, T2_KEY, T3_KEY, ''retention.cleanup_interval_secs''} then
        (case map_of RETENTION_NUMERIC_BOUNDS key of
           None \<Rightarrow> Inl (ApiInternal (''no bounds for '' @ key))
         | Some (mn, mx) \<Rightarrow> validate_int_range key v mn mx)
      else if key = ''retention.enable_worker_fanout'' then map_sum id (\<lambda>_. ()) (parse_bool key v)
      else if key \<in> {''logging.log_dir'', ''execution.work_dir'', ''execution.log_dir'', ''execution.repos_dir''}
      then validate_path key v
      else Inr ())"

text \<open>One tier as the check of the ordering reads it: the proposed value, the stored one, or the default.\<close>

definition current_tier :: "settings \<Rightarrow> string \<Rightarrow> u64 \<Rightarrow> string \<Rightarrow> u32 \<Rightarrow> ApiError + u64" where
  "current_tier db key proposed k dflt =
     (if key = k then Inr proposed
      else case db k of
        Some v \<Rightarrow> (case parse_u64 v of
                     Some n \<Rightarrow> Inr n
                   | None \<Rightarrow> Inl (ApiInternal (''stored '' @ k @ '' is not an integer: '' @ v)))
      | None \<Rightarrow> Inr (ucast dflt))"

definition tier_error :: "string \<Rightarrow> u64 \<Rightarrow> string \<Rightarrow> u64 \<Rightarrow> ApiError" where
  "tier_error a x b y = BadRequest (''retention tier ordering violated: '' @ a @ '' ('' @ nat_to_dec (unat x)
     @ '') must be < '' @ b @ '' ('' @ nat_to_dec (unat y) @ '')'')"

definition validate_retention_tier_ordering ::
  "faults \<Rightarrow> RetentionConfig \<Rightarrow> settings \<Rightarrow> string \<Rightarrow> string \<Rightarrow> ApiError + unit" where
  "validate_retention_tier_ordering flt fallback db key v =
     and_then (fallible (attempt flt ''get_all_config_settings'' db)) (\<lambda>db.
     case parse_u64 v of
       None \<Rightarrow> Inl (BadRequest (key @ '' must be an integer''))
     | Some proposed \<Rightarrow>
         and_then (current_tier db key proposed T1_KEY (rc_t1_purge_files_after_days fallback)) (\<lambda>t1.
         and_then (current_tier db key proposed T2_KEY (rc_t2_archive_after_days fallback)) (\<lambda>t2.
         and_then (current_tier db key proposed T3_KEY (rc_t3_delete_archive_after_days fallback)) (\<lambda>t3.
           if t1 \<ge> t2 then Inl (tier_error ''t1'' t1 ''t2'' t2)
           else if t2 \<ge> t3 then Inl (tier_error ''t2'' t2 ''t3'' t3)
           else Inr ()))))"

section \<open>The handlers\<close>

text \<open>The body of a PUT is its \<open>key\<close> and \<open>value\<close>, where they are strings.  \<open>retention\<close> is the section of the
  configuration file, if it has one.\<close>

definition update_setting ::
  "ApiAuth \<Rightarrow> faults \<Rightarrow> RetentionConfig option \<Rightarrow> AuthUser \<Rightarrow> string option \<Rightarrow> string option \<Rightarrow> settings
     \<Rightarrow> (ApiError + string \<times> string) \<times> settings" where
  "update_setting cfg flt retention me bkey bvalue db =
     (let checked =
            (if \<not> can_manage_repos (au_role me) then Inl (Forbidden ''Admin access required'')
             else if \<not> aa_storage cfg then Inl StorageUnavailable
             else case bkey of
               None \<Rightarrow> Inl (BadRequest ''key is required'')
             | Some key \<Rightarrow>
                 (case bvalue of
                    None \<Rightarrow> Inl (BadRequest ''value is required'')
                  | Some v \<Rightarrow>
                      if key \<notin> set EDITABLE_KEYS
                      then Inl (BadRequest (''Setting '' @ quoted key @ '' is not editable at runtime''))
                      else and_then (validate_setting_value key v) (\<lambda>_.
                           and_then (if key \<in> {T1_KEY, T2_KEY, T3_KEY}
                                     then validate_retention_tier_ordering flt (unwrap_or RetentionConfig_default retention) db key v
                                     else Inr ()) (\<lambda>_.
                           fallible (attempt flt ''set_config_setting'' (key, v))))))
      in case checked of
           Inl e \<Rightarrow> (Inl e, db)
         | Inr (key, v) \<Rightarrow> (Inr (key, v), db(key \<mapsto> v)))"

definition delete_setting :: "ApiAuth \<Rightarrow> faults \<Rightarrow> AuthUser \<Rightarrow> string \<Rightarrow> settings \<Rightarrow> (ApiError + string) \<times> settings" where
  "delete_setting cfg flt me key db =
     (if \<not> can_manage_repos (au_role me) then (Inl (Forbidden ''Admin access required''), db)
      else if \<not> aa_storage cfg then (Inl StorageUnavailable, db)
      else case flt ''delete_config_setting'' of
        Some e \<Rightarrow> (Inl (ApiInternal e), db)
      | None \<Rightarrow>
          if db key = None
          then (Inl (ApiNotFound ''Setting not found in database (already using config default)''), db)
          else (Inr key, db(key := None)))"

section \<open>The view of the settings\<close>

text \<open>A value of the view is a JSON string, number or boolean.\<close>

datatype json_value = JStr string | JNum int | JBool bool

record SettingView =
  sv_key :: string
  sv_value :: json_value
  sv_source :: string
  sv_editable :: bool

text \<open>What the view takes from the configuration file.\<close>

record SettingsConfig =
  sc_strategy :: string
  sc_nvme_preference :: bool
  sc_branch_affinity :: bool
  sc_heartbeat_timeout_secs :: u32
  sc_reservation_timeout_secs :: u64
  sc_idle_timeout_secs :: u64
  sc_stall_timeout_secs :: u64
  sc_level :: string
  sc_log_dir :: "string option"
  sc_retention :: "RetentionConfig option"
  sc_bind_address :: string
  sc_http_port :: int
  sc_auth_enabled :: bool
  sc_jwt_expiry_secs :: u64
  sc_heartbeat_interval_secs :: u32

definition resolve :: "settings \<Rightarrow> string \<Rightarrow> string \<Rightarrow> string \<times> string" where
  "resolve db key config_val = (case db key of Some v \<Rightarrow> (v, ''database'') | None \<Rightarrow> (config_val, ''config''))"

text \<open>The default of every editable key, in the order of the view; \<open>data_dir\<close> is \<open>chola_data_dir\<close>.\<close>

definition editable_defaults :: "(string \<Rightarrow> string) \<Rightarrow> SettingsConfig \<Rightarrow> (string \<times> string) list" where
  "editable_defaults data_dir sc =
     (let rc = unwrap_or RetentionConfig_default (sc_retention sc)
      in [(''scheduling.strategy'', sc_strategy sc),
          (''scheduling.nvme_preference'', bool_to_string (sc_nvme_preference sc)),
          (''scheduling.branch_affinity'', bool_to_string (sc_branch_affinity sc)),
          (''workers.heartbeat_timeout_secs'', nat_to_dec (unat (sc_heartbeat_timeout_secs sc))),
          (''workers.reservation_timeout_secs'', nat_to_dec (unat (sc_reservation_timeout_secs sc))),
          (''workers.idle_timeout_secs'', nat_to_dec (unat (sc_idle_timeout_secs sc))),
          (''workers.stall_timeout_secs'', nat_to_dec (unat (sc_stall_timeout_secs sc))),
          (''logging.level'', sc_level sc),
          (''retention.max_builds_per_repo'', nat_to_dec (unat (rc_max_builds_per_repo rc))),
          (T1_KEY, nat_to_dec (unat (rc_t1_purge_files_after_days rc))),
          (T2_KEY, nat_to_dec (unat (rc_t2_archive_after_days rc))),
          (T3_KEY, nat_to_dec (unat (rc_t3_delete_archive_after_days rc))),
          (''retention.cleanup_interval_secs'', nat_to_dec (unat (rc_cleanup_interval_secs rc))),
          (''retention.enable_worker_fanout'', bool_to_string (rc_enable_worker_fanout rc)),
          (''logging.log_dir'', unwrap_or (data_dir ''controller/logs'') (sc_log_dir sc)),
          (''execution.work_dir'', data_dir ''worker/jobs''),
          (''execution.log_dir'', data_dir ''worker/logs''),
          (''execution.repos_dir'', data_dir ''worker/repos'')])"

definition get_settings ::
  "(string \<Rightarrow> string) \<Rightarrow> SettingsConfig \<Rightarrow> faults \<Rightarrow> settings option \<Rightarrow> SettingView list" where
  "get_settings data_dir sc flt st =
     (let db = (case st of
                  Some db \<Rightarrow> (case attempt flt ''get_all_config_settings'' db of Inr m \<Rightarrow> m | Inl _ \<Rightarrow> Map.empty)
                | None \<Rightarrow> Map.empty)
      in map (\<lambda>(k, d). case resolve db k d of
                (v, src) \<Rightarrow> \<lparr> sv_key = k, sv_value = JStr v, sv_source = src, sv_editable = True \<rparr>)
           (editable_defaults data_dir sc)
         @ map (\<lambda>(k, v). \<lparr> sv_key = k, sv_value = v, sv_source = ''config'', sv_editable = False \<rparr>)
             [(''server.bind_address'', JStr (sc_bind_address sc)),
              (''server.http_port'', JNum (sc_http_port sc)),
              (''auth.enabled'', JBool (sc_auth_enabled sc)),
              (''auth.jwt_expiry_secs'', JNum (uint (sc_jwt_expiry_secs sc))),
              (''workers.heartbeat_interval_secs'', JNum (uint (sc_heartbeat_interval_secs sc)))])"

section \<open>Tiers as the retention loop reads them\<close>

definition no_faults :: faults where
  "no_faults = (\<lambda>_. None)"

definition tier :: "settings option \<Rightarrow> faults \<Rightarrow> string \<Rightarrow> u32 \<Rightarrow> int" where
  "tier st flt key dflt = as_i32 (resolve_setting_u64 st flt key (ucast dflt))"

text \<open>A table that only the PUT handler has written; \<open>retention\<close> is the section of the configuration file.\<close>

inductive settings_reach :: "RetentionConfig option \<Rightarrow> settings \<Rightarrow> bool" for retention where
  settings_empty: "settings_reach retention Map.empty"
| settings_put: "settings_reach retention db \<Longrightarrow> update_setting cfg flt retention me bkey bvalue db = (res, db')
     \<Longrightarrow> settings_reach retention db'"

text \<open>The effective value of a tier, and what the stored values satisfy.\<close>

definition eff :: "settings \<Rightarrow> string \<Rightarrow> u32 \<Rightarrow> u64" where
  "eff db k dflt = (case db k of Some v \<Rightarrow> unwrap_or (ucast dflt) (parse_u64 v) | None \<Rightarrow> ucast dflt)"

definition stored_ok :: "settings \<Rightarrow> bool" where
  "stored_ok db \<longleftrightarrow> (\<forall>k \<in> {T1_KEY, T2_KEY, T3_KEY}. \<forall>v. db k = Some v \<longrightarrow>
     (\<exists>w. parse_u64 v = Some w \<and> 1 \<le> uint w \<and> uint w \<le> 36500))"

definition tiers_ordered :: "RetentionConfig \<Rightarrow> settings \<Rightarrow> bool" where
  "tiers_ordered rc db \<longleftrightarrow>
     eff db T1_KEY (rc_t1_purge_files_after_days rc) < eff db T2_KEY (rc_t2_archive_after_days rc)
     \<and> eff db T2_KEY (rc_t2_archive_after_days rc) < eff db T3_KEY (rc_t3_delete_archive_after_days rc)"

lemma resolve_eff: "resolve_setting_u64 (Some db) no_faults k (ucast dflt) = eff db k dflt"
  by (simp add: resolve_setting_u64_def resolve_setting_def attempt_def no_faults_def eff_def unwrap_or_def split: option.split)

lemma tier_bounds:
  assumes "validate_setting_value k v = Inr ()" "k \<in> {T1_KEY, T2_KEY, T3_KEY}"
  shows "\<exists>w. parse_u64 v = Some w \<and> 1 \<le> uint w \<and> uint w \<le> 36500"
proof -
  obtain mx where "validate_int_range k v 1 mx = Inr ()" "mx \<le> 36500"
    using assms by (auto simp: validate_setting_value_def RETENTION_NUMERIC_BOUNDS_def)
  then obtain n where "parse_i64 v = Some n" "1 \<le> n" "n \<le> 36500"
    by (auto simp: validate_int_range_def split: option.splits if_splits)
  then show ?thesis using parse_i64_u64 [of v n] by auto
qed

lemma current_tier_eff:
  assumes "stored_ok db" "parse_u64 v = Some p" "k \<in> {T1_KEY, T2_KEY, T3_KEY}"
  shows "current_tier db key p k dflt = Inr (eff (db(key \<mapsto> v)) k dflt)"
proof (cases "db k")
  case None
  then show ?thesis using assms(2) by (simp add: current_tier_def eff_def unwrap_or_def)
next
  case (Some u)
  then obtain w where "parse_u64 u = Some w" using assms(1,3) unfolding stored_ok_def by blast
  then show ?thesis using Some assms(2) by (simp add: current_tier_def eff_def unwrap_or_def)
qed

lemma ordering_checked:
  assumes "validate_retention_tier_ordering flt rc db key v = Inr ()" "stored_ok db"
  shows "tiers_ordered rc (db(key \<mapsto> v))"
proof -
  obtain p where "parse_u64 v = Some p"
    using assms(1) by (auto simp: validate_retention_tier_ordering_def and_then_def split: sum.splits option.splits)
  then show ?thesis using assms(1) current_tier_eff [OF assms(2), of v p]
    by (auto simp: validate_retention_tier_ordering_def and_then_def fallible_def attempt_def tiers_ordered_def
        split: option.splits if_splits)
qed

lemma update_setting_cases:
  assumes "update_setting cfg flt retention me bkey bvalue db = (res, db')"
  obtains "db' = db"
  | key v where "db' = db(key \<mapsto> v)" "validate_setting_value key v = Inr ()"
      "key \<in> {T1_KEY, T2_KEY, T3_KEY} \<Longrightarrow>
         validate_retention_tier_ordering flt (unwrap_or RetentionConfig_default retention) db key v = Inr ()"
  using assms unfolding update_setting_def Let_def
  by (auto simp: and_then_def fallible_def attempt_def split: sum.splits if_splits option.splits)

lemma settings_reach_inv:
  assumes "settings_reach retention db" "tiers_ordered (unwrap_or RetentionConfig_default retention) Map.empty"
  shows "stored_ok db \<and> tiers_ordered (unwrap_or RetentionConfig_default retention) db"
  using assms
proof (induction rule: settings_reach.induct)
  case settings_empty
  then show ?case by (simp add: stored_ok_def)
next
  case (settings_put db cfg flt me bkey bvalue res db')
  note IH = settings_put.IH [OF settings_put.prems]
  from settings_put.hyps(2) show ?case
  proof (cases rule: update_setting_cases)
    case 1
    then show ?thesis using IH by simp
  next
    case (2 key v)
    show ?thesis
    proof (cases "key \<in> {T1_KEY, T2_KEY, T3_KEY}")
      case True
      then have "stored_ok db'" using tier_bounds [OF 2(2)] IH by (auto simp: stored_ok_def 2(1))
      then show ?thesis using ordering_checked [OF 2(3)] True IH by (simp only: 2(1))
    next
      case False
      then show ?thesis using IH 2(1) by (auto simp: stored_ok_def tiers_ordered_def eff_def)
    qed
  qed
qed

lemma as_i32_small:
  assumes "uint w < 2 ^ 31"
  shows "as_i32 w = uint w"
proof -
  have "uint (ucast w :: u32) = uint w" using assms by (simp add: unsigned_ucast_eq take_bit_int_eq_self)
  moreover have "- (2 ^ 31) \<le> uint w" by (rule order_trans [OF _ uint_ge_0]) simp
  ultimately show ?thesis using assms signed_take_bit_int_eq_self [of 31 "uint w"] by (simp add: as_i32_def sint_uint)
qed

text \<open>C92: The retention loop always finds its tiers in order.  When the configuration file passes its own
  check and its tiers are positive and below 2 to the 31, no sequence of PUT requests, accepted or
  refused, can make the loop read tiers that are not positive or not increasing, so no tick is
  skipped.\<close>

theorem puts_keep_tiers:
  assumes "settings_reach retention db" "unwrap_or RetentionConfig_default retention = rc"
    and "retention_validate rc = Inr ()"
    and "rc_t1_purge_files_after_days rc > 0" "uint (rc_t3_delete_archive_after_days rc) < 2 ^ 31"
  shows "0 < tier (Some db) no_faults T1_KEY (rc_t1_purge_files_after_days rc)
       \<and> tier (Some db) no_faults T1_KEY (rc_t1_purge_files_after_days rc)
           < tier (Some db) no_faults T2_KEY (rc_t2_archive_after_days rc)
       \<and> tier (Some db) no_faults T2_KEY (rc_t2_archive_after_days rc)
           < tier (Some db) no_faults T3_KEY (rc_t3_delete_archive_after_days rc)"
proof -
  have yaml: "rc_t1_purge_files_after_days rc < rc_t2_archive_after_days rc"
    "rc_t2_archive_after_days rc < rc_t3_delete_archive_after_days rc"
    using assms(3) by (auto simp: retention_validate_def Let_def split: if_splits)
  have up: "uint (ucast x :: u64) = uint x" for x :: u32
    using unsigned_less [of x, where 'a = int] by (simp add: unsigned_ucast_eq take_bit_int_eq_self)
  have "tiers_ordered rc Map.empty" using yaml by (simp add: tiers_ordered_def eff_def word_less_def up)
  then have inv: "stored_ok db" "tiers_ordered rc db" using settings_reach_inv [OF assms(1)] by (simp_all add: assms(2))
  have small: "uint (eff db k d) < 2 ^ 31 \<and> (0 < d \<longrightarrow> 0 < uint (eff db k d))"
    if tier_key: "k \<in> {T1_KEY, T2_KEY, T3_KEY}" and d: "uint d < 2 ^ 31" for k d
  proof (cases "db k")
    case None
    then show ?thesis using d by (simp add: eff_def up word_less_def)
  next
    case (Some v)
    then obtain w where "parse_u64 v = Some w" "1 \<le> uint w" "uint w \<le> 36500" using inv(1) tier_key unfolding stored_ok_def by blast
    then show ?thesis using Some by (simp add: eff_def unwrap_or_def)
  qed
  have le: "uint (rc_t1_purge_files_after_days rc) < 2 ^ 31" "uint (rc_t2_archive_after_days rc) < 2 ^ 31"
    using yaml assms(5) by (simp_all add: word_less_def)
  show ?thesis
    using small [of T1_KEY, OF _ le(1)] small [of T2_KEY, OF _ le(2)] small [of T3_KEY, OF _ assms(5)] inv(2) assms(4)
    by (simp add: tier_def resolve_eff as_i32_small tiers_ordered_def word_less_def)
qed

definition sample_admin :: AuthUser where
  "sample_admin = \<lparr> au_user_id = ''u1'', au_username = ''ann'', au_role = Admin \<rparr>"

definition sample_puts :: "string \<Rightarrow> string \<Rightarrow> settings \<Rightarrow> settings" where
  "sample_puts k v db = snd (update_setting sample_api no_faults None sample_admin (Some k) (Some v) db)"

lemma sample_parse_digits:
  "parse_digits ''10'' = Some 10" "parse_digits ''400'' = Some 400" "parse_digits ''500'' = Some 500"
  by (simp_all add: parse_digits_def digits_value_def is_digit_def code_def of_char_def)

lemma sample_digits:
  "parse_i64 ''10'' = Some 10" "parse_u64 ''10'' = Some 10" "parse_i64 ''400'' = Some 400" "parse_u64 ''400'' = Some 400"
  "parse_i64 ''500'' = Some 500" "parse_u64 ''500'' = Some 500"
  by (simp_all add: parse_i64_def parse_u64_def sample_parse_digits)

lemma sample_lower: "lower CHR ''T'' = CHR ''t''" "lower CHR ''R'' = CHR ''r''" "lower CHR ''U'' = CHR ''u''" "lower CHR ''E'' = CHR ''e''"
  by code_simp+

lemmas sample_simps = sample_digits update_setting_def sample_admin_def sample_api_def can_manage_repos_def EDITABLE_KEYS_def
  validate_setting_value_def and_then_def fallible_def attempt_def no_faults_def validate_int_range_def
  RETENTION_NUMERIC_BOUNDS_def validate_retention_tier_ordering_def current_tier_def RetentionConfig_default_def
  unwrap_or_def

lemma sample_puts_simps:
  "sample_puts T1_KEY ''10'' Map.empty = [T1_KEY \<mapsto> ''10'']"
  "sample_puts T3_KEY ''500'' Map.empty = [T3_KEY \<mapsto> ''500'']"
  "sample_puts T2_KEY ''400'' [T3_KEY \<mapsto> ''500''] = [T3_KEY \<mapsto> ''500'', T2_KEY \<mapsto> ''400'']"
  by (simp_all add: sample_puts_def sample_simps)

theorem puts_keep_tiers_witness:
  "let db = sample_puts T1_KEY ''10'' Map.empty
   in tier (Some db) no_faults T1_KEY 7 = 10
    \<and> 0 < tier (Some db) no_faults T1_KEY 7
    \<and> tier (Some db) no_faults T1_KEY 7 < tier (Some db) no_faults T2_KEY 30
    \<and> tier (Some db) no_faults T2_KEY 30 < tier (Some db) no_faults T3_KEY 365"
proof -
  let ?db = "sample_puts T1_KEY ''10'' Map.empty"
  have "settings_reach None ?db"
    unfolding sample_puts_def by (rule settings_put [OF settings_empty prod.collapse [symmetric]])
  from puts_keep_tiers [OF this refl]
  have "0 < tier (Some ?db) no_faults T1_KEY 7
   \<and> tier (Some ?db) no_faults T1_KEY 7 < tier (Some ?db) no_faults T2_KEY 30
   \<and> tier (Some ?db) no_faults T2_KEY 30 < tier (Some ?db) no_faults T3_KEY 365"
    by (simp add: unwrap_or_def RetentionConfig_default_def retention_validate_def)
  moreover have "tier (Some ?db) no_faults T1_KEY 7 = 10"
    by (simp add: sample_puts_simps tier_def resolve_setting_u64_def resolve_setting_def attempt_def no_faults_def
        sample_digits unwrap_or_def as_i32_small)
  ultimately show ?thesis by simp
qed

text \<open>Deleting an override is not checked: with the defaults of the file, T2 and T3 raised and then T3 reverted
  leaves T2 above T3, and every later tick is skipped.\<close>

theorem delete_breaks_tiers:
  "let db = snd (delete_setting sample_api no_faults sample_admin T3_KEY (sample_puts T2_KEY ''400'' (sample_puts T3_KEY ''500'' Map.empty)))
   in tier (Some db) no_faults T2_KEY 30 = 400 \<and> tier (Some db) no_faults T3_KEY 365 = 365"
  by (simp add: sample_puts_simps delete_setting_def sample_admin_def sample_api_def can_manage_repos_def
      tier_def resolve_setting_u64_def resolve_setting_def attempt_def no_faults_def sample_digits unwrap_or_def
      as_i32_small parse_u64_dec [of 365, simplified])

text \<open>The handler accepts the values of \<open>enable_worker_fanout\<close> in any case; the loop reads only lower case.\<close>

theorem fanout_upper_case_ignored:
  "sample_puts ''retention.enable_worker_fanout'' ''TRUE'' Map.empty = [''retention.enable_worker_fanout'' \<mapsto> ''TRUE'']
   \<and> \<not> resolve_setting_bool (Some [''retention.enable_worker_fanout'' \<mapsto> ''TRUE'']) no_faults
        ''retention.enable_worker_fanout'' False"
  by (simp add: sample_puts_def sample_simps parse_bool_def Let_def sample_lower resolve_setting_bool_def resolve_setting_def parse_bool_exact_def)

text \<open>C93: What the settings page shows is what the controller uses.  While the table can be read, every
  editable key stands in the view once, and its value is the one \<open>resolve_setting\<close> returns for the
  same default.\<close>

theorem view_shows_effective:
  "map sv_key (filter sv_editable (get_settings data_dir sc no_faults st)) = map fst (editable_defaults data_dir sc)
   \<and> set (map fst (editable_defaults data_dir sc)) = set EDITABLE_KEYS
   \<and> map sv_value (filter sv_editable (get_settings data_dir sc no_faults st))
       = map (\<lambda>(k, d). JStr (resolve_setting st no_faults k d)) (editable_defaults data_dir sc)"
proof -
  have "set (map fst (editable_defaults data_dir sc)) = set EDITABLE_KEYS"
    by (simp add: editable_defaults_def EDITABLE_KEYS_def Let_def insert_commute)
  then show ?thesis
    by (cases st) (auto simp: get_settings_def attempt_def no_faults_def resolve_def resolve_setting_def
        comp_def filter_map split: prod.split option.split)
qed

end
