(* ===== verification/Dispatch.thy ===== *)
theory Dispatch
  imports Controller
begin

text \<open>
  The messages the controller sends down a worker's job stream, and the dispatch of
  queued jobs (\<open>grpc_server.rs\<close>): assignments, cancel and purge directives, the
  clean-up job of a finished group, and \<open>dispatch_job_for_worker\<close>, which gives a worker
  the queued job of highest priority it may run.
\<close>

section \<open>Messages\<close>

definition blank_assignment :: JobAssignment where
  "blank_assignment =
     \<lparr> ja_job_id = [], ja_command = [], ja_job_type = [], ja_required_cpu = 0, ja_required_memory_mb = 0,
       ja_required_disk_mb = 0, ja_isolation_required = False, ja_branch_id = [], ja_environment = Map.empty,
       ja_cancel = None, ja_job_group_id = [], ja_stage_name = [], ja_pre_script = [], ja_post_script = [],
       ja_max_duration_secs = 0, ja_secret_env_keys = [], ja_pre_script_lock = None, ja_post_script_lock = None,
       ja_purge_group_files = None, ja_group_created_at = [] \<rparr>"

definition build_job_assignment :: "Job \<Rightarrow> string \<Rightarrow> JobAssignment" where
  "build_job_assignment job group_created_at =
     \<lparr> ja_job_id = j_job_id job, ja_command = j_command job, ja_job_type = job_type_display (j_job_type job),
       ja_required_cpu = j_required_cpu job, ja_required_memory_mb = j_required_memory_mb job,
       ja_required_disk_mb = j_required_disk_mb job, ja_isolation_required = j_isolation_required job,
       ja_branch_id = unwrap_or [] (j_branch_id job), ja_environment = j_environment job, ja_cancel = None,
       ja_job_group_id = unwrap_or [] (j_job_group_id job), ja_stage_name = unwrap_or [] (j_stage_name job),
       ja_pre_script = unwrap_or [] (j_pre_script job), ja_post_script = unwrap_or [] (j_post_script job),
       ja_max_duration_secs = unwrap_or 0 (j_max_duration_secs job), ja_secret_env_keys = [],
       ja_pre_script_lock = None, ja_post_script_lock = None, ja_purge_group_files = None,
       ja_group_created_at = group_created_at \<rparr>"

definition build_cancel_assignment :: "string \<Rightarrow> string \<Rightarrow> JobAssignment" where
  "build_cancel_assignment job_id reason =
     blank_assignment\<lparr> ja_job_id := job_id,
       ja_cancel := Some \<lparr> cx_job_id = job_id, cx_reason = reason, cx_signal = 2 \<rparr> \<rparr>"

definition build_purge_assignment :: "string \<Rightarrow> JobAssignment" where
  "build_purge_assignment group_id =
     blank_assignment\<lparr> ja_job_group_id := group_id, ja_purge_group_files := Some group_id \<rparr>"

fun job_state_to_proto :: "JobState \<Rightarrow> int" where
  "job_state_to_proto JQueued = 1"
| "job_state_to_proto JAssigned = 2"
| "job_state_to_proto JRunning = 3"
| "job_state_to_proto JSuccess = 4"
| "job_state_to_proto JFailed = 5"
| "job_state_to_proto JCancelled = 6"
| "job_state_to_proto JUnknown = 0"

definition nl :: char where "nl = CHR 0x0A"

definition shell_lines :: "string list \<Rightarrow> string" where
  "shell_lines ls = concat (map (\<lambda>l. l @ [nl]) ls)"

definition prepend_global_pre_script :: "string \<Rightarrow> string \<Rightarrow> string" where \<open>
  prepend_global_pre_script global_pre stage_pre =
     shell_lines
       [''if [ "${CHOLA_STAGE_DIR+x}" = x ]; then'',
        ''__CHOLA_STAGE_DIR_SAVED="$CHOLA_STAGE_DIR"'',
        ''unset CHOLA_STAGE_DIR'',
        ''else'',
        ''__CHOLA_STAGE_DIR_SAVED=""'',
        ''fi'',
        ''if [ "${CHOLA_STAGE_NAME+x}" = x ]; then'',
        ''__CHOLA_STAGE_NAME_SAVED="$CHOLA_STAGE_NAME"'',
        ''unset CHOLA_STAGE_NAME'',
        ''else'',
        ''__CHOLA_STAGE_NAME_SAVED=""'',
        ''fi'']
     @ global_pre @ (if global_pre \<noteq> [] \<and> last global_pre = nl then [] else [nl])
     @ shell_lines
       [''if [ -n "$__CHOLA_STAGE_DIR_SAVED" ]; then'',
        ''export CHOLA_STAGE_DIR="$__CHOLA_STAGE_DIR_SAVED"'',
        ''else'',
        ''unset CHOLA_STAGE_DIR'',
        ''fi'',
        ''unset __CHOLA_STAGE_DIR_SAVED'',
        ''if [ -n "$__CHOLA_STAGE_NAME_SAVED" ]; then'',
        ''export CHOLA_STAGE_NAME="$__CHOLA_STAGE_NAME_SAVED"'',
        ''else'',
        ''unset CHOLA_STAGE_NAME'',
        ''fi'',
        ''unset __CHOLA_STAGE_NAME_SAVED'']
     @ stage_pre\<close>

section \<open>The clean-up job\<close>

definition cleanup_env :: "Repo \<Rightarrow> uuid \<Rightarrow> string option \<Rightarrow> string option \<Rightarrow> JobGroupState \<Rightarrow> string \<rightharpoonup> string" where
  "cleanup_env repo group_id branch commit_sha group_state =
     (let env = Map.empty(''JOB_GROUP_ID'' \<mapsto> group_id, ''REPO_NAME'' \<mapsto> rp_repo_name repo, ''REPO_URL'' \<mapsto> rp_repo_url repo);
          env = (case branch of Some b \<Rightarrow> env(''BRANCH'' \<mapsto> b) | None \<Rightarrow> env);
          env = (case commit_sha of Some c \<Rightarrow> env(''COMMIT_SHA'' \<mapsto> c) | None \<Rightarrow> env)
      in env(''STAGE_EXIT_CODE'' \<mapsto> (if group_state = GSuccess then ''0'' else ''1''),
             ''STAGE_WAS_CANCELLED'' \<mapsto> (if group_state = GCancelled then ''true'' else ''false''),
             ''GROUP_STATE'' \<mapsto> group_state_display group_state))"

definition cleanup_assignment ::
  "Repo \<Rightarrow> string \<Rightarrow> uuid \<Rightarrow> string option \<Rightarrow> string option \<Rightarrow> JobGroupState \<Rightarrow> JobAssignment" where
  "cleanup_assignment repo global_post group_id branch commit_sha group_state =
     blank_assignment\<lparr> ja_job_id := group_id @ ''-__cleanup__'', ja_command := ''true'', ja_job_type := ''common'',
       ja_environment := cleanup_env repo group_id branch commit_sha group_state, ja_job_group_id := group_id,
       ja_stage_name := ''__cleanup__'', ja_pre_script := global_post, ja_max_duration_secs := 300,
       ja_pre_script_lock :=
         (if rp_global_post_script_lock_enabled repo
          then Some \<lparr> lk_enabled = True, lk_lock_key = unwrap_or [] (rp_global_post_script_lock_key repo),
                      lk_timeout_secs = rp_global_post_script_lock_timeout_secs repo,
                      lk_scope = rp_global_post_script_scope repo \<rparr>
          else None) \<rparr>"

definition dispatch_global_post_script ::
  "Env \<Rightarrow> uuid \<Rightarrow> string \<Rightarrow> uuid option \<Rightarrow> string option \<Rightarrow> string option \<Rightarrow> JobGroupState
   \<Rightarrow> ControllerState \<Rightarrow> ControllerState" where
  "dispatch_global_post_script env group_id worker_id repo_id branch commit_sha group_state cs =
     (case repo_id of None \<Rightarrow> cs | Some rid \<Rightarrow>
      case env_storage env of None \<Rightarrow> cs | Some storage \<Rightarrow>
      case st_repo storage rid of
        Inr (Some repo) \<Rightarrow>
          (case rp_global_post_script repo of
             Some s \<Rightarrow>
               if s = [] then cs
               else if rp_global_post_script_scope repo \<noteq> ''worker'' \<and> rp_global_post_script_scope repo \<noteq> ''both'' then cs
               else send_to worker_id (cleanup_assignment repo s group_id branch commit_sha group_state) cs
           | None \<Rightarrow> cs)
      | _ \<Rightarrow> cs)"

section \<open>Dispatch\<close>

definition cmp_queued :: "Job \<Rightarrow> Job \<Rightarrow> ordering" where
  "cmp_queued a b = then_with (cmp_ord (j_priority b) (j_priority a)) (cmp_ord (j_created_at a) (j_created_at b))"

definition may_take :: "Env \<Rightarrow> string \<Rightarrow> WorkerState \<Rightarrow> Job \<Rightarrow> bool" where
  "may_take env worker_id w job \<longleftrightarrow>
     (let scheduler = \<lparr> nvme_preference = env_nvme_preference env, branch_affinity = True \<rparr>;
          targeted_elsewhere = (case j_assigned_worker job of Some x \<Rightarrow> x \<noteq> worker_id | None \<Rightarrow> False);
          explicitly_targeted = (case j_assigned_worker job of Some x \<Rightarrow> x = worker_id | None \<Rightarrow> False)
      in \<not> targeted_elsewhere \<and> (explicitly_targeted \<or> select_worker scheduler job [w] \<noteq> None))"

definition group_created_at_of :: "Env \<Rightarrow> Job \<Rightarrow> ControllerState \<Rightarrow> string" where
  "group_created_at_of env job cs =
     (case j_job_group_id job of
        Some gid \<Rightarrow> (case gr_groups (cs_groups cs) gid of
                      Some g \<Rightarrow> env_rfc3339 env (g_created_at g) | None \<Rightarrow> [])
      | None \<Rightarrow> [])"

text \<open>\<open>tx_open\<close> tells whether the receiver of the stream is alive.\<close>

definition dispatch_job_for_worker ::
  "Env \<Rightarrow> datetime \<Rightarrow> string \<Rightarrow> bool \<Rightarrow> ControllerState \<Rightarrow> bool \<times> ControllerState" where
  "dispatch_job_for_worker env now worker_id tx_open cs =
     (case cs_workers cs worker_id of
        None \<Rightarrow> (True, cs)
      | Some w \<Rightarrow>
          (let queued = sort_by cmp_queued (queued_jobs (env_job_order env (cs_jobs cs)) (cs_jobs cs))
           in case map_option j_job_id (List.find (may_take env worker_id w) queued) of
                None \<Rightarrow> (True, cs)
              | Some job_id \<Rightarrow>
                  (case assign_job now job_id worker_id (cs_jobs cs) of
                     (None, _) \<Rightarrow> (True, cs)
                   | (Some job, jr) \<Rightarrow>
                       (let cs = map_jobs (\<lambda>_. jr) cs;
                            assignment = build_job_assignment job (group_created_at_of env job cs)
                        in if tx_open then (True, emit (SendAssignment worker_id assignment) cs)
                           else (False, cs)))))"

lemma job_state_proto_inverse [simp]: "job_state_of_proto (job_state_to_proto s) = s"
  by (cases s) (simp_all add: job_state_of_proto_def)

text \<open>The queue order: higher priority first, then first come first served.\<close>

lemma cmp_queued_not_Greater:
  "cmp_queued a b \<noteq> Greater \<longleftrightarrow>
   j_priority b < j_priority a \<or> (j_priority a = j_priority b \<and> j_created_at a \<le> j_created_at b)"
  by (auto simp: cmp_queued_def then_with_not_Greater)

interpretation queue_order: comparator cmp_queued UNIV
proof unfold_locales
  show "cmp_queued x y = Greater \<Longrightarrow> cmp_queued y x \<noteq> Greater" for x y
    using cmp_queued_not_Greater [of x y] cmp_queued_not_Greater [of y x] by linarith
  show "cmp_queued x y \<noteq> Greater \<Longrightarrow> cmp_queued y z \<noteq> Greater \<Longrightarrow> cmp_queued x z \<noteq> Greater" for x y z
    unfolding cmp_queued_not_Greater by linarith
  show "cmp_queued x x \<noteq> Greater" for x
    by (simp add: cmp_queued_not_Greater)
qed

text \<open>The jobs a worker may take now.\<close>

definition takeable :: "Env \<Rightarrow> string \<Rightarrow> WorkerState \<Rightarrow> JobRegistry \<Rightarrow> string set" where
  "takeable env wid w r = {k. \<exists>j. r k = Some j \<and> j_state j = JQueued \<and> may_take env wid w j}"

lemma takeable_mark_assigned:
  "r k = Some j \<Longrightarrow> takeable env wid w (r(k \<mapsto> mark_assigned now wid j)) = takeable env wid w r - {k}"
  by (auto simp: takeable_def mark_assigned_def)

lemma dispatch_no_worker: "cs_workers cs wid = None \<Longrightarrow> dispatch_job_for_worker env now wid tx cs = (True, cs)"
  by (simp add: dispatch_job_for_worker_def)

lemma dispatch_cases:
  assumes keyed: "jobs.well_keyed (cs_jobs cs)"
    and order: "hm_order (env_job_order env (cs_jobs cs)) (cs_jobs cs)"
    and w: "cs_workers cs wid = Some w"
  obtains (idle) "takeable env wid w (cs_jobs cs) = {}" "dispatch_job_for_worker env now wid tx cs = (True, cs)"
  | (serve) k j where "cs_jobs cs k = Some j" "k \<in> takeable env wid w (cs_jobs cs)"
      "\<And>k' j'. k' \<in> takeable env wid w (cs_jobs cs) \<Longrightarrow> cs_jobs cs k' = Some j' \<Longrightarrow> cmp_queued j j' \<noteq> Greater"
      "dispatch_job_for_worker env now wid tx cs =
       (let cs' = map_jobs (\<lambda>_. (cs_jobs cs)(k \<mapsto> mark_assigned now wid j)) cs
        in (tx, if tx then emit (SendAssignment wid
                  (build_job_assignment (mark_assigned now wid j) (group_created_at_of env (mark_assigned now wid j) cs'))) cs'
                else cs'))"
proof -
  let ?q = "queued_jobs (env_job_order env (cs_jobs cs)) (cs_jobs cs)"
  have q: "set ?q = {j \<in> ran (cs_jobs cs). j_state j = JQueued}"
    using set_hm_values_order [OF order] by (auto simp: queued_jobs_def)
  show ?thesis
  proof (cases "List.find (may_take env wid w) (sort_by cmp_queued ?q)")
    case None
    then have "\<not> may_take env wid w j" if "j \<in> set ?q" for j
      using that by (simp add: find_None_iff)
    then have "takeable env wid w (cs_jobs cs) = {}"
      unfolding q by (auto simp: takeable_def ran_def)
    with None show ?thesis by (intro idle) (simp_all add: dispatch_job_for_worker_def w)
  next
    case (Some j)
    from find_mem [OF this] have "may_take env wid w j" "j \<in> set ?q" by simp_all
    then have j: "may_take env wid w j" "j_state j = JQueued" "j \<in> ran (cs_jobs cs)"
      using q by auto
    then have k: "cs_jobs cs (j_job_id j) = Some j"
      using keyed by (auto simp: jobs.well_keyed_def ran_def)
    show ?thesis
    proof (rule serve [OF k])
      show "j_job_id j \<in> takeable env wid w (cs_jobs cs)" using k j by (simp add: takeable_def)
      show "cmp_queued j j' \<noteq> Greater"
        if "k' \<in> takeable env wid w (cs_jobs cs)" "cs_jobs cs k' = Some j'" for k' j'
      proof -
        have "j' \<in> set ?q" "may_take env wid w j'" using that q by (auto simp: takeable_def ran_def)
        from queue_order.find_least [OF subset_UNIV Some this] show ?thesis .
      qed
      show "dispatch_job_for_worker env now wid tx cs = (let cs' = map_jobs (\<lambda>_. (cs_jobs cs)(j_job_id j \<mapsto> mark_assigned now wid j)) cs
        in (tx, if tx then emit (SendAssignment wid
                  (build_job_assignment (mark_assigned now wid j) (group_created_at_of env (mark_assigned now wid j) cs'))) cs'
                else cs'))"
        using Some k j by (simp add: dispatch_job_for_worker_def w assign_job_def Let_def)
    qed
  qed
qed

lemma dispatch_takeable:
  assumes a: "jobs.well_keyed (cs_jobs cs)" "hm_order (env_job_order env (cs_jobs cs)) (cs_jobs cs)"
    "cs_workers cs wid = Some w" and c: "cs' = snd (dispatch_job_for_worker env now wid tx cs)"
  shows "card (takeable env wid w (cs_jobs cs')) = card (takeable env wid w (cs_jobs cs)) - 1
       \<and> takeable env wid w (cs_jobs cs') \<subseteq> takeable env wid w (cs_jobs cs)
       \<and> jobs.well_keyed (cs_jobs cs') \<and> dom (cs_jobs cs') = dom (cs_jobs cs) \<and> cs_workers cs' = cs_workers cs"
  using a
proof (cases rule: dispatch_cases [where now = now and tx = tx])
  case idle
  then show ?thesis using a(1) c by simp
next
  case (serve k j)
  have j: "cs_jobs cs' = (cs_jobs cs)(k \<mapsto> mark_assigned now wid j)" "cs_workers cs' = cs_workers cs"
    unfolding c serve(4) Let_def by (simp_all add: fun_upd_def)
  have "jobs.well_keyed ((cs_jobs cs)(k \<mapsto> mark_assigned now wid j))"
    using a(1) serve(1) by (simp add: jobs.well_keyed_def)
  with serve(1,2) show ?thesis unfolding j takeable_mark_assigned [where r = "cs_jobs cs", OF serve(1)] by auto
qed

section \<open>Properties\<close>

text \<open>C21: Dispatch never passes over a better job.  For a registered worker, either no queued
  job may go to it and nothing happens, or exactly one queued job that may go to it is
  marked assigned to it, and every other such job has a lower priority or
  the same priority and was not created earlier.  The assignment is sent if the
  stream is alive, and the result reports whether it was.\<close>

theorem dispatch_serves_best:
  assumes "jobs.well_keyed (cs_jobs cs)"
    and "hm_order (env_job_order env (cs_jobs cs)) (cs_jobs cs)"
    and "cs_workers cs wid = Some w"
    and "dispatch_job_for_worker env now wid tx cs = (ok, cs')"
  shows "takeable env wid w (cs_jobs cs) = {} \<and> ok \<and> cs' = cs
     \<or> (\<exists>k j. k \<in> takeable env wid w (cs_jobs cs) \<and> cs_jobs cs k = Some j
          \<and> (\<forall>k' j'. k' \<in> takeable env wid w (cs_jobs cs) \<longrightarrow> cs_jobs cs k' = Some j' \<longrightarrow>
               j_priority j' < j_priority j \<or> (j_priority j = j_priority j' \<and> j_created_at j \<le> j_created_at j'))
          \<and> cs_jobs cs' = (cs_jobs cs)(k \<mapsto> mark_assigned now wid j)
          \<and> ok = tx
          \<and> cs_effects cs' = cs_effects cs @
              (if tx then [SendAssignment wid (build_job_assignment (mark_assigned now wid j) (group_created_at_of env j cs))]
               else []))"
  using assms(1,2,3)
proof (cases rule: dispatch_cases [where now = now and tx = tx])
  case idle
  with assms(4) show ?thesis by simp
next
  case (serve k j)
  have "group_created_at_of env (mark_assigned now wid j) (map_jobs f cs) = group_created_at_of env j cs" for f
    by (simp add: group_created_at_of_def mark_assigned_def cong: option.case_cong)
  with serve(4) assms(4) have "cs_jobs cs' = (cs_jobs cs)(k \<mapsto> mark_assigned now wid j)" "ok = tx"
    "cs_effects cs' = cs_effects cs @
       (if tx then [SendAssignment wid (build_job_assignment (mark_assigned now wid j) (group_created_at_of env j cs))] else [])"
    by (auto simp: Let_def)
  moreover have "\<forall>k' j'. k' \<in> takeable env wid w (cs_jobs cs) \<longrightarrow> cs_jobs cs k' = Some j' \<longrightarrow>
               j_priority j' < j_priority j \<or> (j_priority j = j_priority j' \<and> j_created_at j \<le> j_created_at j')"
    using serve(3) unfolding cmp_queued_not_Greater by blast
  ultimately show ?thesis using serve(1,2) by blast
qed

theorem dispatch_serves_best_witness:
  "let cs = sample_cs\<lparr> cs_jobs := [''a'' \<mapsto> (sample_job ''a'' JQueued)\<lparr> j_assigned_worker := Some ''w1'' \<rparr>,
                                   ''b'' \<mapsto> (sample_job ''b'' JQueued)\<lparr> j_assigned_worker := Some ''w1'', j_priority := 5 \<rparr>] \<rparr>;
       (ok, cs') = dispatch_job_for_worker sample_env 7 ''w1'' True cs
   in map_option j_state (cs_jobs cs' ''b'') = Some JAssigned \<and> map_option j_state (cs_jobs cs' ''a'') = Some JQueued"
proof -
  let ?a = "(sample_job ''a'' JQueued)\<lparr> j_assigned_worker := Some ''w1'' \<rparr>"
  let ?b = "(sample_job ''b'' JQueued)\<lparr> j_assigned_worker := Some ''w1'', j_priority := 5 \<rparr>"
  let ?r = "[''a'' \<mapsto> ?a, ''b'' \<mapsto> ?b]"
  let ?cs = "sample_cs\<lparr> cs_jobs := ?r \<rparr>"
  let ?w = "WorkerState_new 0 sample_info"
  obtain ok cs' where d: "dispatch_job_for_worker sample_env 7 ''w1'' True ?cs = (ok, cs')"
    by (cases "dispatch_job_for_worker sample_env 7 ''w1'' True ?cs")
  have t: "takeable sample_env ''w1'' ?w ?r = {''a'', ''b''}"
    by (auto simp: takeable_def may_take_def Let_def sample_job_def Job_new_def)
  have r: "cs_jobs ?cs = ?r" by simp
  have wk: "jobs.well_keyed (cs_jobs ?cs)" by (simp add: jobs.well_keyed_def sample_job_def Job_new_def)
  have ord: "hm_order (env_job_order sample_env (cs_jobs ?cs)) (cs_jobs ?cs)" by (simp add: hm_order_def) auto
  have w: "cs_workers ?cs ''w1'' = Some ?w" by simp
  from dispatch_serves_best [OF wk ord w d] obtain k j where k: "k \<in> {''a'', ''b''}" "?r k = Some j"
    and best: "\<And>k' j'. k' \<in> {''a'', ''b''} \<Longrightarrow> ?r k' = Some j' \<Longrightarrow>
      j_priority j' < j_priority j \<or> (j_priority j = j_priority j' \<and> j_created_at j \<le> j_created_at j')"
    and cs': "cs_jobs cs' = ?r(k \<mapsto> mark_assigned 7 ''w1'' j)"
    unfolding r t by blast
  have "k = ''b''" using best [of "''b''" ?b] k by (auto simp: sample_job_def Job_new_def split: if_splits)
  then show ?thesis using d cs' k(2) by (simp add: mark_assigned_def sample_job_def Job_new_def)
qed

text \<open>C22: No queued job starves while its worker's stream is served: as many rounds of
  dispatch as there are queued jobs the worker may take leave none of them queued.\<close>

theorem dispatch_drains_queue:
  assumes "jobs.well_keyed (cs_jobs cs)" "cs_workers cs wid = Some w"
    and "\<And>m. dom m = dom (cs_jobs cs) \<Longrightarrow> hm_order (env_job_order env m) m"
    and "finite (dom (cs_jobs cs))"
    and "card (takeable env wid w (cs_jobs cs)) \<le> n"
  shows "takeable env wid w (cs_jobs (((\<lambda>cs. snd (dispatch_job_for_worker env now wid tx cs)) ^^ n) cs)) = {}"
  using assms
proof (induction n arbitrary: cs)
  case 0
  have "takeable env wid w (cs_jobs cs) \<subseteq> dom (cs_jobs cs)" by (auto simp: takeable_def)
  with 0 show ?case using finite_subset by fastforce
next
  case (Suc n)
  define cs' where "cs' = snd (dispatch_job_for_worker env now wid tx cs)"
  note step = dispatch_takeable [OF Suc.prems(1) Suc.prems(3) [OF refl] Suc.prems(2) cs'_def]
  have ord: "\<And>m. dom m = dom (cs_jobs cs') \<Longrightarrow> hm_order (env_job_order env m) m"
    using Suc.prems(3) step by simp
  have "takeable env wid w (cs_jobs (((\<lambda>cs. snd (dispatch_job_for_worker env now wid tx cs)) ^^ n) cs')) = {}"
    by (rule Suc.IH) (use step ord Suc.prems in auto)
  then show ?case by (simp add: funpow_Suc_right cs'_def del: funpow.simps)
qed

theorem dispatch_drains_queue_witness:
  "let r = [''a'' \<mapsto> (sample_job ''a'' JQueued)\<lparr> j_assigned_worker := Some ''w1'' \<rparr>,
            ''b'' \<mapsto> (sample_job ''b'' JQueued)\<lparr> j_assigned_worker := Some ''w1'' \<rparr>];
       cs' = ((\<lambda>cs. snd (dispatch_job_for_worker sample_env 7 ''w1'' True cs)) ^^ 2) (sample_cs\<lparr> cs_jobs := r \<rparr>)
   in takeable sample_env ''w1'' (WorkerState_new 0 sample_info) (cs_jobs cs') = {}"
proof -
  let ?a = "(sample_job ''a'' JQueued)\<lparr> j_assigned_worker := Some ''w1'' \<rparr>"
  let ?b = "(sample_job ''b'' JQueued)\<lparr> j_assigned_worker := Some ''w1'' \<rparr>"
  let ?r = "[''a'' \<mapsto> ?a, ''b'' \<mapsto> ?b]"
  let ?cs = "sample_cs\<lparr> cs_jobs := ?r \<rparr>"
  have "takeable sample_env ''w1'' (WorkerState_new 0 sample_info) ?r \<subseteq> {''a'', ''b''}"
    by (auto simp: takeable_def split: if_splits)
  then have "card (takeable sample_env ''w1'' (WorkerState_new 0 sample_info) ?r) \<le> card {''a'', ''b''}"
    by (intro card_mono) auto
  then have "takeable sample_env ''w1'' (WorkerState_new 0 sample_info)
      (cs_jobs (((\<lambda>cs. snd (dispatch_job_for_worker sample_env 7 ''w1'' True cs)) ^^ 2) ?cs)) = {}"
    by (intro dispatch_drains_queue)
      (auto simp: hm_order_def jobs.well_keyed_def sample_job_def Job_new_def split: if_splits)
  then show ?thesis by simp
qed

end
