(* ===== verification/Accounts.thy ===== *)
theory Accounts
  imports Controller
begin

text \<open>
  The accounts of the controller: what a worker counts as allocated against what the
  unfinished groups reserved on it hold.  The locale states the laws once for a
  resource; CPU and memory are its two interpretations.  A handler that changes groups
  and workers together is shown to keep the accounts balanced.
\<close>

section \<open>Sums over a map\<close>

definition msum :: "('v \<Rightarrow> nat) \<Rightarrow> ('k \<rightharpoonup> 'v) \<Rightarrow> nat" where
  "msum f m = (\<Sum>k \<in> dom m. f (the (m k)))"

lemma msum_upd_new: "finite (dom m) \<Longrightarrow> m k = None \<Longrightarrow> msum f (m(k \<mapsto> v)) = msum f m + f v"
proof -
  assume "finite (dom m)" "m k = None"
  moreover have "(\<Sum>x \<in> dom m. f (the ((m(k \<mapsto> v)) x))) = (\<Sum>x \<in> dom m. f (the (m x)))"
    using \<open>m k = None\<close> by (intro sum.cong) auto
  ultimately show ?thesis by (simp add: msum_def domIff)
qed

lemma msum_upd:
  assumes "finite (dom m)" "m k = Some u"
  shows "msum f (m(k \<mapsto> v)) + f u = msum f m + f v"
proof -
  let ?rest = "\<Sum>x \<in> dom m - {k}. f (the (m x))"
  have k: "k \<in> dom m" using assms(2) by blast
  have "msum f m = f u + ?rest"
    unfolding msum_def sum.remove [OF assms(1) k] by (simp add: assms(2))
  moreover have "msum f (m(k \<mapsto> v)) = f v + ?rest"
    using k assms(1) by (simp add: msum_def insert_absorb sum.remove [OF assms(1) k])
  ultimately show ?thesis by simp
qed

lemma msum_ge: "finite (dom m) \<Longrightarrow> m k = Some v \<Longrightarrow> f v \<le> msum f m"
  using member_le_sum [of k "dom m" "\<lambda>k. f (the (m k))"] by (auto simp: msum_def)

lemma msum_list:
  assumes "hm_order ks m"
  shows "msum f m = sum_list (map f (hm_values ks m))"
proof -
  have "sum_list (map f (hm_values xs m)) = (\<Sum>k \<leftarrow> xs. f (the (m k)))" if "set xs \<subseteq> dom m" for xs
    using that by (induction xs) auto
  then show ?thesis using assms by (simp add: msum_def hm_order_def sum_list_distinct_conv_sum_set)
qed

lemma msum_drop:
  assumes "finite (dom m)" "dom m' = dom m" "S \<subseteq> dom m"
    and "\<And>k. k \<notin> S \<Longrightarrow> m' k = m k" and "\<And>k. k \<in> S \<Longrightarrow> f (the (m' k)) = 0"
  shows "msum f m' + (\<Sum>k \<in> S. f (the (m k))) = msum f m"
proof -
  have "msum f m = (\<Sum>k \<in> dom m - S. f (the (m k))) + (\<Sum>k \<in> S. f (the (m k)))"
    using sum.subset_diff [OF assms(3,1), of "\<lambda>k. f (the (m k))"] by (simp add: msum_def)
  moreover have "msum f m' = (\<Sum>k \<in> dom m - S. f (the (m' k))) + (\<Sum>k \<in> S. f (the (m' k)))"
    using sum.subset_diff [OF assms(3,1), of "\<lambda>k. f (the (m' k))"] assms(2) by (simp add: msum_def)
  moreover have "(\<Sum>k \<in> dom m - S. f (the (m' k))) = (\<Sum>k \<in> dom m - S. f (the (m k)))"
    using assms(4) by (intro sum.cong) auto
  ultimately show ?thesis using assms(5) by simp
qed

section \<open>Groups and their holdings\<close>

definition holds :: "string \<Rightarrow> JobGroup \<Rightarrow> bool" where
  "holds wid g \<longleftrightarrow> \<not> group_is_terminal (g_state g) \<and> g_reserved_worker_id g = Some wid"

definition same_holding :: "JobGroup \<Rightarrow> JobGroup \<Rightarrow> bool" where
  "same_holding g g' \<longleftrightarrow> group_is_terminal (g_state g') = group_is_terminal (g_state g)
     \<and> g_reserved_worker_id g' = g_reserved_worker_id g
     \<and> g_allocated_resources g' = g_allocated_resources g"

definition release_worker :: "string \<Rightarrow> AllocatedResources \<Rightarrow> WorkerRegistry \<Rightarrow> WorkerRegistry" where
  "release_worker wid ar wr =
     (if ar_cpu ar > 0 \<or> ar_memory_mb ar > 0 \<or> ar_disk_mb ar > 0
      then hm_modify wid (release (ar_cpu ar) (ar_memory_mb ar) (ar_disk_mb ar)) wr else wr)"

lemma same_holding_refl [simp]: "same_holding g g"
  by (simp add: same_holding_def)

lemma same_holding_holds: "same_holding g g' \<Longrightarrow> holds wid g' = holds wid g"
  by (simp add: same_holding_def holds_def)

lemma release_zero [simp]: "release 0 0 0 w = w"
  by (simp add: release_def)

lemma release_worker_apply:
  "release_worker wid ar wr k =
   (if k = wid then map_option (release (ar_cpu ar) (ar_memory_mb ar) (ar_disk_mb ar)) (wr k) else wr k)"
proof (cases "ar_cpu ar > 0 \<or> ar_memory_mb ar > 0 \<or> ar_disk_mb ar > 0")
  case False
  then have "ar_cpu ar = 0" "ar_memory_mb ar = 0" "ar_disk_mb ar = 0" by (auto simp: word_gt_0)
  then show ?thesis by (cases "wr wid") (simp_all add: release_worker_def)
qed (simp add: release_worker_def hm_modify_apply)

section \<open>The account of a resource\<close>

locale resource_account =
  fixes used :: "WorkerState \<Rightarrow> nat" and amount :: "AllocatedResources \<Rightarrow> nat"
  assumes used_release: "used (release (ar_cpu a) (ar_memory_mb a) (ar_disk_mb a) w) = used w - amount a"
begin

definition due :: "(uuid \<rightharpoonup> JobGroup) \<Rightarrow> string \<Rightarrow> nat" where
  "due gr wid = msum (\<lambda>g. if holds wid g then amount (g_allocated_resources g) else 0) gr"

definition balanced :: "WorkerRegistry \<Rightarrow> (uuid \<rightharpoonup> JobGroup) \<Rightarrow> bool" where
  "balanced wr gr \<longleftrightarrow> (\<forall>wid w. wr wid = Some w \<longrightarrow> used w = due gr wid)"

lemma due_grant:
  "finite (dom gr) \<Longrightarrow> gr gid = None \<Longrightarrow>
   due (gr(gid \<mapsto> g)) wid = due gr wid + (if holds wid g then amount (g_allocated_resources g) else 0)"
  by (simp add: due_def msum_upd_new)

lemma due_change:
  "finite (dom gr) \<Longrightarrow> gr gid = Some g \<Longrightarrow>
   due (gr(gid \<mapsto> g')) wid + (if holds wid g then amount (g_allocated_resources g) else 0)
   = due gr wid + (if holds wid g' then amount (g_allocated_resources g') else 0)"
  using msum_upd [of gr gid g "\<lambda>g. if holds wid g then amount (g_allocated_resources g) else 0" g']
  by (simp add: due_def)

lemma due_same:
  assumes "finite (dom gr)" "gr gid = Some g" "same_holding g g'"
  shows "due (gr(gid \<mapsto> g')) wid = due gr wid"
  using due_change [OF assms(1,2), of g' wid] same_holding_holds [OF assms(3), of wid] assms(3)
  by (auto simp: same_holding_def)

lemma due_settle:
  assumes "finite (dom gr)" "gr gid = Some g" "\<not> group_is_terminal (g_state g)" "group_is_terminal (g_state g')"
  shows "due (gr(gid \<mapsto> g')) wid
       = due gr wid - (if g_reserved_worker_id g = Some wid then amount (g_allocated_resources g) else 0)"
  using due_change [OF assms(1,2), of g' wid] assms(3,4) by (auto simp: holds_def)

lemma balanced_same:
  "finite (dom gr) \<Longrightarrow> gr gid = Some g \<Longrightarrow> same_holding g g' \<Longrightarrow> balanced wr gr \<Longrightarrow> balanced wr (gr(gid \<mapsto> g'))"
  by (simp add: balanced_def due_same)

lemma balanced_workers:
  "balanced wr gr \<Longrightarrow> (\<And>k w. wr' k = Some w \<Longrightarrow> \<exists>w0. wr k = Some w0 \<and> used w = used w0) \<Longrightarrow> balanced wr' gr"
  by (fastforce simp: balanced_def)

lemma balanced_grant:
  assumes "balanced wr gr" "finite (dom gr)" "gr gid = None"
    and "wr wid = Some w" "used w' = used w + amount (g_allocated_resources g)"
    and "\<not> group_is_terminal (g_state g)" "g_reserved_worker_id g = Some wid"
  shows "balanced (wr(wid \<mapsto> w')) (gr(gid \<mapsto> g))"
proof -
  have "used x = due (gr(gid \<mapsto> g)) k" if "(wr(wid \<mapsto> w')) k = Some x" for k x
    unfolding due_grant [OF assms(2,3)] using that assms(1,4-7)
    by (auto simp: balanced_def holds_def split: if_splits)
  then show ?thesis by (simp add: balanced_def)
qed

lemma due_list:
  assumes "hm_order gs gr"
  shows "due gr wid = sum_list (map (\<lambda>g. amount (g_allocated_resources g)) (filter (holds wid) (hm_values gs gr)))"
  unfolding due_def msum_list [OF assms] by (simp add: sum_list_map_filter' if_distrib)

text \<open>A group that ends and gives its share back.\<close>

lemma balanced_settle:
  assumes "balanced wr gr" "finite (dom gr)" "gr gid = Some g"
    and "\<not> group_is_terminal (g_state g)" "group_is_terminal (g_state g')"
    and wr': "wr' = (case g_reserved_worker_id g of
                Some wid \<Rightarrow> release_worker wid (g_allocated_resources g) wr | None \<Rightarrow> wr)"
  shows "balanced wr' (gr(gid \<mapsto> g'))"
proof -
  have "used x = due (gr(gid \<mapsto> g')) k" if "wr' k = Some x" for k x
    unfolding due_settle [OF assms(2-5)] using that assms(1)
    by (auto simp: wr' balanced_def release_worker_apply used_release split: option.splits if_splits)
  then show ?thesis by (simp add: balanced_def)
qed

end

interpretation cpu_account: resource_account "\<lambda>w. unat (ws_allocated_cpu w)" "\<lambda>a. unat (ar_cpu a)"
  by unfold_locales (simp add: release_def sat_simps)

interpretation memory_account: resource_account "\<lambda>w. unat (ws_allocated_memory_mb w)" "\<lambda>a. unat (ar_memory_mb a)"
  by unfold_locales (simp add: release_def sat_simps)

section \<open>Balanced controllers\<close>

text \<open>Every registered worker's counters equal the sum over the unfinished groups reserved on
  it; the group map is finite and keyed by the groups' ids.\<close>

definition accounts_ok :: "ControllerState \<Rightarrow> bool" where
  "accounts_ok cs \<longleftrightarrow> finite (dom (gr_groups (cs_groups cs))) \<and> groups.well_keyed (cs_groups cs)
     \<and> cpu_account.balanced (cs_workers cs) (gr_groups (cs_groups cs))
     \<and> memory_account.balanced (cs_workers cs) (gr_groups (cs_groups cs))"

lemma accounts_okD:
  assumes "accounts_ok cs"
  shows "finite (dom (gr_groups (cs_groups cs)))" "groups.well_keyed (cs_groups cs)"
    "cpu_account.balanced (cs_workers cs) (gr_groups (cs_groups cs))"
    "memory_account.balanced (cs_workers cs) (gr_groups (cs_groups cs))"
  using assms by (simp_all add: accounts_ok_def)

lemma accounts_ok_cong:
  "cs_workers cs' = cs_workers cs \<Longrightarrow> gr_groups (cs_groups cs') = gr_groups (cs_groups cs) \<Longrightarrow>
   accounts_ok cs' = accounts_ok cs"
  by (simp add: accounts_ok_def groups.well_keyed_def)

lemma accounts_ok_same:
  assumes "accounts_ok cs" "gr_groups (cs_groups cs) gid = Some g" "same_holding g g'" "g_id g' = g_id g"
    and "cs_workers cs' = cs_workers cs" "gr_groups (cs_groups cs') = (gr_groups (cs_groups cs))(gid \<mapsto> g')"
  shows "accounts_ok cs'"
  using assms cpu_account.balanced_same memory_account.balanced_same
  by (auto simp: accounts_ok_def groups.well_keyed_def)

lemma accounts_ok_workers:
  assumes "accounts_ok cs" "gr_groups (cs_groups cs') = gr_groups (cs_groups cs)"
    and "\<And>k w'. cs_workers cs' k = Some w' \<Longrightarrow> \<exists>w. cs_workers cs k = Some w \<and>
           ws_allocated_cpu w' = ws_allocated_cpu w \<and> ws_allocated_memory_mb w' = ws_allocated_memory_mb w"
  shows "accounts_ok cs'"
proof -
  note ok = accounts_okD [OF assms(1)]
  have "cpu_account.balanced (cs_workers cs') (gr_groups (cs_groups cs'))"
    unfolding assms(2) by (rule cpu_account.balanced_workers [OF ok(3)]) (use assms(3) in fastforce)
  moreover have "memory_account.balanced (cs_workers cs') (gr_groups (cs_groups cs'))"
    unfolding assms(2) by (rule memory_account.balanced_workers [OF ok(4)]) (use assms(3) in fastforce)
  ultimately show ?thesis using ok(1,2) assms(2) by (simp add: accounts_ok_def groups.well_keyed_def)
qed

lemma accounts_ok_settle:
  assumes "accounts_ok cs" "gr_groups (cs_groups cs) gid = Some g"
    and "\<not> group_is_terminal (g_state g)" "group_is_terminal (g_state g')" "g_id g' = g_id g"
    and "cs_workers cs' = (case g_reserved_worker_id g of
           Some wid \<Rightarrow> release_worker wid (g_allocated_resources g) (cs_workers cs) | None \<Rightarrow> cs_workers cs)"
    and "gr_groups (cs_groups cs') = (gr_groups (cs_groups cs))(gid \<mapsto> g')"
  shows "accounts_ok cs'"
proof -
  note ok = accounts_okD [OF assms(1)]
  have "cpu_account.balanced (cs_workers cs') (gr_groups (cs_groups cs'))"
    unfolding assms(7) by (rule cpu_account.balanced_settle [OF ok(3) ok(1) assms(2-4,6)])
  moreover have "memory_account.balanced (cs_workers cs') (gr_groups (cs_groups cs'))"
    unfolding assms(7) by (rule memory_account.balanced_settle [OF ok(4) ok(1) assms(2-4,6)])
  ultimately show ?thesis using assms by (auto simp: accounts_ok_def groups.well_keyed_def)
qed

lemma accounts_ok_grant:
  assumes "accounts_ok cs" "gr_groups (cs_groups cs) (g_id g) = None" "cs_workers cs wid = Some w"
    and "unat (ws_allocated_cpu w') = unat (ws_allocated_cpu w) + unat (ar_cpu (g_allocated_resources g))"
    and "unat (ws_allocated_memory_mb w') = unat (ws_allocated_memory_mb w) + unat (ar_memory_mb (g_allocated_resources g))"
    and "\<not> group_is_terminal (g_state g)" "g_reserved_worker_id g = Some wid"
    and "cs_workers cs' = (cs_workers cs)(wid \<mapsto> w')"
    and "gr_groups (cs_groups cs') = (gr_groups (cs_groups cs))(g_id g \<mapsto> g)"
  shows "accounts_ok cs'"
proof -
  note ok = accounts_okD [OF assms(1)]
  have "cpu_account.balanced (cs_workers cs') (gr_groups (cs_groups cs'))"
    unfolding assms(8,9) by (rule cpu_account.balanced_grant [OF ok(3) ok(1) assms(2,3,4,6,7)])
  moreover have "memory_account.balanced (cs_workers cs') (gr_groups (cs_groups cs'))"
    unfolding assms(8,9) by (rule memory_account.balanced_grant [OF ok(4) ok(1) assms(2,3,5,6,7)])
  ultimately show ?thesis using ok assms(9) by (auto simp: accounts_ok_def groups.well_keyed_def)
qed

section \<open>Steps of the accounts\<close>

text \<open>\<open>settles cs gid g cs'\<close>: the unfinished group ends and gives its share back.\<close>

definition settles :: "ControllerState \<Rightarrow> uuid \<Rightarrow> JobGroup \<Rightarrow> ControllerState \<Rightarrow> bool" where
  "settles cs gid g cs' \<longleftrightarrow> gr_groups (cs_groups cs) gid = Some g \<and> \<not> group_is_terminal (g_state g)
     \<and> (\<exists>g'. gr_groups (cs_groups cs') = (gr_groups (cs_groups cs))(gid \<mapsto> g') \<and> group_is_terminal (g_state g')
           \<and> g_id g' = g_id g)
     \<and> cs_workers cs' = (case g_reserved_worker_id g of
           Some wid \<Rightarrow> release_worker wid (g_allocated_resources g) (cs_workers cs) | None \<Rightarrow> cs_workers cs)"

definition keeps_holdings :: "ControllerState \<Rightarrow> ControllerState \<Rightarrow> bool" where
  "keeps_holdings cs cs' \<longleftrightarrow> cs_workers cs' = cs_workers cs
     \<and> (\<forall>k. case gr_groups (cs_groups cs) k of
              None \<Rightarrow> gr_groups (cs_groups cs') k = None
            | Some g \<Rightarrow> \<exists>g'. gr_groups (cs_groups cs') k = Some g' \<and> same_holding g g' \<and> g_id g' = g_id g)"

lemma accounts_ok_settles: "accounts_ok cs \<Longrightarrow> settles cs gid g cs' \<Longrightarrow> accounts_ok cs'"
  by (auto simp: settles_def intro: accounts_ok_settle)

lemma keeps_holdings_refl [simp]:
  "cs_workers cs' = cs_workers cs \<Longrightarrow> gr_groups (cs_groups cs') = gr_groups (cs_groups cs) \<Longrightarrow> keeps_holdings cs cs'"
  by (auto simp: keeps_holdings_def split: option.split)

lemma keeps_holdings_dom:
  assumes "keeps_holdings cs cs'"
  shows "dom (gr_groups (cs_groups cs')) = dom (gr_groups (cs_groups cs))"
proof -
  have "gr_groups (cs_groups cs') k = None \<longleftrightarrow> gr_groups (cs_groups cs) k = None" for k
    using assms by (auto simp: keeps_holdings_def split: option.splits dest!: spec [of _ k])
  then show ?thesis by (simp add: dom_def)
qed

lemma accounts_ok_keeps:
  assumes "accounts_ok cs" "keeps_holdings cs cs'"
  shows "accounts_ok cs'"
proof -
  have g: "\<exists>g'. gr_groups (cs_groups cs') k = Some g' \<and> same_holding g g' \<and> g_id g' = g_id g"
    if "gr_groups (cs_groups cs) k = Some g" for k g
    using assms(2) that by (auto simp: keeps_holdings_def dest!: spec [of _ k])
  have eq: "msum (\<lambda>g. if holds wid g then f (g_allocated_resources g) else 0) (gr_groups (cs_groups cs'))
          = msum (\<lambda>g. if holds wid g then f (g_allocated_resources g) else 0) (gr_groups (cs_groups cs))" for wid f
    unfolding msum_def keeps_holdings_dom [OF assms(2)]
  proof (rule sum.cong [OF refl])
    fix k assume "k \<in> dom (gr_groups (cs_groups cs))"
    then obtain x where x: "gr_groups (cs_groups cs) k = Some x" by blast
    from g [OF x] obtain x' where x': "gr_groups (cs_groups cs') k = Some x'" "same_holding x x'" by blast
    from same_holding_holds [OF x'(2), of wid] x'(2) show "(if holds wid (the (gr_groups (cs_groups cs') k))
         then f (g_allocated_resources (the (gr_groups (cs_groups cs') k))) else 0)
       = (if holds wid (the (gr_groups (cs_groups cs) k)) then f (g_allocated_resources (the (gr_groups (cs_groups cs) k))) else 0)"
      by (simp add: x x'(1) same_holding_def)
  qed
  have keyed: "groups.well_keyed (cs_groups cs')"
    unfolding groups.well_keyed_def
  proof (intro allI impI)
    fix k v assume v: "gr_groups (cs_groups cs') k = Some v"
    then obtain x where x: "gr_groups (cs_groups cs) k = Some x" using keeps_holdings_dom [OF assms(2)] by blast
    with g [OF x] v accounts_okD(2) [OF assms(1)] show "g_id v = k" by (auto simp: groups.well_keyed_def)
  qed
  show ?thesis
    using accounts_okD [OF assms(1)] keyed keeps_holdings_dom [OF assms(2)] assms(2) [unfolded keeps_holdings_def]
    by (simp add: accounts_ok_def cpu_account.balanced_def memory_account.balanced_def cpu_account.due_def
        memory_account.due_def eq [where f = "\<lambda>a. unat (ar_cpu a)"] eq [where f = "\<lambda>a. unat (ar_memory_mb a)"])
qed

lemma accounts_ok_sample: "accounts_ok sample_cs"
  by (simp add: accounts_ok_def cpu_account.balanced_def memory_account.balanced_def cpu_account.due_def
      memory_account.due_def msum_def groups.well_keyed_def JobGroupRegistry_new_def WorkerState_new_def)

end
