(* ===== verification/Reserve.thy ===== *)
theory Reserve
  imports Dispatch Accounts
begin

text \<open>
  Worker reservation (\<open>grpc_server.rs\<close>, \<open>compute_resource_needs\<close> and \<open>do_reserve_worker\<close>):
  the stages a request may use, the resources they need, the choice of a worker, and the
  checks that run after the worker's resources have been allocated.  One definition per
  block of the handler; \<open>group_id\<close> and \<open>fresh_repo\<close> are the random uuids it draws and
  \<open>now\<close> is the clock.  The handler takes its locks one after another; \<open>pick_worker\<close> is
  stated for any list of candidates and any registry, so that its lemmas hold whatever happened
  between the snapshot of the candidates and the allocation.
\<close>

section \<open>Messages\<close>

record ReserveWorkerRequest =
  rr_repo_name :: string
  rr_repo_url :: string
  rr_branch :: string
  rr_commit_sha :: string
  rr_stages :: "string list"
  rr_priority :: int
  rr_idempotency_key :: string

record StageInfo =
  si_stage_name :: string
  si_command :: string
  si_required_cpu :: int
  si_required_memory_mb :: int
  si_required_disk_mb :: int
  si_max_duration_secs :: int
  si_parallel_group :: string
  si_job_type :: string
  si_depends_on :: "string list"

record ReserveWorkerResponse =
  rw_job_group_id :: string
  rw_worker_id :: string
  rw_stages :: "StageInfo list"
  rw_success :: bool
  rw_message :: string

section \<open>Resources\<close>

definition query_or :: "'a \<Rightarrow> 'a query \<Rightarrow> 'a" where
  "query_or d q = (case q of Inr v \<Rightarrow> v | Inl _ \<Rightarrow> d)"

definition max_or_zero :: "'a::{linorder,zero} list \<Rightarrow> 'a" where
  "max_or_zero xs = (if xs = [] then 0 else Max (set xs))"

definition needs_of :: "StageConfig list \<Rightarrow> resource_request" where
  "needs_of relevant =
     (max_or_zero (map (\<lambda>s. word_of_int (max 0 (sc_required_cpu s))) relevant),
      max_or_zero (map (\<lambda>s. word_of_int (max 0 (sc_required_memory_mb s))) relevant),
      max_or_zero (map (\<lambda>s. word_of_int (max 0 (sc_required_disk_mb s))) relevant))"

definition compute_resource_needs :: "Env \<Rightarrow> ReserveWorkerRequest \<Rightarrow> resource_request" where
  "compute_resource_needs env req =
     (case env_storage env of
        None \<Rightarrow> (0, 0, 0)
      | Some storage \<Rightarrow>
          (case st_repo_by_name storage (rr_repo_name req) of
             Inr (Some repo) \<Rightarrow>
               (let stage_configs = query_or [] (st_stage_configs storage (rp_id repo));
                    relevant = (if rr_stages req = [] then stage_configs
                                else filter (\<lambda>s. sc_stage_name s \<in> set (rr_stages req)) stage_configs)
                in if relevant = [] then (0, 0, 0) else needs_of relevant)
           | _ \<Rightarrow> (0, 0, 0)))"

section \<open>Validation\<close>

text \<open>The repo's id, its limit of concurrent builds and its supersede flag; no value when the
  repo does not exist.\<close>

definition repo_of :: "Env \<Rightarrow> uuid \<Rightarrow> string \<Rightarrow> (uuid \<times> int \<times> bool) option" where
  "repo_of env fresh_repo repo_name =
     (case env_storage env of
        None \<Rightarrow> Some (fresh_repo, 0, False)
      | Some storage \<Rightarrow>
          (case st_repo_by_name storage repo_name of
             Inr (Some repo) \<Rightarrow> Some (rp_id repo, rp_max_concurrent_builds repo, rp_cancel_superseded repo)
           | Inr None \<Rightarrow> None
           | Inl _ \<Rightarrow> Some (fresh_repo, 0, False)))"

definition split_stages :: "Env \<Rightarrow> uuid \<Rightarrow> string list \<Rightarrow> string list \<times> string list" where
  "split_stages env repo_id stages =
     (if stages = [] then ([], [])
      else case env_storage env of
        Some storage \<Rightarrow>
          (let known = set (map sc_stage_name (query_or [] (st_stage_configs storage repo_id)))
           in partition (\<lambda>s. s \<in> known) (filter (\<lambda>s. s \<noteq> []) stages))
      | None \<Rightarrow> (stages, []))"

definition stage_deps_of :: "Env \<Rightarrow> uuid \<Rightarrow> deps" where
  "stage_deps_of env repo_id =
     (case env_storage env of
        Some storage \<Rightarrow> query_or Map.empty (st_stage_dependencies storage repo_id)
      | None \<Rightarrow> Map.empty)"

definition build_stage_info :: "deps \<Rightarrow> string \<Rightarrow> StageInfo" where
  "build_stage_info stage_deps name =
     \<lparr> si_stage_name = name, si_command = [], si_required_cpu = 0, si_required_memory_mb = 0,
       si_required_disk_mb = 0, si_max_duration_secs = 0, si_parallel_group = [], si_job_type = ''common'',
       si_depends_on = unwrap_or [] (stage_deps name) \<rparr>"

definition no_reservation :: "bool \<Rightarrow> string \<Rightarrow> ReserveWorkerResponse" where
  "no_reservation success msg =
     \<lparr> rw_job_group_id = [], rw_worker_id = [], rw_stages = [], rw_success = success, rw_message = msg \<rparr>"

text \<open>The existing group for the idempotency key, when its worker is still connected.\<close>

definition idempotent_group :: "Env \<Rightarrow> ReserveWorkerRequest \<Rightarrow> WorkerRegistry \<Rightarrow> JobGroup option" where
  "idempotent_group env req wr =
     (if rr_idempotency_key req = [] then None
      else case env_storage env of None \<Rightarrow> None | Some storage \<Rightarrow>
        (case st_find_by_idempotency_key storage (rr_idempotency_key req) of
           Inr (Some existing) \<Rightarrow>
             (case Option.bind (g_reserved_worker_id existing) wr of
                Some w \<Rightarrow> if ws_status w = Connected then Some existing else None
              | None \<Rightarrow> None)
         | _ \<Rightarrow> None))"

section \<open>Choosing a worker\<close>

definition has_resource_req :: "resource_request \<Rightarrow> bool" where
  "has_resource_req = (\<lambda>(c, m, d). c > 0 \<or> m > 0 \<or> d > 0)"

definition has_room :: "resource_request \<Rightarrow> WorkerState \<Rightarrow> bool" where
  "has_room needs w \<longleftrightarrow>
     (if \<not> has_resource_req needs then True
      else case needs of (c, m, d) \<Rightarrow>
        available_cpu w \<ge> c \<and> available_memory_mb w \<ge> m \<and> free_disk_mb w \<ge> d)"

definition free_sum :: "WorkerState \<Rightarrow> u64" where
  "free_sum w = ucast (available_cpu w) + available_memory_mb w + free_disk_mb w"

definition cmp_candidates :: "WorkerRegistry \<Rightarrow> string \<Rightarrow> string \<Rightarrow> ordering" where
  "cmp_candidates wr a b =
     (let pri = (\<lambda>x. unwrap_or 0 (map_option (\<lambda>w. wi_priority (ws_info w)) (wr x)));
          free = (\<lambda>x. unwrap_or 0 (map_option free_sum (wr x)))
      in then_with (cmp_ord (pri b) (pri a)) (cmp_ord (free b) (free a)))"

fun pick_worker :: "resource_request \<Rightarrow> string list \<Rightarrow> WorkerRegistry \<Rightarrow> string option \<times> WorkerRegistry" where
  "pick_worker needs [] wr = (None, wr)"
| "pick_worker needs (wid # ids) wr =
     (case wr wid of
        None \<Rightarrow> pick_worker needs ids wr
      | Some w \<Rightarrow>
          if \<not> has_resource_req needs then (Some wid, wr)
          else case take_resources needs w of
            (True, w') \<Rightarrow> (Some wid, wr(wid \<mapsto> w'))
          | (False, w') \<Rightarrow> pick_worker needs ids (wr(wid \<mapsto> w')))"

definition select_and_allocate ::
  "Env \<Rightarrow> resource_request \<Rightarrow> WorkerRegistry \<Rightarrow> string + string \<times> WorkerRegistry" where
  "select_and_allocate env needs wr =
     (let connected = connected_workers (env_worker_order env wr) wr
      in if connected = [] then Inl ''No connected workers available''
         else
           let candidate_ids = map (\<lambda>w. wi_worker_id (ws_info w)) (filter (has_room needs) connected)
           in if candidate_ids = [] then Inl ''No workers with sufficient resources available''
              else case pick_worker needs (sort_by (cmp_candidates wr) candidate_ids) wr of
                (Some wid, wr') \<Rightarrow> Inr (wid, wr')
              | (None, _) \<Rightarrow> Inl ''No workers with sufficient resources available'')"

section \<open>Checks after the allocation\<close>

definition branch_blacklisted :: "Env \<Rightarrow> string \<Rightarrow> string \<Rightarrow> bool" where
  "branch_blacklisted env branch worker_id =
     (case env_storage env of
        None \<Rightarrow> False
      | Some storage \<Rightarrow>
          branch \<noteq> [] \<and>
          list_ex (\<lambda>pattern. case env_regex env pattern of Some is_match \<Rightarrow> is_match branch | None \<Rightarrow> False)
            (query_or [] (st_branch_blacklist storage worker_id)))"

definition max_builds_reached :: "int \<Rightarrow> Status" where
  "max_builds_reached max_concurrent =
     Status ResourceExhausted (''Max concurrent builds ('' @ int_to_dec max_concurrent @ '') reached for repo'')"

definition enforce_concurrency ::
  "Env \<Rightarrow> uuid \<Rightarrow> int \<Rightarrow> bool \<Rightarrow> string \<Rightarrow> uuid \<Rightarrow> unit handler" where
  "enforce_concurrency env repo_id max_concurrent cancel_superseded branch group_id cs =
     (if max_concurrent \<le> 0 then (Inr (), cs)
      else case env_storage env of None \<Rightarrow> (Inr (), cs) | Some storage \<Rightarrow>
        (let active = query_or 0 (st_count_active_groups storage (cs_effects cs) repo_id)
         in if active < max_concurrent then (Inr (), cs)
            else if cancel_superseded \<and> branch \<noteq> [] then
              let superseded = query_or [] (st_find_superseded storage repo_id branch group_id);
                  cs = fold (\<lambda>gid. emit (DbUpdateGroupState gid GCancelled
                              (Some ''Superseded by newer build on same branch''))) superseded cs;
                  new_count = query_or active (st_count_active_groups storage (cs_effects cs) repo_id)
              in if new_count \<ge> max_concurrent then (Inl (max_builds_reached max_concurrent), cs)
                 else (Inr (), cs)
            else (Inl (max_builds_reached max_concurrent), cs)))"

definition check_dag :: "Env \<Rightarrow> deps \<Rightarrow> Status + unit" where
  "check_dag env stage_deps =
     (case validate_dag (env_deps_order env stage_deps) (env_degree_order env stage_deps) stage_deps of
        Some (Inl cycle_node) \<Rightarrow>
          Inl (Status InvalidArgument (''Stage dependency cycle detected involving '' @ quoted cycle_node))
      | Some (Inr _) \<Rightarrow> Inr ()
      | None \<Rightarrow> Inl (Status Internal ''out of fuel''))"

definition nonempty :: "string \<Rightarrow> string option" where
  "nonempty s = (if s = [] then None else Some s)"

definition reserved_group ::
  "datetime \<Rightarrow> uuid \<Rightarrow> uuid \<Rightarrow> string \<Rightarrow> resource_request \<Rightarrow> string list \<Rightarrow> ReserveWorkerRequest \<Rightarrow> JobGroup" where
  "reserved_group now group_id repo_id worker_id needs effective_stages req =
     (JobGroup_new now group_id repo_id (nonempty (rr_branch req)) (nonempty (rr_commit_sha req)))
       \<lparr> g_id := group_id, g_reserved_worker_id := Some worker_id, g_state := GReserved,
         g_priority := rr_priority req, g_idempotency_key := nonempty (rr_idempotency_key req),
         g_allocated_resources := (case needs of (c, m, d) \<Rightarrow> \<lparr> ar_cpu = c, ar_memory_mb = m, ar_disk_mb = d \<rparr>),
         g_reserved_stages := effective_stages, g_updated_at := now \<rparr>"

section \<open>The handler\<close>

type_synonym reservation = "ReserveWorkerResponse \<times> string list"

text \<open>From the selected worker on: record the reservation, run the checks, create the group.\<close>

definition finish_reservation ::
  "Env \<Rightarrow> datetime \<Rightarrow> uuid \<Rightarrow> uuid \<times> int \<times> bool \<Rightarrow> string \<Rightarrow> resource_request
   \<Rightarrow> string list \<times> string list \<Rightarrow> ReserveWorkerRequest \<Rightarrow> reservation handler" where
  "finish_reservation env now group_id repo worker_id needs stages req cs =
     (let (repo_id, max_concurrent, cancel_superseded) = repo;
          (effective_stages, dropped_stages) = stages;
          stage_deps = stage_deps_of env repo_id;
          cs = emit_redis env (RedisReserve worker_id group_id (env_reservation_timeout_secs env)) cs
      in if branch_blacklisted env (rr_branch req) worker_id
         then (Inl (Status FailedPrecondition
                 (''Branch '' @ quoted (rr_branch req) @ '' is blacklisted on worker '' @ quoted worker_id)), cs)
         else
           case enforce_concurrency env repo_id max_concurrent cancel_superseded (rr_branch req) group_id cs of
             (Inl e, cs) \<Rightarrow> (Inl e, cs)
           | (Inr _, cs) \<Rightarrow>
               (case check_dag env stage_deps of
                  Inl e \<Rightarrow> (Inl e, cs)
                | Inr _ \<Rightarrow>
                    let group = reserved_group now group_id repo_id worker_id needs effective_stages req;
                        cs = emit_db env (DbCreateGroup group) cs;
                        cs = map_groups (add_group group) cs;
                        cs = map_metrics (inc_active_builds \<circ> inc_worker_reservations) cs;
                        msg = (if dropped_stages = [] then ''Worker reserved successfully''
                               else ''Worker reserved successfully. Skipped (not configured for repo ''
                                 @ quoted (rr_repo_name req) @ ''): '' @ str_join '', '' dropped_stages)
                    in (Inr (\<lparr> rw_job_group_id = group_id, rw_worker_id = worker_id,
                               rw_stages = map (build_stage_info stage_deps) effective_stages,
                               rw_success = True, rw_message = msg \<rparr>, dropped_stages), cs)))"

definition do_reserve_worker ::
  "Env \<Rightarrow> datetime \<Rightarrow> uuid \<Rightarrow> uuid \<Rightarrow> ReserveWorkerRequest \<Rightarrow> reservation handler" where
  "do_reserve_worker env now group_id fresh_repo req cs =
     (case repo_of env fresh_repo (rr_repo_name req) of
        None \<Rightarrow>
          (Inr (no_reservation False (''Repo '' @ quoted (rr_repo_name req) @ '' not found ''
                  @ [CHR 0xE2, CHR 0x80, CHR 0x94] @ '' create it in the DB first''), []), cs)
      | Some (repo_id, max_concurrent, cancel_superseded) \<Rightarrow>
          (let (effective_stages, dropped_stages) = split_stages env repo_id (rr_stages req)
           in if rr_stages req \<noteq> [] \<and> effective_stages = [] then
                (Inr (no_reservation True (''No configured stages for repo '' @ quoted (rr_repo_name req)
                        @ ''. Skipped: '' @ str_join '', '' dropped_stages), dropped_stages), cs)
              else
                case idempotent_group env req (cs_workers cs) of
                  Some existing \<Rightarrow>
                    (Inr (\<lparr> rw_job_group_id = g_id existing,
                            rw_worker_id = unwrap_or [] (g_reserved_worker_id existing),
                            rw_stages = map (build_stage_info (stage_deps_of env repo_id)) effective_stages,
                            rw_success = True,
                            rw_message = ''Existing active group returned (idempotency key match)'' \<rparr>,
                          dropped_stages), cs)
                | None \<Rightarrow>
                    let needs = compute_resource_needs env req
                    in case select_and_allocate env needs (cs_workers cs) of
                         Inl msg \<Rightarrow> (Inr (no_reservation False msg, []), cs)
                       | Inr (worker_id, wr) \<Rightarrow>
                           finish_reservation env now group_id (repo_id, max_concurrent, cancel_superseded)
                             worker_id needs (effective_stages, dropped_stages) req (map_workers (\<lambda>_. wr) cs)))"

section \<open>The choice\<close>

definition grants :: "resource_request \<Rightarrow> WorkerRegistry \<Rightarrow> string \<Rightarrow> bool" where
  "grants needs wr wid \<longleftrightarrow>
     (case wr wid of None \<Rightarrow> False | Some w \<Rightarrow> \<not> has_resource_req needs \<or> fst (take_resources needs w))"

definition take_if_needed :: "resource_request \<Rightarrow> WorkerState \<Rightarrow> WorkerState" where
  "take_if_needed needs w = (if has_resource_req needs then snd (take_resources needs w) else w)"

text \<open>The loop takes the first candidate that grants the request, and only that one changes.\<close>

lemma pick_worker_find:
  "pick_worker needs ids wr =
   (case List.find (grants needs wr) ids of
      None \<Rightarrow> (None, wr)
    | Some wid \<Rightarrow> (Some wid, wr(wid \<mapsto> take_if_needed needs (the (wr wid)))))"
proof (induction ids arbitrary: wr)
  case (Cons wid ids)
  show ?case
  proof (cases "wr wid")
    case (Some w)
    obtain ok w' where tk: "take_resources needs w = (ok, w')" by (cases "take_resources needs w")
    show ?thesis
    proof (cases ok)
      case True
      with Some tk show ?thesis by (simp add: grants_def take_if_needed_def map_upd_triv)
    next
      case False
      with tk have "w' = w" by (cases needs) (auto simp: take_resources_def dest: allocate_refused)
      then have "wr(wid \<mapsto> w') = wr" using Some by (simp add: map_upd_triv)
      moreover have "grants needs wr wid = (\<not> has_resource_req needs)" using Some tk False by (simp add: grants_def)
      ultimately show ?thesis using Some tk False Cons.IH [of wr]
        by (simp add: take_if_needed_def map_upd_triv)
    qed
  qed (simp add: Cons grants_def)
qed simp

interpretation candidate_order: comparator "cmp_candidates wr" UNIV for wr
proof -
  let ?pri = "\<lambda>x. unwrap_or 0 (map_option (\<lambda>w. wi_priority (ws_info w)) (wr x))"
  let ?free = "\<lambda>x. unwrap_or 0 (map_option free_sum (wr x))"
  have ng: "cmp_candidates wr a b \<noteq> Greater \<longleftrightarrow> ?pri b < ?pri a \<or> (?pri a = ?pri b \<and> ?free b \<le> ?free a)" for a b
    by (auto simp: cmp_candidates_def Let_def then_with_not_Greater)
  show "comparator (cmp_candidates wr) UNIV"
  proof unfold_locales
    show "cmp_candidates wr x y = Greater \<Longrightarrow> cmp_candidates wr y x \<noteq> Greater" for x y
      using ng [of x y] ng [of y x] by (cases "?free x \<le> ?free y") auto
    show "cmp_candidates wr x y \<noteq> Greater \<Longrightarrow> cmp_candidates wr y z \<noteq> Greater \<Longrightarrow> cmp_candidates wr x z \<noteq> Greater" for x y z
      unfolding ng by auto
    show "cmp_candidates wr x x \<noteq> Greater" for x
      by (simp add: ng)
  qed
qed

lemma cmp_candidates_not_Greater:
  "wr a = Some v \<Longrightarrow> wr b = Some w \<Longrightarrow> cmp_candidates wr a b \<noteq> Greater \<longleftrightarrow>
   wi_priority (ws_info w) < wi_priority (ws_info v)
   \<or> (wi_priority (ws_info v) = wi_priority (ws_info w) \<and> free_sum w \<le> free_sum v)"
  by (auto simp: cmp_candidates_def Let_def then_with_not_Greater unwrap_or_def)

definition eligible :: "resource_request \<Rightarrow> WorkerRegistry \<Rightarrow> string \<Rightarrow> bool" where
  "eligible needs wr wid \<longleftrightarrow>
     (\<exists>w. wr wid = Some w \<and> ws_status w = Connected \<and> has_room needs w) \<and> grants needs wr wid"

lemma select_and_allocate_best:
  assumes keyed: "workers.well_keyed wr" and order: "hm_order (env_worker_order env wr) wr"
    and sel: "select_and_allocate env needs wr = Inr (wid, wr')"
  shows "\<exists>w. wr wid = Some w \<and> wr' = wr(wid \<mapsto> take_if_needed needs w) \<and> eligible needs wr wid
     \<and> (\<forall>k x. eligible needs wr k \<longrightarrow> wr k = Some x \<longrightarrow>
          wi_priority (ws_info x) < wi_priority (ws_info w)
          \<or> (wi_priority (ws_info w) = wi_priority (ws_info x) \<and> free_sum x \<le> free_sum w))"
proof -
  let ?ids = "map (\<lambda>w. wi_worker_id (ws_info w))
      (filter (has_room needs) (connected_workers (env_worker_order env wr) wr))"
  have find: "List.find (grants needs wr) (sort_by (cmp_candidates wr) ?ids) = Some wid"
    and wr': "wr' = wr(wid \<mapsto> take_if_needed needs (the (wr wid)))"
    using sel by (auto simp: select_and_allocate_def Let_def pick_worker_find split: if_splits option.splits prod.splits)
  have ids: "k \<in> set ?ids \<longleftrightarrow> (\<exists>w. wr k = Some w \<and> ws_status w = Connected \<and> has_room needs w)" for k
    using set_hm_values_order [OF order] keyed
    by (auto simp: connected_workers_def workers.well_keyed_def ran_def image_iff)
  from find_mem [OF find] obtain w where w: "wr wid = Some w" "eligible needs wr wid"
    using ids [of wid] by (auto simp: eligible_def)
  have "cmp_candidates wr wid k \<noteq> Greater" if "eligible needs wr k" for k
    using candidate_order.find_least [OF subset_UNIV find, of k] that ids [of k] by (auto simp: eligible_def)
  with w wr' show ?thesis
    using cmp_candidates_not_Greater [where wr = wr and a = wid and v = w] by auto
qed

lemma select_and_allocate_shape:
  "select_and_allocate env needs wr = Inr (wid, wr') \<Longrightarrow>
   \<exists>w. wr wid = Some w \<and> grants needs wr wid \<and> wr' = wr(wid \<mapsto> take_if_needed needs w)"
proof -
  assume "select_and_allocate env needs wr = Inr (wid, wr')"
  then have "List.find (grants needs wr) (sort_by (cmp_candidates wr) (map (\<lambda>w. wi_worker_id (ws_info w))
      (filter (has_room needs) (connected_workers (env_worker_order env wr) wr)))) = Some wid"
    and wr': "wr' = wr(wid \<mapsto> take_if_needed needs (the (wr wid)))"
    by (auto simp: select_and_allocate_def Let_def pick_worker_find split: if_splits option.splits prod.splits)
  from find_mem [OF this(1)] wr' show ?thesis by (auto simp: grants_def split: option.splits)
qed

section \<open>The handler's outcomes\<close>

lemma fold_emit_frame [simp]:
  "cs_workers (fold (\<lambda>x. emit (f x)) xs cs) = cs_workers cs" "cs_jobs (fold (\<lambda>x. emit (f x)) xs cs) = cs_jobs cs"
  "cs_groups (fold (\<lambda>x. emit (f x)) xs cs) = cs_groups cs" "cs_metrics (fold (\<lambda>x. emit (f x)) xs cs) = cs_metrics cs"
  by (induction xs arbitrary: cs) simp_all

lemma enforce_concurrency_frame:
  assumes "enforce_concurrency env r m sp b gid cs = (x, cs')"
  shows "cs_workers cs' = cs_workers cs \<and> cs_groups cs' = cs_groups cs \<and> cs_metrics cs' = cs_metrics cs
    \<and> cs_jobs cs' = cs_jobs cs"
  using assms by (auto simp: enforce_concurrency_def Let_def split: if_splits option.splits)

lemma finish_reservation_outcome:
  assumes "finish_reservation env now gid (repo_id, mx, sp) wid needs (eff, dropped) req cs = (x, cs')"
  shows "cs_workers cs' = cs_workers cs"
    and "case x of
           Inl e \<Rightarrow> cs_groups cs' = cs_groups cs \<and> cs_metrics cs' = cs_metrics cs
         | Inr (resp, d) \<Rightarrow> rw_job_group_id resp = gid \<and> rw_worker_id resp = wid \<and> rw_success resp \<and> d = dropped
             \<and> cs_groups cs' = add_group (reserved_group now gid repo_id wid needs eff req) (cs_groups cs)
             \<and> cs_metrics cs' = inc_active_builds (inc_worker_reservations (cs_metrics cs))"
  using assms
  by (auto simp: finish_reservation_def Let_def simp del: append.simps
      dest!: enforce_concurrency_frame split: if_splits prod.splits sum.splits)

lemma do_reserve_cases:
  assumes "do_reserve_worker env now gid fresh req cs = (x, cs')"
  obtains (nothing) resp where "x = Inr resp" "cs' = cs"
  | (selected) repo_id mx sp eff dropped wid wr where
      "repo_of env fresh (rr_repo_name req) = Some (repo_id, mx, sp)"
      "split_stages env repo_id (rr_stages req) = (eff, dropped)"
      "select_and_allocate env (compute_resource_needs env req) (cs_workers cs) = Inr (wid, wr)"
      "finish_reservation env now gid (repo_id, mx, sp) wid (compute_resource_needs env req) (eff, dropped) req
         (map_workers (\<lambda>_. wr) cs) = (x, cs')"
  using assms
  by (auto simp: do_reserve_worker_def Let_def simp del: append.simps
      split: if_splits prod.splits sum.splits option.splits)

definition counters_fit :: "resource_request \<Rightarrow> WorkerRegistry \<Rightarrow> bool" where
  "counters_fit needs wr \<longleftrightarrow> (\<forall>wid w. wr wid = Some w \<longrightarrow>
     unat (ws_allocated_cpu w) + unat (fst needs) < 2 ^ 32 \<and>
     unat (ws_allocated_memory_mb w) + unat (fst (snd needs)) < 2 ^ 64)"

lemma take_if_needed_used:
  assumes "grants needs wr wid" "wr wid = Some w" "counters_fit needs wr"
  shows "unat (ws_allocated_cpu (take_if_needed needs w)) = unat (ws_allocated_cpu w) + unat (fst needs)"
    and "unat (ws_allocated_memory_mb (take_if_needed needs w)) = unat (ws_allocated_memory_mb w) + unat (fst (snd needs))"
proof -
  obtain c m d where n: "needs = (c, m, d)" by (cases needs)
  have fit: "unat (ws_allocated_cpu w) + unat c < 2 ^ 32" "unat (ws_allocated_memory_mb w) + unat m < 2 ^ 64"
    using assms(2,3) by (auto simp: counters_fit_def n)
  show "unat (ws_allocated_cpu (take_if_needed needs w)) = unat (ws_allocated_cpu w) + unat (fst needs)"
    "unat (ws_allocated_memory_mb (take_if_needed needs w)) = unat (ws_allocated_memory_mb w) + unat (fst (snd needs))"
    using assms(1,2) fit
    by (auto simp: grants_def take_if_needed_def n take_resources_def has_resource_req_def allocate_def
        unat_add_noov word_gt_0 split: if_splits)
qed

lemma reserved_group_simps [simp]:
  "g_id (reserved_group now gid rid wid needs eff req) = gid"
  "g_reserved_worker_id (reserved_group now gid rid wid needs eff req) = Some wid"
  "g_state (reserved_group now gid rid wid needs eff req) = GReserved"
  "g_reserved_stages (reserved_group now gid rid wid needs eff req) = eff"
  "ar_cpu (g_allocated_resources (reserved_group now gid rid wid needs eff req)) = fst needs"
  "ar_memory_mb (g_allocated_resources (reserved_group now gid rid wid needs eff req)) = fst (snd needs)"
  by (simp_all add: reserved_group_def split: prod.split)

lemma groups_add_group [simp]: "gr_groups (add_group g r) = (gr_groups r)(g_id g \<mapsto> g)"
  by (simp add: add_group_def)

lemma not_terminal_reserved [simp]: "\<not> group_is_terminal GReserved"
  by (simp add: group_is_terminal_def)

section \<open>Properties\<close>

text \<open>C23: A reservation that answers without an error keeps the books: whatever branch the
  handler takes, if every worker's CPU and memory counters equalled the sums over
  the unfinished groups reserved on it before, they still do, the new group included.\<close>

theorem reserve_keeps_accounts:
  assumes "accounts_ok cs" "gr_groups (cs_groups cs) gid = None"
    and "counters_fit (compute_resource_needs env req) (cs_workers cs)"
    and "do_reserve_worker env now gid fresh req cs = (Inr resp, cs')"
  shows "accounts_ok cs'"
  using assms(4)
proof (cases rule: do_reserve_cases)
  case nothing
  then show ?thesis using assms(1) by simp
next
  case (selected repo_id mx sp eff dropped wid wr)
  let ?needs = "compute_resource_needs env req"
  let ?g = "reserved_group now gid repo_id wid ?needs eff req"
  obtain w where w: "cs_workers cs wid = Some w" "grants ?needs (cs_workers cs) wid"
    "wr = (cs_workers cs)(wid \<mapsto> take_if_needed ?needs w)"
    using select_and_allocate_shape [OF selected(3)] by auto
  note out = finish_reservation_outcome [OF selected(4)]
  note used = take_if_needed_used [OF w(2,1) assms(3)]
  show ?thesis
    by (rule accounts_ok_grant [OF assms(1), where g = ?g and wid = wid and w = w and w' = "take_if_needed ?needs w"])
      (use assms(2) w out used in \<open>auto split: prod.splits\<close>)
qed

definition sample_request :: "string \<Rightarrow> ReserveWorkerRequest" where
  "sample_request branch =
     \<lparr> rr_repo_name = ''app'', rr_repo_url = ''git'', rr_branch = branch, rr_commit_sha = [], rr_stages = [''build'', ''test''],
       rr_priority = 0, rr_idempotency_key = [] \<rparr>"

lemma sample_needs: "compute_resource_needs sample_db_env (sample_request b) = (2, 1000, 10)"
  by (simp add: compute_resource_needs_def sample_request_def sample_storage_def sample_repo_def sample_stage_def
      query_or_def needs_of_def max_or_zero_def)

lemma sample_counters_fit: "counters_fit (2, 1000, 10) [''w1'' \<mapsto> WorkerState_new 0 sample_info]"
  by (simp add: counters_fit_def WorkerState_new_def)

theorem reserve_keeps_accounts_witness:
  "let (resp, cs') = do_reserve_worker sample_db_env 5 ''g1'' ''r'' (sample_request ''main'') sample_cs
   in accounts_ok cs' \<and> map_option ws_allocated_cpu (cs_workers cs' ''w1'') = Some 2"
proof -
  let ?d = "do_reserve_worker sample_db_env 5 ''g1'' ''r'' (sample_request ''main'') sample_cs"
  have "\<not> isl (fst ?d) \<and> map_option ws_allocated_cpu (cs_workers (snd ?d) ''w1'') = Some 2" by code_simp
  moreover from this obtain resp cs' where d: "?d = (Inr resp, cs')"
    by (cases ?d; cases "fst ?d") auto
  moreover have "accounts_ok cs'"
    by (rule reserve_keeps_accounts [OF accounts_ok_sample _ _ d])
      (simp_all add: JobGroupRegistry_new_def sample_needs sample_counters_fit)
  ultimately show ?thesis by simp
qed

text \<open>C24: An error answer of the reservation handler keeps what it allocated.  Every error it
  returns comes after a worker was chosen: no group is created, no counter of another
  worker moves, and the chosen worker's allocation stays raised by the resources
  of the request, with no group that would ever give them back.\<close>

theorem reserve_error_leaks_allocation:
  assumes "counters_fit (compute_resource_needs env req) (cs_workers cs)"
    and "do_reserve_worker env now gid fresh req cs = (Inl e, cs')"
  shows "cs_groups cs' = cs_groups cs
     \<and> (\<exists>wid w w'. cs_workers cs wid = Some w \<and> cs_workers cs' = (cs_workers cs)(wid \<mapsto> w')
          \<and> unat (ws_allocated_cpu w') = unat (ws_allocated_cpu w) + unat (fst (compute_resource_needs env req))
          \<and> unat (ws_allocated_memory_mb w') = unat (ws_allocated_memory_mb w) + unat (fst (snd (compute_resource_needs env req))))"
  using assms(2)
proof (cases rule: do_reserve_cases)
  case (selected repo_id mx sp eff dropped wid wr)
  let ?needs = "compute_resource_needs env req"
  obtain w where w: "cs_workers cs wid = Some w" "grants ?needs (cs_workers cs) wid"
    "wr = (cs_workers cs)(wid \<mapsto> take_if_needed ?needs w)"
    using select_and_allocate_shape [OF selected(3)] by auto
  have "cs_workers cs' = (cs_workers cs)(wid \<mapsto> take_if_needed ?needs w)" "cs_groups cs' = cs_groups cs"
    using finish_reservation_outcome [OF selected(4)] by (simp_all add: w(3) fun_upd_def)
  with w(1) take_if_needed_used [OF w(2,1) assms(1)] show ?thesis by blast
qed simp

theorem reserve_error_leaks_allocation_witness:
  "let (resp, cs') = do_reserve_worker sample_db_env 5 ''g1'' ''r'' (sample_request ''bad'') sample_cs
   in isl resp \<and> cs_groups cs' = cs_groups sample_cs \<and> map_option ws_allocated_cpu (cs_workers cs' ''w1'') = Some 2"
proof -
  let ?d = "do_reserve_worker sample_db_env 5 ''g1'' ''r'' (sample_request ''bad'') sample_cs"
  have "isl (fst ?d) \<and> map_option ws_allocated_cpu (cs_workers (snd ?d) ''w1'') = Some 2" by code_simp
  moreover from this obtain e cs' where d: "?d = (Inl e, cs')"
    by (cases ?d; cases "fst ?d") auto
  moreover have "cs_groups cs' = cs_groups sample_cs"
    using reserve_error_leaks_allocation [OF _ d] by (simp add: sample_needs sample_counters_fit)
  ultimately show ?thesis by simp
qed

text \<open>C25: The worker of a new reservation is the best one: it is connected, has room for the
  request and grants it, and every other such worker has a lower priority, or
  the same priority and no more free capacity.\<close>

theorem reserve_picks_best_worker:
  assumes "workers.well_keyed (cs_workers cs)"
    and "hm_order (env_worker_order env (cs_workers cs)) (cs_workers cs)"
    and "gr_groups (cs_groups cs) gid = None"
    and "do_reserve_worker env now gid fresh req cs = (Inr resp, cs')"
    and "gr_groups (cs_groups cs') gid = Some g"
  shows "\<exists>wid w. g_reserved_worker_id g = Some wid \<and> cs_workers cs wid = Some w
     \<and> eligible (compute_resource_needs env req) (cs_workers cs) wid
     \<and> (\<forall>k x. eligible (compute_resource_needs env req) (cs_workers cs) k \<longrightarrow> cs_workers cs k = Some x \<longrightarrow>
          wi_priority (ws_info x) < wi_priority (ws_info w)
          \<or> (wi_priority (ws_info w) = wi_priority (ws_info x) \<and> free_sum x \<le> free_sum w))"
  using assms(4)
proof (cases rule: do_reserve_cases)
  case nothing
  then show ?thesis using assms(3,5) by simp
next
  case (selected repo_id mx sp eff dropped wid wr)
  then have "g_reserved_worker_id g = Some wid"
    using finish_reservation_outcome(2) [OF selected(4)] assms(5) by (auto split: prod.splits)
  with select_and_allocate_best [OF assms(1,2) selected(3)] show ?thesis by metis
qed

theorem reserve_picks_best_worker_witness:
  "let (resp, cs') = do_reserve_worker sample_db_env 5 ''g1'' ''r'' (sample_request ''main'') sample_cs
   in Option.bind (gr_groups (cs_groups cs') ''g1'') g_reserved_worker_id = Some ''w1''
    \<and> eligible (2, 1000, 10) (cs_workers sample_cs) ''w1''"
proof -
  let ?d = "do_reserve_worker sample_db_env 5 ''g1'' ''r'' (sample_request ''main'') sample_cs"
  have "\<not> isl (fst ?d) \<and> Option.bind (gr_groups (cs_groups (snd ?d)) ''g1'') g_reserved_worker_id = Some ''w1''" by code_simp
  moreover from this obtain resp cs' where d: "?d = (Inr resp, cs')"
    by (cases ?d; cases "fst ?d") auto
  moreover from calculation obtain g where g: "gr_groups (cs_groups cs') ''g1'' = Some g" "g_reserved_worker_id g = Some ''w1''"
    by (auto split: bind_splits)
  moreover have "workers.well_keyed (cs_workers sample_cs)"
    by (simp add: workers.well_keyed_def WorkerState_new_def sample_info_def)
  then have "eligible (2, 1000, 10) (cs_workers sample_cs) ''w1''"
    using reserve_picks_best_worker [OF _ _ _ d g(1)] g(2) by (simp add: hm_order_def JobGroupRegistry_new_def sample_needs)
  ultimately show ?thesis by simp
qed

end
