(* ===== verification/Submit.thy ===== *)
theory Submit
  imports Reserve
begin

text \<open>
  Stage submission (\<open>grpc_server.rs\<close>, \<open>do_submit_stage\<close>): find the group and its worker,
  check the dependencies and that the stage is new, resolve the command, the
  variables and the scripts, create the job in both registries, persist it and send
  it.  One definition per block of the handler.  \<open>debug_str\<close> prints strings the way
  \<open>{:?}\<close> does for ASCII text.
\<close>

section \<open>Messages and printing\<close>

record SubmitStageRequest =
  sq_job_group_id :: string
  sq_job_id :: string
  sq_stage_name :: string
  sq_command_override :: string
  sq_environment :: "string \<rightharpoonup> string"

record SubmitStageResponse =
  sp_job_id :: string
  sp_stage_name :: string
  sp_accepted :: bool
  sp_message :: string

definition debug_char :: "char \<Rightarrow> string" where
  "debug_char c =
     (if c = CHR 0x22 then [CHR 0x5C, CHR 0x22] else if c = CHR 0x5C then [CHR 0x5C, CHR 0x5C]
      else if c = CHR 0x0A then [CHR 0x5C, CHR ''n''] else if c = CHR 0x0D then [CHR 0x5C, CHR ''r'']
      else if c = CHR 0x09 then [CHR 0x5C, CHR ''t''] else if c = CHR 0x00 then [CHR 0x5C, CHR ''0''] else [c])"

definition debug_str :: "string \<Rightarrow> string" where
  "debug_str s = [CHR 0x22] @ concat (map debug_char s) @ [CHR 0x22]"

definition debug_strs :: "string list \<Rightarrow> string" where
  "debug_strs ss = ''['' @ str_join '', '' (map debug_str ss) @ '']''"

section \<open>Checks\<close>

definition submit_target :: "Env \<Rightarrow> SubmitStageRequest \<Rightarrow> ControllerState \<Rightarrow> Status + uuid \<times> string \<times> JobGroup" where
  "submit_target env req cs =
     (case env_parse_uuid env (sq_job_group_id req) of
        None \<Rightarrow> Inl (Status InvalidArgument (''Invalid job_group_id: '' @ env_uuid_error env (sq_job_group_id req)))
      | Some group_id \<Rightarrow>
          (case gr_groups (cs_groups cs) group_id of
             None \<Rightarrow> Inl (Status NotFound (''Job group '' @ sq_job_group_id req @ '' not found''))
           | Some g \<Rightarrow>
               (case g_reserved_worker_id g of
                  None \<Rightarrow> Inl (Status FailedPrecondition (''Job group '' @ sq_job_group_id req @ '' has no reserved worker''))
                | Some wid \<Rightarrow> Inr (group_id, wid, g))))"

text \<open>The storage and the repo, when the controller has both.\<close>

definition db_of :: "Env \<Rightarrow> uuid option \<Rightarrow> (Storage \<times> uuid) option" where
  "db_of env repo_id = (case (env_storage env, repo_id) of (Some st, Some rid) \<Rightarrow> Some (st, rid) | _ \<Rightarrow> None)"

definition stage_depends_on :: "Env \<Rightarrow> uuid option \<Rightarrow> string \<Rightarrow> string list" where
  "stage_depends_on env repo_id stage =
     (case db_of env repo_id of
        Some (st, rid) \<Rightarrow> unwrap_or [] (query_or Map.empty (st_stage_dependencies st rid) stage)
      | None \<Rightarrow> [])"

definition check_dependencies ::
  "Env \<Rightarrow> SubmitStageRequest \<Rightarrow> uuid \<Rightarrow> uuid option \<Rightarrow> ControllerState \<Rightarrow> Status + unit" where
  "check_dependencies env req group_id repo_id cs =
     (let depends_on = stage_depends_on env repo_id (sq_stage_name req)
      in if depends_on \<noteq> [] \<and> \<not> can_submit_stage group_id (sq_stage_name req) depends_on (cs_groups cs)
         then Inl (Status FailedPrecondition (''Stage '' @ quoted (sq_stage_name req)
                @ '' dependencies not yet satisfied: '' @ debug_strs depends_on))
         else Inr ())"

definition check_not_submitted :: "SubmitStageRequest \<Rightarrow> uuid \<Rightarrow> ControllerState \<Rightarrow> Status + unit" where
  "check_not_submitted req group_id cs =
     (case List.find (\<lambda>j. j_stage_name j = Some (sq_stage_name req)) (get_jobs_for_group group_id (cs_groups cs)) of
        Some existing \<Rightarrow>
          Inl (Status AlreadyExists (''Stage '' @ quoted (sq_stage_name req) @ '' is already ''
            @ job_state_display (j_state existing) @ '' in group '' @ group_id @ '' (retry requires a new reservation)''))
      | None \<Rightarrow> Inr ())"

definition escape_quotes :: "string \<Rightarrow> string" where
  "escape_quotes s = concat (map (\<lambda>c. if c = CHR 0x27 then [CHR 0x27, CHR 0x5C, CHR 0x27, CHR 0x27] else [c]) s)"

definition resolve_command :: "StageConfig option \<Rightarrow> SubmitStageRequest \<Rightarrow> Status + string" where
  "resolve_command stage_config req =
     (let user_command = sq_command_override req
      in case stage_config of
           Some sc \<Rightarrow>
             if sc_command_mode sc = ''fixed'' then
               (case sc_command sc of
                  Some c \<Rightarrow> Inr c
                | None \<Rightarrow> Inl (Status InvalidArgument ''Stage has no configured command''))
             else if sc_command_mode sc = ''optional'' then
               if user_command \<noteq> [] then Inr user_command
               else (case sc_command sc of
                       Some c \<Rightarrow> Inr c
                     | None \<Rightarrow> Inl (Status InvalidArgument ''Stage has no configured command and none provided''))
             else if sc_command_mode sc = ''required'' then
               if user_command = []
               then Inl (Status InvalidArgument ''This stage requires a command from the user'')
               else Inr user_command
             else Inr (unwrap_or [] (sc_command sc))
         | None \<Rightarrow>
             Inr (if user_command \<noteq> [] then user_command
                  else ''echo '' @ quoted (''Running stage: '' @ escape_quotes (sq_stage_name req))))"

definition check_command_blacklist ::
  "Env \<Rightarrow> uuid option \<Rightarrow> uuid option \<Rightarrow> string \<Rightarrow> Status + unit" where
  "check_command_blacklist env repo_id stage_config_id command =
     (case db_of env repo_id of
        None \<Rightarrow> Inr ()
      | Some (st, rid) \<Rightarrow>
          (case List.find (\<lambda>pattern. case env_regex env pattern of Some is_match \<Rightarrow> is_match command | None \<Rightarrow> False)
                  (query_or [] (st_command_blacklist st rid stage_config_id)) of
             Some pattern \<Rightarrow> Inl (Status PermissionDenied (''Command blocked by blacklist rule: '' @ pattern))
           | None \<Rightarrow> Inr ()))"

section \<open>Environment and scripts\<close>

definition add_variable ::
  "PipelineVariable \<Rightarrow> (string \<rightharpoonup> string) \<times> string list \<Rightarrow> (string \<rightharpoonup> string) \<times> string list" where
  "add_variable v acc =
     (or_insert (pv_name v) (pv_value v) (fst acc),
      if pv_is_secret v then snd acc @ [pv_name v] else snd acc)"

definition inject_variables ::
  "Env \<Rightarrow> uuid option \<Rightarrow> (string \<rightharpoonup> string) \<Rightarrow> (string \<rightharpoonup> string) \<times> string list" where
  "inject_variables env repo_id environment =
     (case db_of env repo_id of
        Some (st, rid) \<Rightarrow> fold add_variable (query_or [] (st_variables st rid)) (environment, [])
      | None \<Rightarrow> (environment, []))"

record Scripts =
  sx_pre :: string
  sx_post :: string
  sx_pre_lock :: "ScriptLockConfig option"
  sx_post_lock :: "ScriptLockConfig option"

definition script_lock :: "StageScript option \<Rightarrow> ScriptLockConfig option" where
  "script_lock s =
     (case s of
        Some s \<Rightarrow> if ss_lock_enabled s
                  then Some \<lparr> lk_enabled = True, lk_lock_key = unwrap_or [] (ss_lock_key s),
                              lk_timeout_secs = ss_lock_timeout_secs s, lk_scope = ss_script_scope s \<rparr>
                  else None
      | None \<Rightarrow> None)"

definition stage_scripts :: "Env \<Rightarrow> uuid option \<Rightarrow> string \<Rightarrow> Scripts" where
  "stage_scripts env stage_config_id worker_id =
     (case db_of env stage_config_id of
        Some (st, cfg_id) \<Rightarrow>
          (let scripts = query_or [] (st_scripts_for_stage st cfg_id (Some worker_id));
               pre_s = List.find (\<lambda>s. ss_script_type s = ''pre'' \<and> ss_script_scope s = ''worker'') scripts;
               post_s = List.find (\<lambda>s. ss_script_type s = ''post'' \<and> ss_script_scope s = ''worker'') scripts
           in \<lparr> sx_pre = unwrap_or [] (map_option ss_script pre_s), sx_post = unwrap_or [] (map_option ss_script post_s),
                sx_pre_lock = script_lock pre_s, sx_post_lock = script_lock post_s \<rparr>)
      | None \<Rightarrow> \<lparr> sx_pre = [], sx_post = [], sx_pre_lock = None, sx_post_lock = None \<rparr>)"

definition add_global_pre :: "Env \<Rightarrow> JobGroup \<Rightarrow> Scripts \<Rightarrow> Scripts" where
  "add_global_pre env g sx =
     (case db_of env (g_repo_id g) of
        None \<Rightarrow> sx
      | Some (st, rid) \<Rightarrow>
          (case st_repo st rid of
             Inr (Some repo) \<Rightarrow>
               (case rp_global_pre_script repo of
                  Some body \<Rightarrow>
                    if rp_global_pre_script_scope repo \<in> {''worker'', ''both''} \<and> g_state g = GReserved then
                      sx\<lparr> sx_pre := prepend_global_pre_script body (sx_pre sx),
                          sx_pre_lock := (if sx_pre_lock sx = None \<and> rp_global_pre_script_lock_enabled repo
                            then Some \<lparr> lk_enabled = True, lk_lock_key = unwrap_or [] (rp_global_pre_script_lock_key repo),
                                        lk_timeout_secs = rp_global_pre_script_lock_timeout_secs repo,
                                        lk_scope = rp_global_pre_script_scope repo \<rparr>
                            else sx_pre_lock sx) \<rparr>
                    else sx
                | None \<Rightarrow> sx)
           | _ \<Rightarrow> sx))"

definition build_context :: "Env \<Rightarrow> uuid \<Rightarrow> JobGroup \<Rightarrow> string \<Rightarrow> (string \<rightharpoonup> string) \<Rightarrow> (string \<rightharpoonup> string)" where
  "build_context env group_id g stage environment =
     (let e = environment(''JOB_GROUP_ID'' \<mapsto> group_id, ''STAGE_NAME'' \<mapsto> stage);
          e = (case g_commit_sha g of Some sha \<Rightarrow> e(''COMMIT_SHA'' \<mapsto> sha) | None \<Rightarrow> e);
          e = (case g_branch g of Some b \<Rightarrow> e(''BRANCH'' \<mapsto> b) | None \<Rightarrow> e)
      in case db_of env (g_repo_id g) of
           Some (st, rid) \<Rightarrow>
             (case st_repo st rid of
                Inr (Some repo) \<Rightarrow> e(''REPO_URL'' \<mapsto> rp_repo_url repo, ''REPO_NAME'' \<mapsto> rp_repo_name repo)
              | _ \<Rightarrow> e)
         | None \<Rightarrow> e)"

section \<open>The job\<close>

definition stage_job_of ::
  "datetime \<Rightarrow> uuid \<Rightarrow> string \<Rightarrow> JobGroup \<Rightarrow> StageConfig option \<Rightarrow> string \<Rightarrow> string \<Rightarrow> (string \<rightharpoonup> string)
   \<Rightarrow> Scripts \<Rightarrow> SubmitStageRequest \<Rightarrow> Job" where
  "stage_job_of now group_id worker_id g stage_config job_id command environment sx req =
     (Job_new now job_id command TCommon 0 0 0)
       \<lparr> j_job_group_id := Some group_id, j_stage_name := Some (sq_stage_name req),
         j_stage_config_id := map_option sc_id stage_config, j_assigned_worker := Some worker_id,
         j_environment := environment, j_state := JQueued, j_priority := g_priority g,
         j_required_labels := unwrap_or [] (map_option sc_required_labels stage_config),
         j_pre_script := nonempty (sx_pre sx), j_post_script := nonempty (sx_post sx),
         j_max_duration_secs :=
           (let d = unwrap_or 0 (map_option sc_max_duration_secs stage_config) in if d > 0 then Some d else None) \<rparr>"

definition db_job_of :: "Env \<Rightarrow> datetime \<Rightarrow> uuid \<Rightarrow> string \<Rightarrow> Scripts \<Rightarrow> Job \<Rightarrow> DbJob" where
  "db_job_of env now group_id worker_id sx job =
     \<lparr> dj_id = env_v5 env (j_job_id job), dj_job_group_id = group_id, dj_stage_config_id = j_stage_config_id job,
       dj_stage_name = unwrap_or [] (j_stage_name job), dj_command = j_command job,
       dj_pre_script = nonempty (sx_pre sx), dj_post_script = nonempty (sx_post sx), dj_worker_id = Some worker_id,
       dj_state = ''queued'', dj_exit_code = None, dj_pre_exit_code = None, dj_post_exit_code = None, dj_log_path = None,
       dj_started_at = None, dj_completed_at = None, dj_retry_count = 0, dj_status_reason = None,
       dj_created_at = now, dj_updated_at = now \<rparr>"

definition stage_assignment ::
  "Job \<Rightarrow> uuid \<Rightarrow> int \<Rightarrow> string list \<Rightarrow> Scripts \<Rightarrow> string \<Rightarrow> JobAssignment" where
  "stage_assignment job group_id max_duration secret_env_keys sx group_created_at =
     blank_assignment\<lparr> ja_job_id := j_job_id job, ja_command := j_command job, ja_job_type := ''common'',
       ja_environment := j_environment job, ja_job_group_id := group_id,
       ja_stage_name := unwrap_or [] (j_stage_name job), ja_pre_script := sx_pre sx, ja_post_script := sx_post sx,
       ja_max_duration_secs := max_duration, ja_secret_env_keys := secret_env_keys,
       ja_pre_script_lock := sx_pre_lock sx, ja_post_script_lock := sx_post_lock sx,
       ja_group_created_at := group_created_at \<rparr>"

section \<open>The handler\<close>

text \<open>The group leaves the reserved state with its first stage.\<close>

definition enter_group :: "datetime \<Rightarrow> uuid \<Rightarrow> Job \<Rightarrow> JobGroupRegistry \<Rightarrow> JobGroupRegistry" where
  "enter_group now group_id job r =
     (let was = (case gr_groups r group_id of Some g \<Rightarrow> g_state g = GReserved | None \<Rightarrow> False);
          r = (if was then snd (update_state now group_id GRunning r) else r)
      in touch_activity now group_id (add_job_to_group group_id job r))"

definition record_stage ::
  "Env \<Rightarrow> datetime \<Rightarrow> uuid \<Rightarrow> string \<Rightarrow> JobGroup \<Rightarrow> int \<Rightarrow> string list \<Rightarrow> Scripts \<Rightarrow> Job \<Rightarrow> ControllerState \<Rightarrow> ControllerState" where
  "record_stage env now group_id worker_id g max_duration secret_env_keys sx job cs =
     (let cs = map_groups (enter_group now group_id job) cs;
          cs = (if g_state g = GReserved then emit_db env (DbUpdateGroupState group_id GRunning None) cs else cs);
          cs = map_jobs (add_job job) cs;
          cs = map_metrics (inc_active_stages \<circ> inc_stages_submitted) cs;
          cs = emit_db env (DbCreateJob (db_job_of env now group_id worker_id sx job)) cs;
          cs = map_logs (register_log_path (j_job_id job) group_id (unwrap_or [] (j_stage_name job))
                 \<circ> register_alias (env_v5 env (j_job_id job)) (j_job_id job)) cs;
          cs = emit NotifyWaiters cs;
          group_created_at = (case gr_groups (cs_groups cs) group_id of
                                Some g \<Rightarrow> env_rfc3339 env (g_created_at g) | None \<Rightarrow> []);
          cs = send_to worker_id (stage_assignment job group_id max_duration secret_env_keys sx group_created_at) cs
      in emit_redis env (RedisRefreshTtl worker_id group_id (env_reservation_timeout_secs env)) cs)"

definition submit_checks ::
  "Env \<Rightarrow> SubmitStageRequest \<Rightarrow> ControllerState
   \<Rightarrow> Status + uuid \<times> string \<times> JobGroup \<times> StageConfig option \<times> string" where
  "submit_checks env req cs =
     and_then (submit_target env req cs) (\<lambda>(group_id, worker_id, g).
     and_then (check_dependencies env req group_id (g_repo_id g) cs) (\<lambda>_.
     and_then (check_not_submitted req group_id cs) (\<lambda>_.
       let stage_config = (case db_of env (g_repo_id g) of
             Some (st, rid) \<Rightarrow> query_or None (st_stage_config_by_name st rid (sq_stage_name req)) | None \<Rightarrow> None)
       in and_then (resolve_command stage_config req) (\<lambda>command.
          and_then (check_command_blacklist env (g_repo_id g) (map_option sc_id stage_config) command) (\<lambda>_.
            Inr (group_id, worker_id, g, stage_config, command))))))"

definition do_submit_stage :: "Env \<Rightarrow> datetime \<Rightarrow> SubmitStageRequest \<Rightarrow> SubmitStageResponse handler" where
  "do_submit_stage env now req cs =
     (case submit_checks env req cs of
        Inl e \<Rightarrow> (Inl e, cs)
      | Inr (group_id, worker_id, g, stage_config, command) \<Rightarrow>
          (let job_id = (if sq_job_id req = [] then group_id @ ''-'' @ sq_stage_name req else sq_job_id req);
               (environment, secret_env_keys) = inject_variables env (g_repo_id g) (sq_environment req);
               sx = add_global_pre env g (stage_scripts env (map_option sc_id stage_config) worker_id);
               environment = build_context env group_id g (sq_stage_name req) environment;
               max_duration = unwrap_or 0 (map_option sc_max_duration_secs stage_config);
               job = stage_job_of now group_id worker_id g stage_config job_id command environment sx req
           in (Inr \<lparr> sp_job_id = job_id, sp_stage_name = sq_stage_name req, sp_accepted = True,
                     sp_message = ''Stage submitted successfully'' \<rparr>,
               record_stage env now group_id worker_id g max_duration secret_env_keys sx job cs)))"

section \<open>What an accepted submission has checked\<close>

lemma submit_checks_accepted:
  assumes "submit_checks env req cs = Inr (group_id, worker_id, g, stage_config, command)"
  shows "gr_groups (cs_groups cs) group_id = Some g" "g_reserved_worker_id g = Some worker_id"
    and "\<And>j. j \<in> set (get_jobs_for_group group_id (cs_groups cs)) \<Longrightarrow> j_stage_name j \<noteq> Some (sq_stage_name req)"
    and "\<And>dep. dep \<in> set (stage_depends_on env (g_repo_id g) (sq_stage_name req)) \<Longrightarrow>
           \<exists>j \<in> set (get_jobs_for_group group_id (cs_groups cs)). j_stage_name j = Some dep \<and> j_state j = JSuccess"
proof -
  have t: "submit_target env req cs = Inr (group_id, worker_id, g)"
    and d: "check_dependencies env req group_id (g_repo_id g) cs = Inr ()"
    and n: "check_not_submitted req group_id cs = Inr ()"
    using assms by (auto simp: submit_checks_def and_then_def Let_def simp del: append.simps
        split: sum.splits prod.splits)
  show "gr_groups (cs_groups cs) group_id = Some g" "g_reserved_worker_id g = Some worker_id"
    using t by (auto simp: submit_target_def simp del: append.simps split: option.splits)
  show "\<And>j. j \<in> set (get_jobs_for_group group_id (cs_groups cs)) \<Longrightarrow> j_stage_name j \<noteq> Some (sq_stage_name req)"
    using n by (auto simp: check_not_submitted_def find_None_iff simp del: append.simps split: option.splits)
  show "\<exists>j \<in> set (get_jobs_for_group group_id (cs_groups cs)). j_stage_name j = Some dep \<and> j_state j = JSuccess"
    if "dep \<in> set (stage_depends_on env (g_repo_id g) (sq_stage_name req))" for dep
    using d that
    by (auto simp: check_dependencies_def Let_def can_submit_stage_def get_jobs_for_group_def list_all_iff list_ex_iff
        simp del: append.simps split: if_splits option.splits)
qed

lemma do_submit_accepted:
  assumes "do_submit_stage env now req cs = (Inr resp, cs')"
  obtains group_id worker_id g stage_config command environment keys sx job where
    "submit_checks env req cs = Inr (group_id, worker_id, g, stage_config, command)"
    "inject_variables env (g_repo_id g) (sq_environment req) = (environment, keys)"
    "job = stage_job_of now group_id worker_id g stage_config (sp_job_id resp) command
             (build_context env group_id g (sq_stage_name req) environment) sx req"
    "cs' = record_stage env now group_id worker_id g (unwrap_or 0 (map_option sc_max_duration_secs stage_config)) keys sx job cs"
  using assms
  by (auto simp: do_submit_stage_def Let_def simp del: append.simps split: sum.splits prod.splits)

lemma stage_job_simps [simp]:
  "j_job_id (stage_job_of now gid wid g sc jid cmd e sx req) = jid"
  "j_stage_name (stage_job_of now gid wid g sc jid cmd e sx req) = Some (sq_stage_name req)"
  "j_state (stage_job_of now gid wid g sc jid cmd e sx req) = JQueued"
  "j_assigned_worker (stage_job_of now gid wid g sc jid cmd e sx req) = Some wid"
  "j_environment (stage_job_of now gid wid g sc jid cmd e sx req) = e"
  by (simp_all add: stage_job_of_def Job_new_def)

lemma enter_group_jobs:
  "get_jobs_for_group gid (enter_group now group_id job r) =
   (if gid = group_id then get_jobs_for_group gid r @ [job] else get_jobs_for_group gid r)"
  by (auto simp: enter_group_def Let_def get_jobs_for_group_def touch_activity_def add_job_to_group_def split: option.splits)

lemma enter_group_group:
  assumes "gr_groups r group_id = Some g"
  shows "gr_groups (enter_group now group_id job r) = (gr_groups r)(group_id \<mapsto>
     (if g_state g = GReserved then enter_state now GRunning g else g)\<lparr> g_last_activity_at := now \<rparr>)"
proof
  show "gr_groups (enter_group now group_id job r) k = ((gr_groups r)(group_id \<mapsto>
     (if g_state g = GReserved then enter_state now GRunning g else g)\<lparr> g_last_activity_at := now \<rparr>)) k" for k
    using assms by (simp add: enter_group_def Let_def touch_activity_def add_job_to_group_def groups_update_state
        modify_group_def hm_modify_apply valid_transition_def)
qed

lemma record_stage_frame:
  "cs_workers (record_stage env now gid wid g d ks sx job cs) = cs_workers cs
   \<and> cs_groups (record_stage env now gid wid g d ks sx job cs) = enter_group now gid job (cs_groups cs)
   \<and> cs_jobs (record_stage env now gid wid g d ks sx job cs) = (cs_jobs cs)(j_job_id job \<mapsto> job)"
  by (cases "g_state g = GReserved") (simp_all add: record_stage_def Let_def add_job_def fun_upd_def)

lemmas record_stage_simps [simp] =
  record_stage_frame [THEN conjunct1] record_stage_frame [THEN conjunct2, THEN conjunct1]
  record_stage_frame [THEN conjunct2, THEN conjunct2]

text \<open>The variables of a repo: each one is defined, and the secret ones are named.\<close>

lemma fold_add_variable:
  assumes "fold add_variable vs (e, ks) = (e', ks')"
  shows "set ks \<subseteq> set ks' \<and> dom e \<subseteq> dom e' \<and>
    (\<forall>v \<in> set vs. pv_name v \<in> dom e' \<and> (pv_is_secret v \<longrightarrow> pv_name v \<in> set ks'))"
  using assms
proof (induction vs arbitrary: e ks)
  case (Cons v vs)
  obtain e1 ks1 where step: "add_variable v (e, ks) = (e1, ks1)" by (cases "add_variable v (e, ks)")
  then have "set ks \<subseteq> set ks1 \<and> dom e \<subseteq> dom e1 \<and> pv_name v \<in> dom e1 \<and> (pv_is_secret v \<longrightarrow> pv_name v \<in> set ks1)"
    by (auto simp: add_variable_def or_insert_def split: if_splits)
  moreover from Cons.prems step have "fold add_variable vs (e1, ks1) = (e', ks')" by simp
  ultimately show ?case using Cons.IH [of e1 ks1] by (simp, blast)
qed simp

lemma build_context_dom: "dom e \<subseteq> dom (build_context env gid g st e)"
  by (auto simp: build_context_def Let_def split: option.splits sum.splits prod.splits)

lemma submit_target_unique:
  assumes "submit_checks env req cs = Inr (gid, wid, g, sc, cmd)"
  shows "env_parse_uuid env (sq_job_group_id req) = Some gid"
proof -
  have "submit_target env req cs = Inr (gid, wid, g)"
    using assms by (auto simp: submit_checks_def and_then_Inr_iff Let_def simp del: append.simps split: prod.splits)
  then show ?thesis by (auto simp: submit_target_def simp del: append.simps split: option.splits)
qed

lemma record_stage_sends:
  assumes "cs_senders cs wid = Some True"
  shows "\<exists>gc. SendAssignment wid (stage_assignment job gid d ks sx gc)
     \<in> set (cs_effects (record_stage env now gid wid g d ks sx job cs))"
proof -
  define cs1 where "cs1 = (let cs = map_groups (enter_group now gid job) cs;
          cs = (if g_state g = GReserved then emit_db env (DbUpdateGroupState gid GRunning None) cs else cs);
          cs = map_jobs (add_job job) cs;
          cs = map_metrics (inc_active_stages \<circ> inc_stages_submitted) cs;
          cs = emit_db env (DbCreateJob (db_job_of env now gid wid sx job)) cs;
          cs = map_logs (register_log_path (j_job_id job) gid (unwrap_or [] (j_stage_name job))
                 \<circ> register_alias (env_v5 env (j_job_id job)) (j_job_id job)) cs
       in emit NotifyWaiters cs)"
  have "cs_senders cs1 = cs_senders cs" by (simp add: cs1_def Let_def)
  moreover have "record_stage env now gid wid g d ks sx job cs =
    emit_redis env (RedisRefreshTtl wid gid (env_reservation_timeout_secs env))
      (send_to wid (stage_assignment job gid d ks sx (case gr_groups (cs_groups cs1) gid of
                                Some g \<Rightarrow> env_rfc3339 env (g_created_at g) | None \<Rightarrow> [])) cs1)"
    by (simp only: record_stage_def cs1_def Let_def)
  ultimately show ?thesis using assms
    by (intro exI [of _ "case gr_groups (cs_groups cs1) gid of Some g \<Rightarrow> env_rfc3339 env (g_created_at g) | None \<Rightarrow> []"])
      (simp add: send_to_def emit_redis_def)
qed

section \<open>Properties\<close>


definition sample_reserved_cs :: "JobGroupState \<Rightarrow> Job list \<Rightarrow> ControllerState" where
  "sample_reserved_cs s js = sample_cs\<lparr> cs_groups :=
     \<lparr> gr_groups = [''g1'' \<mapsto> (sample_group s)\<lparr> g_reserved_worker_id := Some ''w1'' \<rparr>], gr_group_jobs = [''g1'' \<mapsto> js] \<rparr> \<rparr>"

definition sample_submit :: "string \<Rightarrow> SubmitStageRequest" where
  "sample_submit stage = \<lparr> sq_job_group_id = ''g1'', sq_job_id = [], sq_stage_name = stage, sq_command_override = [],
     sq_environment = Map.empty \<rparr>"


text \<open>C27: Submitting a stage never moves resources: the accounts stay balanced, whatever the
  outcome.\<close>

theorem submit_keeps_accounts:
  assumes "accounts_ok cs"
  shows "accounts_ok (snd (do_submit_stage env now req cs))"
proof -
  obtain res cs' where d: "do_submit_stage env now req cs = (res, cs')"
    by (cases "do_submit_stage env now req cs")
  show ?thesis
  proof (cases res)
    case (Inl e)
    then have "cs' = cs" using d
      by (auto simp: do_submit_stage_def Let_def simp del: append.simps split: sum.splits prod.splits)
    with assms d show ?thesis by simp
  next
    case (Inr resp)
    with d have d': "do_submit_stage env now req cs = (Inr resp, cs')" by simp
    obtain gid wid g sc cmd e keys sx job where c: "submit_checks env req cs = Inr (gid, wid, g, sc, cmd)"
      and cs': "cs' = record_stage env now gid wid g (unwrap_or 0 (map_option sc_max_duration_secs sc)) keys sx job cs"
      by (rule do_submit_accepted [OF d'])
    note g = submit_checks_accepted(1) [OF c]
    have "accounts_ok cs'"
      by (rule accounts_ok_same [OF assms g])
        (simp_all add: cs' enter_group_group [OF g] same_holding_def group_is_terminal_def)
    with d show ?thesis by simp
  qed
qed

lemma accounts_ok_sample_reserved: "accounts_ok (sample_reserved_cs s js)"
  by (simp add: sample_reserved_cs_def accounts_ok_def cpu_account.balanced_def memory_account.balanced_def
      cpu_account.due_def memory_account.due_def msum_def groups.well_keyed_def sample_group_def JobGroup_new_def
      WorkerState_new_def AllocatedResources_default_def)

theorem submit_keeps_accounts_witness:
  "let cs' = snd (do_submit_stage sample_db_env 5 (sample_submit ''build'') (sample_reserved_cs GReserved []))
   in accounts_ok cs' \<and> map_option g_state (gr_groups (cs_groups cs') ''g1'') = Some GRunning"
proof -
  let ?cs' = "snd (do_submit_stage sample_db_env 5 (sample_submit ''build'') (sample_reserved_cs GReserved []))"
  have "map_option g_state (gr_groups (cs_groups ?cs') ''g1'') = Some GRunning" by code_simp
  with submit_keeps_accounts [OF accounts_ok_sample_reserved] show ?thesis by simp
qed

text \<open>C28: The assignment an accepted submission sends names every secret variable of the
  repo among the keys the worker masks, and its environment defines each of them.\<close>

theorem submit_names_every_secret:
  assumes "do_submit_stage env now req cs = (Inr resp, cs')"
    and "env_parse_uuid env (sq_job_group_id req) = Some gid" "gr_groups (cs_groups cs) gid = Some g"
    and "g_reserved_worker_id g = Some wid" "cs_senders cs wid = Some True"
    and "db_of env (g_repo_id g) = Some (st, rid)" "st_variables st rid = Inr vars"
  shows "\<exists>a. SendAssignment wid a \<in> set (cs_effects cs') \<and> ja_job_id a = sp_job_id resp
     \<and> (\<forall>v \<in> set vars. pv_is_secret v \<longrightarrow>
          pv_name v \<in> set (ja_secret_env_keys a) \<and> pv_name v \<in> dom (ja_environment a))"
proof -
  obtain gid' wid' g' sc cmd e keys sx job where c: "submit_checks env req cs = Inr (gid', wid', g', sc, cmd)"
    and inj: "inject_variables env (g_repo_id g') (sq_environment req) = (e, keys)"
    and job: "job = stage_job_of now gid' wid' g' sc (sp_job_id resp) cmd
               (build_context env gid' g' (sq_stage_name req) e) sx req"
    and cs': "cs' = record_stage env now gid' wid' g' (unwrap_or 0 (map_option sc_max_duration_secs sc)) keys sx job cs"
    by (rule do_submit_accepted [OF assms(1)])
  have same: "gid' = gid" "g' = g" "wid' = wid"
    using submit_target_unique [OF c] submit_checks_accepted(1,2) [OF c] assms(2-4) by auto
  have "fold add_variable vars (sq_environment req, []) = (e, keys)"
    using inj by (simp add: inject_variables_def same assms(6,7) query_or_def)
  note vars = fold_add_variable [OF this]
  obtain gc where sent: "SendAssignment wid (stage_assignment job gid (unwrap_or 0 (map_option sc_max_duration_secs sc)) keys sx gc)
      \<in> set (cs_effects cs')"
    unfolding cs' same using record_stage_sends [OF assms(5)] by blast
  show ?thesis
    by (rule exI, rule conjI [OF sent])
      (use vars build_context_dom [of e env gid g "sq_stage_name req"] in
        \<open>simp add: stage_assignment_def job same, blast\<close>)
qed


definition secret_db_env :: Env where
  "secret_db_env = sample_db_env\<lparr> env_storage := Some (sample_storage\<lparr> st_variables := (\<lambda>_. Inr
     [\<lparr> pv_name = ''TOKEN'', pv_value = ''s3cret'', pv_is_secret = True \<rparr>]) \<rparr>) \<rparr>"

theorem submit_names_every_secret_witness:
  "\<exists>a. SendAssignment ''w1'' a \<in> set (cs_effects (snd
         (do_submit_stage secret_db_env 5 (sample_submit ''build'') (sample_reserved_cs GReserved []))))
     \<and> ''TOKEN'' \<in> set (ja_secret_env_keys a) \<and> ''TOKEN'' \<in> dom (ja_environment a)"
proof -
  let ?d = "do_submit_stage secret_db_env 5 (sample_submit ''build'') (sample_reserved_cs GReserved [])"
  let ?g = "(sample_group GReserved)\<lparr> g_reserved_worker_id := Some ''w1'' \<rparr>"
  have "\<not> isl (fst ?d)" by code_simp
  then obtain resp cs' where d: "?d = (Inr resp, cs')" by (cases ?d; cases "fst ?d") auto
  have "db_of secret_db_env (g_repo_id ?g) = Some (the (env_storage secret_db_env), ''repo'')"
    by (simp add: db_of_def secret_db_env_def sample_group_def JobGroup_new_def)
  from submit_names_every_secret [OF d _ _ _ _ this, where gid = "''g1''" and wid = "''w1''"
      and vars = "[\<lparr> pv_name = ''TOKEN'', pv_value = ''s3cret'', pv_is_secret = True \<rparr>]"]
  show ?thesis using d
    by (auto simp: secret_db_env_def sample_submit_def sample_reserved_cs_def)
qed


end
