(* ===== verification/Report.thy ===== *)
theory Report
  imports Submit
begin

text \<open>
  Status reports and cancellation (\<open>grpc_server.rs\<close>, \<open>report_job_status\<close> and
  \<open>cancel_job\<close>): the job's record, the metrics, the database, the completion of the
  group, and what follows it, the clean-up job, the release of the worker and the
  notification.  Acknowledgements of file purges are handled in \<open>Retention\<close>.
\<close>

section \<open>Reporting a job's state\<close>

record JobStatusAck =
  ak_ok :: bool
  ak_message :: string

definition count_report :: "int \<Rightarrow> Metrics \<Rightarrow> Metrics" where
  "count_report st m =
     (if st = 4 then dec_active_stages (inc_jobs_completed m)
      else if st = 5 then dec_active_stages (inc_stage_failures (inc_jobs_failed m))
      else if st = 6 then dec_active_stages (inc_jobs_cancelled m)
      else m)"

definition report_state_str :: "int \<Rightarrow> string" where
  "report_state_str st =
     (if st = 3 then ''running'' else if st = 4 then ''success'' else if st = 5 then ''failed''
      else if st = 6 then ''cancelled'' else if st = 2 then ''assigned'' else ''unknown'')"

definition report_reason :: "int \<Rightarrow> int \<Rightarrow> string" where
  "report_reason st code =
     (if st = 4 then ''Completed successfully (exit code 0)''
      else if st = 5 then ''Command failed (exit code '' @ int_to_dec code @ '')''
      else if st = 6 then ''Cancelled''
      else [])"

definition persist_report :: "Env \<Rightarrow> JobStatusUpdate \<Rightarrow> ControllerState \<Rightarrow> ControllerState" where
  "persist_report env u cs =
     (let job_uuid = env_v5 env (su_job_id u);
          state_str = report_state_str (su_state u);
          exit_code = (if su_exit_code u \<noteq> 0 \<or> state_str = ''success'' \<or> state_str = ''failed''
                       then Some (su_exit_code u) else None);
          cs = emit_db env (DbUpdateJobState job_uuid state_str exit_code (su_worker_id u)) cs;
          reason = report_reason (su_state u) (su_exit_code u)
      in if reason \<noteq> [] then emit_db env (DbUpdateJobReason job_uuid reason) cs else cs)"

definition as_i32 :: "int \<Rightarrow> int" where
  "as_i32 x = sint (word_of_int x :: 32 word)"

definition nil_uuid :: uuid where
  "nil_uuid = ''00000000-0000-0000-0000-000000000000''"

definition record_resources :: "Env \<Rightarrow> datetime \<Rightarrow> JobStatusUpdate \<Rightarrow> ControllerState \<Rightarrow> ControllerState" where
  "record_resources env now u cs =
     (if su_state u \<in> {4, 5, 6} then
        (case cs_jobs cs (su_job_id u) of
           Some job \<Rightarrow>
             (case j_stage_config_id job of
                Some stage_config_id \<Rightarrow>
                  (let repo_id = (case j_job_group_id job of
                         Some gid \<Rightarrow> unwrap_or nil_uuid (Option.bind (gr_groups (cs_groups cs) gid) g_repo_id)
                       | None \<Rightarrow> nil_uuid);
                       job_uuid = unwrap_or nil_uuid (env_parse_uuid env (su_job_id u));
                       duration_secs = map_option (\<lambda>start. as_i32 (num_seconds (now - start))) (j_started_at job)
                   in emit_db env (DbRecordStageResources stage_config_id repo_id job_uuid duration_secs (su_exit_code u)) cs)
              | None \<Rightarrow> cs)
         | None \<Rightarrow> cs)
      else cs)"

section \<open>Completing a group\<close>

definition report_model_state :: "int \<Rightarrow> JobState" where
  "report_model_state st =
     (if st = 4 then JSuccess else if st = 5 then JFailed else if st = 6 then JCancelled
      else if st = 3 then JRunning else JUnknown)"

text \<open>Phase 1, under the lock of the group registry.\<close>

definition note_report ::
  "Env \<Rightarrow> datetime \<Rightarrow> uuid \<Rightarrow> JobStatusUpdate \<Rightarrow> JobGroupRegistry \<Rightarrow> JobGroupState option \<times> JobGroupRegistry" where
  "note_report env now group_id u r =
     (let r = update_job_in_group (env_v5 env) now group_id (su_job_id u) (report_model_state (su_state u))
                (Some (su_exit_code u)) r;
          r = touch_activity now group_id r
      in check_group_completion now group_id r)"

text \<open>The worker's share goes back, and its Redis key is dropped.\<close>

definition release_group :: "Env \<Rightarrow> uuid \<Rightarrow> string option \<Rightarrow> AllocatedResources \<Rightarrow> ControllerState \<Rightarrow> ControllerState" where
  "release_group env group_id worker_id alloc cs =
     (case worker_id of
        Some wid \<Rightarrow> emit_redis env (RedisRelease wid group_id) (map_workers (release_worker wid alloc) cs)
      | None \<Rightarrow> cs)"

definition clean_up_group ::
  "Env \<Rightarrow> uuid \<Rightarrow> string option \<Rightarrow> uuid option \<Rightarrow> string option \<Rightarrow> string option \<Rightarrow> JobGroupState
   \<Rightarrow> ControllerState \<Rightarrow> ControllerState" where
  "clean_up_group env group_id worker_id repo_id branch commit_sha s cs =
     (case worker_id of
        Some wid \<Rightarrow> dispatch_global_post_script env group_id wid repo_id branch commit_sha s cs
      | None \<Rightarrow> cs)"

text \<open>Phase 2, after the lock has been dropped; \<open>g\<close> is the group as phase 1 left it.\<close>

definition settle_group :: "Env \<Rightarrow> uuid \<Rightarrow> JobGroupState \<Rightarrow> string option \<Rightarrow> JobGroup option \<Rightarrow> ControllerState \<Rightarrow> ControllerState" where
  "settle_group env group_id new_state worker_id g cs =
     (let repo_id = Option.bind g g_repo_id; branch = Option.bind g g_branch; commit_sha = Option.bind g g_commit_sha;
          alloc = unwrap_or AllocatedResources_default (map_option g_allocated_resources g);
          status_reason = Option.bind g g_status_reason;
          cs = map_metrics dec_active_builds cs;
          cs = clean_up_group env group_id worker_id repo_id branch commit_sha new_state cs;
          cs = release_group env group_id worker_id alloc cs;
          cs = emit_db env (DbUpdateGroupState group_id new_state status_reason) cs
      in case repo_id of
           Some rid \<Rightarrow> emit_db env (SendNotification rid (if new_state = GSuccess then ''on_success'' else ''on_failure'')
                         group_id branch commit_sha new_state) cs
         | None \<Rightarrow> cs)"

definition complete_group :: "Env \<Rightarrow> datetime \<Rightarrow> uuid \<Rightarrow> JobStatusUpdate \<Rightarrow> ControllerState \<Rightarrow> ControllerState" where
  "complete_group env now group_id u cs =
     (case note_report env now group_id u (cs_groups cs) of
        (None, r) \<Rightarrow> map_groups (\<lambda>_. r) cs
      | (Some new_state, r) \<Rightarrow>
          settle_group env group_id new_state (on_group_completed group_id r) (gr_groups r group_id) (map_groups (\<lambda>_. r) cs))"

definition report_status :: "Env \<Rightarrow> datetime \<Rightarrow> JobStatusUpdate \<Rightarrow> ControllerState \<Rightarrow> JobStatusAck \<times> ControllerState" where
  "report_status env now u cs =
     (let cs = map_jobs (update_status now u) cs;
          cs = map_metrics (count_report (su_state u)) cs;
          cs = persist_report env u cs;
          cs = record_resources env now u cs;
          cs = (if su_job_group_id u = [] then cs
                else case env_parse_uuid env (su_job_group_id u) of
                       Some group_id \<Rightarrow> complete_group env now group_id u cs
                     | None \<Rightarrow> cs)
      in (\<lparr> ak_ok = True, ak_message = ''Status updated'' \<rparr>, cs))"

section \<open>Cancelling\<close>

record CancelJobRequest =
  cr_job_id :: string
  cr_reason :: string
  cr_job_group_id :: string

record CancelJobResponse =
  cp_accepted :: bool
  cp_message :: string

definition cancel_group_rpc :: "Env \<Rightarrow> datetime \<Rightarrow> CancelJobRequest \<Rightarrow> CancelJobResponse handler" where
  "cancel_group_rpc env now req cs =
     (case env_parse_uuid env (cr_job_group_id req) of
        None \<Rightarrow> (Inl (Status InvalidArgument ''Invalid job_group_id UUID''), cs)
      | Some group_id \<Rightarrow>
          (case gr_groups (cs_groups cs) group_id of
             None \<Rightarrow> (Inl (Status NotFound (''Job group '' @ cr_job_group_id req @ '' not found'')), cs)
           | Some g \<Rightarrow>
               if group_is_terminal (g_state g)
               then (Inr \<lparr> cp_accepted = False, cp_message = ''Job group already in terminal state'' \<rparr>, cs)
               else
                 (let reason = ''Cancelled via gRPC: '' @ cr_reason req;
                      cs = map_groups (\<lambda>r. fail_group_jobs now group_id reason
                             (set_status_reason group_id reason (snd (update_state now group_id GCancelled r)))) cs;
                      cs = clean_up_group env group_id (g_reserved_worker_id g) (g_repo_id g) (g_branch g) (g_commit_sha g)
                             GCancelled cs;
                      cs = release_group env group_id (g_reserved_worker_id g) (g_allocated_resources g) cs;
                      cs = emit_db env (DbUpdateGroupState group_id GCancelled (Some reason)) cs;
                      cs = emit_db env (DbCancelJobsForGroup group_id) cs
                  in (Inr \<lparr> cp_accepted = True, cp_message = ''Job group '' @ cr_job_group_id req @ '' cancelled'' \<rparr>, cs))))"

definition cancel_job_rpc :: "Env \<Rightarrow> datetime \<Rightarrow> CancelJobRequest \<Rightarrow> CancelJobResponse handler" where
  "cancel_job_rpc env now req cs =
     (if cr_job_group_id req \<noteq> [] \<and> cr_job_id req = [] then cancel_group_rpc env now req cs
      else
        let (worker_id, jr) = cancel_job now (cr_job_id req) (cr_reason req) (cs_jobs cs);
            cs = map_jobs (\<lambda>_. jr) cs
        in case worker_id of
             Some wid \<Rightarrow>
               (Inr \<lparr> cp_accepted = True, cp_message = ''Job '' @ cr_job_id req @ '' cancelled'' \<rparr>,
                send_to wid (build_cancel_assignment (cr_job_id req) (cr_reason req)) cs)
           | None \<Rightarrow>
               if cs_jobs cs (cr_job_id req) = None
               then (Inl (Status NotFound (''Job '' @ cr_job_id req @ '' not found'')), cs)
               else (Inr \<lparr> cp_accepted = False, cp_message = ''Job already in terminal state'' \<rparr>, cs))"

section \<open>What the phases leave alone\<close>

lemma persist_report_frame [simp]:
  "cs_workers (persist_report env u cs) = cs_workers cs" "cs_groups (persist_report env u cs) = cs_groups cs"
  "cs_metrics (persist_report env u cs) = cs_metrics cs"
  by (simp_all add: persist_report_def Let_def del: append.simps)

lemma record_resources_frame [simp]:
  "cs_workers (record_resources env now u cs) = cs_workers cs" "cs_groups (record_resources env now u cs) = cs_groups cs"
  "cs_metrics (record_resources env now u cs) = cs_metrics cs"
  by (simp_all add: record_resources_def Let_def split: option.split)

lemma dispatch_global_post_script_frame [simp]:
  "cs_workers (dispatch_global_post_script env gid wid rid b c s cs) = cs_workers cs"
  "cs_groups (dispatch_global_post_script env gid wid rid b c s cs) = cs_groups cs"
  "cs_metrics (dispatch_global_post_script env gid wid rid b c s cs) = cs_metrics cs"
  by (simp_all add: dispatch_global_post_script_def split: option.split sum.split)

lemma clean_up_group_frame [simp]:
  "cs_workers (clean_up_group env gid wid rid b c s cs) = cs_workers cs"
  "cs_groups (clean_up_group env gid wid rid b c s cs) = cs_groups cs"
  "cs_metrics (clean_up_group env gid wid rid b c s cs) = cs_metrics cs"
  by (simp_all add: clean_up_group_def split: option.split)

lemma release_group_frame [simp]:
  "cs_workers (release_group env gid wid a cs) =
   (case wid of Some w \<Rightarrow> release_worker w a (cs_workers cs) | None \<Rightarrow> cs_workers cs)"
  "cs_groups (release_group env gid wid a cs) = cs_groups cs"
  "cs_metrics (release_group env gid wid a cs) = cs_metrics cs"
  by (simp_all add: release_group_def split: option.split)

lemma settle_group_frame [simp]:
  "cs_workers (settle_group env gid s wid (Some g) cs) =
   (case wid of Some w \<Rightarrow> release_worker w (g_allocated_resources g) (cs_workers cs) | None \<Rightarrow> cs_workers cs)"
  "cs_groups (settle_group env gid s wid (Some g) cs) = cs_groups cs"
  "cs_metrics (settle_group env gid s wid (Some g) cs) = dec_active_builds (cs_metrics cs)"
  by (simp_all add: settle_group_def Let_def unwrap_or_def split: option.split)

section \<open>Completion\<close>

lemma check_completion_cases:
  obtains (no) "check_group_completion now gid r = (None, r)"
  | (yes) g s reason where "gr_groups r gid = Some g" "\<not> group_is_terminal (g_state g)" "group_is_terminal s"
      "check_group_completion now gid r = (Some s, set_status_reason gid reason (snd (update_state now gid s r)))"
proof (cases "gr_groups r gid")
  case None
  then show ?thesis by (intro no) (simp add: check_group_completion_def)
next
  case (Some g)
  show ?thesis
  proof (cases "fst (check_group_completion now gid r)")
    case None
    then show ?thesis
      by (intro no) (auto simp: check_group_completion_def Some Let_def simp del: append.simps
          split: option.splits if_splits prod.splits)
  next
    case (Some s)
    then have "\<not> group_is_terminal (g_state g) \<and> group_is_terminal s \<and>
        (\<exists>reason. check_group_completion now gid r = (Some s, set_status_reason gid reason (snd (update_state now gid s r))))"
      using \<open>gr_groups r gid = Some g\<close>
      by (auto simp: check_group_completion_def Let_def group_is_terminal_def
          simp del: append.simps split: option.splits if_splits prod.splits)
    with \<open>gr_groups r gid = Some g\<close> yes show ?thesis by blast
  qed
qed

text \<open>The group registry after a report: only the group of the report moves, and it ends at most once.\<close>

lemma note_report_cases:
  obtains (idle) r' where "note_report env now gid u r = (None, r')"
      "\<And>k. gr_groups r' k = (if k = gid then map_option (\<lambda>g. g\<lparr> g_last_activity_at := now \<rparr>) (gr_groups r k) else gr_groups r k)"
  | (ended) r' g g' s where "note_report env now gid u r = (Some s, r')" "gr_groups r gid = Some g"
      "\<not> group_is_terminal (g_state g)" "gr_groups r' = (gr_groups r)(gid \<mapsto> g')" "g_id g' = g_id g"
      "g_reserved_worker_id g' = g_reserved_worker_id g" "g_allocated_resources g' = g_allocated_resources g"
      "g_state g' = (if valid_transition (g_state g) s then s else g_state g)" "group_is_terminal s"
proof -
  define r1 where "r1 = touch_activity now gid (update_job_in_group (env_v5 env) now gid (su_job_id u)
      (report_model_state (su_state u)) (Some (su_exit_code u)) r)"
  have r1: "gr_groups r1 k = (if k = gid then map_option (\<lambda>g. g\<lparr> g_last_activity_at := now \<rparr>) (gr_groups r k) else gr_groups r k)" for k
    by (simp add: r1_def touch_activity_def update_job_in_group_def)
  have nr: "note_report env now gid u r = check_group_completion now gid r1"
    by (simp add: note_report_def r1_def Let_def)
  show ?thesis
  proof (cases rule: check_completion_cases [of now gid r1])
    case no
    with nr r1 show ?thesis by (intro idle) auto
  next
    case (yes g1 s reason)
    then obtain g where g: "gr_groups r gid = Some g" "g1 = g\<lparr> g_last_activity_at := now \<rparr>" by (auto simp: r1)
    define g' where "g' = (if valid_transition (g_state g1) s then enter_state now s g1 else g1)\<lparr> g_status_reason := Some reason \<rparr>"
    have "gr_groups (set_status_reason gid reason (snd (update_state now gid s r1))) k = ((gr_groups r)(gid \<mapsto> g')) k" for k
      by (simp add: groups_update_state r1 g g'_def)
    then have "gr_groups (set_status_reason gid reason (snd (update_state now gid s r1))) = (gr_groups r)(gid \<mapsto> g')" by blast
    then show ?thesis using nr yes g
      by (intro ended [where g = g and g' = g' and s = s]) (auto simp: g'_def)
  qed
qed

lemma on_group_completed_eq:
  "gr_groups r gid = Some g \<Longrightarrow> on_group_completed gid r = (if group_is_terminal (g_state g) then g_reserved_worker_id g else None)"
  by (simp add: on_group_completed_def)

lemma complete_group_outcome:
  "keeps_holdings cs (complete_group env now gid u cs) \<or> (\<exists>g. settles cs gid g (complete_group env now gid u cs))"
proof (cases rule: note_report_cases [of env now gid u "cs_groups cs"])
  case (idle r')
  then have "keeps_holdings cs (complete_group env now gid u cs)"
    by (auto simp: complete_group_def keeps_holdings_def same_holding_def split: option.split)
  then show ?thesis ..
next
  case (ended r' g g' s)
  let ?wid = "on_group_completed gid r'"
  have g': "gr_groups r' gid = Some g'" using ended by simp
  have cs': "complete_group env now gid u cs = settle_group env gid s ?wid (Some g') (map_groups (\<lambda>_. r') cs)"
    using ended(1) g' by (simp add: complete_group_def)
  show ?thesis
  proof (cases "valid_transition (g_state g) s")
    case True
    then have "?wid = g_reserved_worker_id g" "group_is_terminal (g_state g')"
      using ended g' by (simp_all add: on_group_completed_eq)
    moreover have "gr_groups (cs_groups (complete_group env now gid u cs)) = (gr_groups (cs_groups cs))(gid \<mapsto> g')"
      using ended(4) by (simp add: cs')
    ultimately have "settles cs gid g (complete_group env now gid u cs)"
      unfolding settles_def using ended(2,3,5,7) by (auto simp: cs' split: option.split)
    then show ?thesis by blast
  next
    case False
    then have "?wid = None" using ended g' by (simp add: on_group_completed_eq)
    with False have "keeps_holdings cs (complete_group env now gid u cs)"
      using ended by (auto simp: cs' keeps_holdings_def same_holding_def split: option.split)
    then show ?thesis ..
  qed
qed

lemma report_status_outcome:
  "keeps_holdings cs (snd (report_status env now u cs))
   \<or> (\<exists>gid g. env_parse_uuid env (su_job_group_id u) = Some gid \<and> settles cs gid g (snd (report_status env now u cs)))"
proof -
  define cs1 where "cs1 = record_resources env now u (persist_report env u
      (map_metrics (count_report (su_state u)) (map_jobs (update_status now u) cs)))"
  have frame: "cs_workers cs1 = cs_workers cs" "cs_groups cs1 = cs_groups cs" by (simp_all add: cs1_def)
  have lift: "keeps_holdings cs1 x = keeps_holdings cs x" "settles cs1 gid g x = settles cs gid g x" for x gid g
    by (simp_all add: keeps_holdings_def settles_def frame cong: option.case_cong)
  have rep: "snd (report_status env now u cs) =
      (if su_job_group_id u = [] then cs1
       else case env_parse_uuid env (su_job_group_id u) of Some gid \<Rightarrow> complete_group env now gid u cs1 | None \<Rightarrow> cs1)"
    by (simp add: report_status_def Let_def cs1_def cong: option.case_cong)
  show ?thesis
  proof (cases "su_job_group_id u = [] \<or> env_parse_uuid env (su_job_group_id u) = None")
    case True
    then have "snd (report_status env now u cs) = cs1" using rep by (auto split: if_splits)
    then show ?thesis using frame by simp
  next
    case False
    then obtain gid where "env_parse_uuid env (su_job_group_id u) = Some gid"
      "snd (report_status env now u cs) = complete_group env now gid u cs1" using rep by auto
    with complete_group_outcome [of cs1 env now gid u] show ?thesis by (auto simp: lift)
  qed
qed

section \<open>Properties\<close>

text \<open>C30: A worker's share is given back exactly when its group ends.  After a status report
  either no worker's counters and no group's holding have changed, or the group
  named by the report has gone from unfinished to finished and exactly its allocation
  has been released on its worker; a group that has already ended is never
  released again.\<close>

theorem report_releases_exactly_on_completion:
  assumes "report_status env now u cs = (ack, cs')"
  shows "(cs_workers cs' = cs_workers cs \<and>
          (\<forall>k g. gr_groups (cs_groups cs) k = Some g \<longrightarrow>
             (\<exists>g'. gr_groups (cs_groups cs') k = Some g' \<and> same_holding g g')))
     \<or> (\<exists>gid g g'. env_parse_uuid env (su_job_group_id u) = Some gid
          \<and> gr_groups (cs_groups cs) gid = Some g \<and> \<not> group_is_terminal (g_state g)
          \<and> gr_groups (cs_groups cs') = (gr_groups (cs_groups cs))(gid \<mapsto> g') \<and> group_is_terminal (g_state g')
          \<and> cs_workers cs' = (case g_reserved_worker_id g of
               Some wid \<Rightarrow> release_worker wid (g_allocated_resources g) (cs_workers cs) | None \<Rightarrow> cs_workers cs))"
proof -
  have "cs' = snd (report_status env now u cs)" using assms by simp
  with report_status_outcome [of cs env now u]
  consider "keeps_holdings cs cs'" | gid g where "env_parse_uuid env (su_job_group_id u) = Some gid" "settles cs gid g cs'"
    by blast
  then show ?thesis
  proof cases
    case 1
    then have "\<exists>g'. gr_groups (cs_groups cs') k = Some g' \<and> same_holding g g'" if "gr_groups (cs_groups cs) k = Some g" for k g
      using that by (auto simp: keeps_holdings_def dest!: spec [of _ k])
    then show ?thesis using 1 by (simp add: keeps_holdings_def)
  next
    case 2
    then show ?thesis by (auto simp: settles_def)
  qed
qed

definition held_cs :: "JobGroupState \<Rightarrow> Job list \<Rightarrow> ControllerState" where
  "held_cs s js = sample_cs
     \<lparr> cs_workers := [''w1'' \<mapsto> (WorkerState_new 0 sample_info)\<lparr> ws_allocated_cpu := 2, ws_allocated_memory_mb := 1000 \<rparr>],
       cs_groups := \<lparr> gr_groups = [''g1'' \<mapsto> (sample_group s)\<lparr> g_reserved_worker_id := Some ''w1'',
             g_allocated_resources := \<lparr> ar_cpu = 2, ar_memory_mb = 1000, ar_disk_mb = 0 \<rparr> \<rparr>],
         gr_group_jobs = [''g1'' \<mapsto> js] \<rparr> \<rparr>"

definition failed_report :: JobStatusUpdate where
  "failed_report = \<lparr> su_worker_id = ''w1'', su_job_id = ''g1-build'', su_state = 5, su_message = [], su_exit_code = 2,
     su_timestamp_unix = 0, su_job_group_id = ''g1'', su_stage_name = ''build'', su_phase = [], su_pre_exit_code = 0,
     su_post_exit_code = 0, su_purge_ack = False \<rparr>"

theorem report_releases_exactly_on_completion_witness:
  "let cs' = snd (report_status sample_env 5 failed_report (held_cs GRunning [stage_job ''build'' JRunning]))
   in map_option g_state (gr_groups (cs_groups cs') ''g1'') = Some GFailed
    \<and> cs_workers cs' = release_worker ''w1'' \<lparr> ar_cpu = 2, ar_memory_mb = 1000, ar_disk_mb = 0 \<rparr>
        (cs_workers (held_cs GRunning [stage_job ''build'' JRunning]))"
proof -
  let ?cs = "held_cs GRunning [stage_job ''build'' JRunning]"
  let ?d = "report_status sample_env 5 failed_report ?cs"
  obtain ack cs' where d: "?d = (ack, cs')" by (cases ?d)
  have ev: "map_option g_state (gr_groups (cs_groups (snd ?d)) ''g1'') = Some GFailed" by code_simp
  then have st: "map_option g_state (gr_groups (cs_groups cs') ''g1'') = Some GFailed" using d by simp
  have uuid: "env_parse_uuid sample_env (su_job_group_id failed_report) = Some ''g1''" by (simp add: failed_report_def)
  have grp: "gr_groups (cs_groups ?cs) ''g1'' = Some ((sample_group GRunning)\<lparr> g_reserved_worker_id := Some ''w1'',
             g_allocated_resources := \<lparr> ar_cpu = 2, ar_memory_mb = 1000, ar_disk_mb = 0 \<rparr> \<rparr>)"
    by (simp add: held_cs_def)
  have "cs_workers cs' = release_worker ''w1'' \<lparr> ar_cpu = 2, ar_memory_mb = 1000, ar_disk_mb = 0 \<rparr> (cs_workers ?cs)"
  proof -
    have "\<not> (\<exists>g'. gr_groups (cs_groups cs') ''g1'' = Some g' \<and> same_holding (the (gr_groups (cs_groups ?cs) ''g1'')) g')"
      using st grp by (auto simp: same_holding_def sample_group_def group_is_terminal_def)
    then have "\<not> (\<forall>k g. gr_groups (cs_groups ?cs) k = Some g \<longrightarrow>
        (\<exists>g'. gr_groups (cs_groups cs') k = Some g' \<and> same_holding g g'))"
      using grp by (metis option.sel)
    with report_releases_exactly_on_completion [OF d] obtain gid g where "env_parse_uuid sample_env (su_job_group_id failed_report) = Some gid"
      "gr_groups (cs_groups ?cs) gid = Some g" "cs_workers cs' = (case g_reserved_worker_id g of
               Some wid \<Rightarrow> release_worker wid (g_allocated_resources g) (cs_workers ?cs) | None \<Rightarrow> cs_workers ?cs)" by blast
    with uuid grp show ?thesis by simp
  qed
  with st d show ?thesis by simp
qed

section \<open>Cancelling\<close>

lemma cancel_group_outcome:
  assumes "cancel_group_rpc env now req cs = (res, cs')"
  shows "cs' = cs \<or> (\<exists>gid g. res = Inr \<lparr> cp_accepted = True, cp_message = ''Job group '' @ cr_job_group_id req @ '' cancelled'' \<rparr>
     \<and> env_parse_uuid env (cr_job_group_id req) = Some gid \<and> settles cs gid g cs'
     \<and> map_option g_state (gr_groups (cs_groups cs') gid) = Some GFailed
     \<and> get_jobs_for_group gid (cs_groups cs') =
         map (fail_job now (''Cancelled via gRPC: '' @ cr_reason req)) (get_jobs_for_group gid (cs_groups cs)))"
proof (cases "env_parse_uuid env (cr_job_group_id req)")
  case None
  then show ?thesis using assms by (auto simp: cancel_group_rpc_def)
next
  case (Some gid)
  let ?reason = "''Cancelled via gRPC: '' @ cr_reason req"
  let ?f = "\<lambda>r. fail_group_jobs now gid ?reason (set_status_reason gid ?reason (snd (update_state now gid GCancelled r)))"
  show ?thesis
  proof (cases "gr_groups (cs_groups cs) gid")
    case None
    then show ?thesis using assms Some by (auto simp: cancel_group_rpc_def simp del: append.simps)
  next
    case g: (Some g)
    show ?thesis
    proof (cases "group_is_terminal (g_state g)")
      case True
      then show ?thesis using assms Some g by (auto simp: cancel_group_rpc_def simp del: append.simps)
    next
      case False
      define g' where "g' = enter_state now GFailed ((enter_state now GCancelled g)\<lparr> g_status_reason := Some ?reason \<rparr>)"
      have "gr_groups (?f (cs_groups cs)) k = ((gr_groups (cs_groups cs))(gid \<mapsto> g')) k" for k
        by (simp add: fail_group_jobs_def groups_update_state g g'_def del: append.simps)
      then have groups: "gr_groups (?f (cs_groups cs)) = (gr_groups (cs_groups cs))(gid \<mapsto> g')" by blast
      have jobs: "get_jobs_for_group gid (?f (cs_groups cs)) = map (fail_job now ?reason) (get_jobs_for_group gid (cs_groups cs))"
        by (simp add: fail_group_jobs_def get_jobs_for_group_def del: append.simps split: option.split)
      have w: "cs_workers cs' = (case g_reserved_worker_id g of
           Some wid \<Rightarrow> release_worker wid (g_allocated_resources g) (cs_workers cs) | None \<Rightarrow> cs_workers cs)"
        and gs: "cs_groups cs' = ?f (cs_groups cs)"
        and r: "res = Inr \<lparr> cp_accepted = True, cp_message = ''Job group '' @ cr_job_group_id req @ '' cancelled'' \<rparr>"
        using assms Some g False by (auto simp: cancel_group_rpc_def Let_def simp del: append.simps split: option.split)
      have "settles cs gid g cs'"
        unfolding settles_def using g False groups gs w by (auto simp: g'_def group_is_terminal_def simp del: append.simps)
      moreover have "map_option g_state (gr_groups (cs_groups cs') gid) = Some GFailed"
        unfolding gs groups by (simp add: g'_def del: append.simps)
      moreover note jobs [folded gs]
      ultimately show ?thesis using r Some by blast
    qed
  qed
qed

text \<open>C31: Cancelling a group over gRPC ends it in memory and gives its share back.  The call
  either changes nothing, or it accepts: the group was unfinished and has ended,
  exactly its allocation is released, and every job that had not settled has failed.
  The state it ends in is \<open>Failed\<close>, while the row written to the database says
  \<open>Cancelled\<close>.\<close>

theorem cancel_group_settles:
  assumes "cancel_group_rpc env now req cs = (res, cs')"
  shows "cs' = cs
     \<or> (\<exists>gid g. env_parse_uuid env (cr_job_group_id req) = Some gid \<and> settles cs gid g cs'
          \<and> map_option g_state (gr_groups (cs_groups cs') gid) = Some GFailed
          \<and> (env_storage env \<noteq> None \<longrightarrow>
               DbUpdateGroupState gid GCancelled (Some (''Cancelled via gRPC: '' @ cr_reason req)) \<in> set (cs_effects cs'))
          \<and> get_jobs_for_group gid (cs_groups cs') =
              map (fail_job now (''Cancelled via gRPC: '' @ cr_reason req)) (get_jobs_for_group gid (cs_groups cs)))"
proof -
  have "DbUpdateGroupState gid GCancelled (Some (''Cancelled via gRPC: '' @ cr_reason req)) \<in> set (cs_effects cs')"
    if "env_storage env \<noteq> None" "env_parse_uuid env (cr_job_group_id req) = Some gid" "cs' \<noteq> cs" for gid
    using assms that
    by (auto simp: cancel_group_rpc_def Let_def emit_db_def simp del: append.simps split: option.splits if_splits)
  with cancel_group_outcome [OF assms] show ?thesis by blast
qed

theorem cancel_group_settles_witness:
  "let cs' = snd (cancel_group_rpc sample_env 5 \<lparr> cr_job_id = [], cr_reason = ''stop'', cr_job_group_id = ''g1'' \<rparr>
                    (held_cs GRunning [stage_job ''build'' JRunning]))
   in map_option g_state (gr_groups (cs_groups cs') ''g1'') = Some GFailed
    \<and> map_option ws_allocated_cpu (cs_workers cs' ''w1'') = Some 0
    \<and> settles (held_cs GRunning [stage_job ''build'' JRunning]) ''g1''
        (the (gr_groups (cs_groups (held_cs GRunning [])) ''g1'')) cs'"
proof -
  let ?req = "\<lparr> cr_job_id = [], cr_reason = ''stop'', cr_job_group_id = ''g1'' \<rparr>"
  let ?cs = "held_cs GRunning [stage_job ''build'' JRunning]"
  let ?d = "cancel_group_rpc sample_env 5 ?req ?cs"
  obtain res cs' where d: "?d = (res, cs')" by (cases ?d)
  have ev: "map_option g_state (gr_groups (cs_groups (snd ?d)) ''g1'') = Some GFailed
      \<and> map_option ws_allocated_cpu (cs_workers (snd ?d) ''w1'') = Some 0" by code_simp
  then have "cs' \<noteq> ?cs" using d by (auto simp: held_cs_def)
  with cancel_group_settles [OF d] obtain g where "settles ?cs ''g1'' g cs'" by auto
  moreover from this have "g = the (gr_groups (cs_groups (held_cs GRunning [])) ''g1'')"
    by (simp add: settles_def held_cs_def)
  ultimately show ?thesis using ev d by simp
qed

text \<open>A queued job can be cancelled, but the answer says it could not.\<close>

theorem cancel_queued_job_refused:
  assumes "cs_jobs cs jid = Some j" "j_state j = JQueued" "cr_job_id req = jid" "cr_job_group_id req = []"
  shows "map_option j_state (cs_jobs (snd (cancel_job_rpc env now req cs)) jid) = Some JCancelled
       \<and> fst (cancel_job_rpc env now req cs) =
           Inr \<lparr> cp_accepted = False, cp_message = ''Job already in terminal state'' \<rparr>"
  using assms by (simp add: cancel_job_rpc_def cancel_job_def Let_def del: append.simps)

lemma cancel_job_accounts:
  "accounts_ok cs \<Longrightarrow> accounts_ok (snd (cancel_job_rpc env now req cs))"
proof (cases "cr_job_group_id req \<noteq> [] \<and> cr_job_id req = []")
  case True
  assume ok: "accounts_ok cs"
  obtain res cs' where c: "cancel_group_rpc env now req cs = (res, cs')" by (cases "cancel_group_rpc env now req cs")
  from cancel_group_outcome [OF c] ok have "accounts_ok cs'" by (auto intro: accounts_ok_settles)
  with c True show ?thesis by (simp add: cancel_job_rpc_def)
next
  case False
  assume ok: "accounts_ok cs"
  have "cs_workers (snd (cancel_job_rpc env now req cs)) = cs_workers cs \<and>
        cs_groups (snd (cancel_job_rpc env now req cs)) = cs_groups cs"
    using False by (auto simp: cancel_job_rpc_def Let_def simp del: append.simps split: prod.split option.split)
  with ok show ?thesis using accounts_ok_cong by metis
qed

lemma report_status_accounts:
  "accounts_ok cs \<Longrightarrow> accounts_ok (snd (report_status env now u cs))"
  using report_status_outcome [of cs env now u] by (auto intro: accounts_ok_keeps accounts_ok_settles)

end
