(* ===== verification/Recovery.thy ===== *)
theory Recovery
  imports Report
begin

text \<open>
  The controller's background tasks (\<open>grpc_server.rs\<close>, \<open>run\<close>, and \<open>main.rs\<close>): worker
  death after a missed heartbeat, the reconciler of worker allocations, the reaper of
  stuck groups, the reaper of idle and stalled reservations, orphan clean-up and
  eviction.  Each is one tick of its loop.  A tick that reads a list
  under one lock and acts on it under another is given as the reading and the action, so
  that other steps can come between.
\<close>

section \<open>Worker death\<close>

definition add_request :: "resource_request \<Rightarrow> AllocatedResources \<Rightarrow> resource_request" where
  "add_request t a = (fst t + ar_cpu a, fst (snd t) + ar_memory_mb a, snd (snd t) + ar_disk_mb a)"

definition fail_dead_group ::
  "datetime \<Rightarrow> string \<Rightarrow> uuid \<Rightarrow> JobGroupRegistry \<times> resource_request \<Rightarrow> JobGroupRegistry \<times> resource_request" where
  "fail_dead_group now reason gid acc =
     (let r = fail_group_jobs now gid reason (fst acc)
      in case gr_groups r gid of
           Some g \<Rightarrow> (set_status_reason gid reason r, add_request (snd acc) (g_allocated_resources g))
         | None \<Rightarrow> (r, snd acc))"

definition death_reason :: "string \<Rightarrow> string" where
  "death_reason wid = ''Worker '' @ wid @ '' disconnected (heartbeat timeout)''"

definition persist_failed :: "Env \<Rightarrow> string \<Rightarrow> uuid \<Rightarrow> ControllerState \<Rightarrow> ControllerState" where
  "persist_failed env reason gid cs =
     emit_db env (DbCancelJobsForGroup gid) (emit_db env (DbUpdateGroupState gid GFailed (Some reason)) cs)"

definition worker_death :: "Env \<Rightarrow> datetime \<Rightarrow> string \<Rightarrow> ControllerState \<Rightarrow> ControllerState" where
  "worker_death env now wid cs =
     (let reason = death_reason wid;
          (to_migrate, to_fail) = handle_worker_death (env_group_order env (gr_groups (cs_groups cs))) wid (cs_groups cs);
          (r, (c, m, d)) = fold (fail_dead_group now reason) to_fail (cs_groups cs, (0, 0, 0));
          cs = map_groups (\<lambda>_. r) cs;
          cs = map_metrics (dec_active_builds ^^ length to_fail) cs;
          cs = (if c > 0 \<or> m > 0 \<or> d > 0 then map_workers (hm_modify wid (release c m d)) cs else cs);
          cs = fold (persist_failed env reason) to_fail cs
      in emit_redis env (RedisReleaseForce wid) cs)"

definition forget_running :: "Env \<Rightarrow> datetime \<Rightarrow> string \<Rightarrow> ControllerState \<Rightarrow> ControllerState" where
  "forget_running env now wid cs =
     (let (marked, jr) = mark_unknown_for_worker (env_job_order env (cs_jobs cs)) now wid (cs_jobs cs)
      in map_metrics (dec_active_stages ^^ marked) (map_jobs (\<lambda>_. jr) cs))"

definition heartbeat_tick :: "Env \<Rightarrow> datetime \<Rightarrow> u64 \<Rightarrow> ControllerState \<Rightarrow> ControllerState" where
  "heartbeat_tick env now hb_timeout cs =
     (let (timed_out, wr) = check_heartbeat_timeouts (env_worker_order env (cs_workers cs)) now hb_timeout (cs_workers cs);
          cs = map_workers (\<lambda>_. wr) cs
      in if timed_out = [] then cs
         else
           let cs = map_metrics (set_connected_workers
                      (int (length (connected_workers (env_worker_order env (cs_workers cs)) (cs_workers cs))))) cs;
               cs = fold (forget_running env now) timed_out cs
           in fold (worker_death env now) timed_out cs)"

section \<open>The reconciler\<close>

definition expected_sum :: "Env \<Rightarrow> JobGroupRegistry \<Rightarrow> string \<Rightarrow> resource_request" where
  "expected_sum env r wid =
     fold (\<lambda>g t. if group_is_terminal (g_state g) then t else add_request t (g_allocated_resources g))
       (get_groups_for_worker (env_group_order env (gr_groups r)) wid r) (0, 0, 0)"

definition correct_drift :: "resource_request \<Rightarrow> WorkerState \<Rightarrow> WorkerState" where
  "correct_drift e w =
     (if (ws_allocated_cpu w, ws_allocated_memory_mb w, ws_allocated_disk_mb w) \<noteq> e
      then w\<lparr> ws_allocated_cpu := fst e, ws_allocated_memory_mb := fst (snd e), ws_allocated_disk_mb := snd (snd e) \<rparr>
      else w)"

definition reconcile_worker_allocations :: "Env \<Rightarrow> ControllerState \<Rightarrow> ControllerState" where
  "reconcile_worker_allocations env cs =
     (let worker_ids = map (\<lambda>w. wi_worker_id (ws_info w)) (all_workers (env_worker_order env (cs_workers cs)) (cs_workers cs));
          expected = expected_sum env (cs_groups cs)
      in map_workers (fold (\<lambda>wid. hm_modify wid (correct_drift (expected wid))) worker_ids) cs)"

section \<open>The reaper of stuck groups\<close>

definition num_hours :: "int \<Rightarrow> int" where
  "num_hours d = (let s = num_seconds d in if 0 \<le> s then s div 3600 else - ((- s) div 3600))"

definition STUCK_REASON :: string where
  "STUCK_REASON = ''Group stuck: running for more than 4 hours''"

definition stuck_groups :: "Env \<Rightarrow> datetime \<Rightarrow> JobGroupRegistry \<Rightarrow> uuid list" where
  "stuck_groups env now r =
     map g_id (filter (\<lambda>g. g_state g = GRunning \<and> num_hours (now - g_updated_at g) \<ge> 4)
       (active_groups (env_group_order env (gr_groups r)) r))"

definition fail_stuck :: "datetime \<Rightarrow> uuid \<Rightarrow> JobGroupRegistry \<Rightarrow> JobGroupRegistry" where
  "fail_stuck now gid r = set_status_reason gid STUCK_REASON (snd (update_state now gid GFailed r))"

definition reap_stuck_groups :: "Env \<Rightarrow> datetime \<Rightarrow> ControllerState \<Rightarrow> ControllerState" where
  "reap_stuck_groups env now cs =
     (let stuck = stuck_groups env now (cs_groups cs);
          cs = map_groups (fold (fail_stuck now) stuck) cs
      in fold (persist_failed env STUCK_REASON) stuck cs)"

section \<open>The reaper of stale reservations\<close>

definition is_stale :: "datetime \<Rightarrow> u64 \<Rightarrow> u64 \<Rightarrow> JobGroupRegistry \<Rightarrow> JobGroup \<Rightarrow> bool" where
  "is_stale now idle_timeout stall_timeout r g =
     (let idle_secs = as_u64 (max 0 (num_seconds (now - g_last_activity_at g)))
      in case g_state g of
           GReserved \<Rightarrow> idle_secs > idle_timeout
         | GRunning \<Rightarrow>
             if list_ex (\<lambda>j. j_state j \<in> {JRunning, JAssigned}) (get_jobs_for_group (g_id g) r) then False
             else idle_secs > stall_timeout
         | _ \<Rightarrow> False)"

definition stale_groups :: "Env \<Rightarrow> datetime \<Rightarrow> u64 \<Rightarrow> u64 \<Rightarrow> JobGroupRegistry \<Rightarrow> JobGroup list" where
  "stale_groups env now idle_timeout stall_timeout r =
     filter (is_stale now idle_timeout stall_timeout r) (active_groups (env_group_order env (gr_groups r)) r)"

definition reap_reason :: "u64 \<Rightarrow> u64 \<Rightarrow> JobGroup \<Rightarrow> string" where
  "reap_reason idle_timeout stall_timeout g =
     (if g_state g = GReserved
      then ''Reservation expired: no stage submitted within '' @ nat_to_dec (unat idle_timeout) @ ''s''
      else ''Reservation expired: no activity for '' @ nat_to_dec (unat stall_timeout) @ ''s after last stage'')"

text \<open>\<open>g\<close> is the group as it was when the list was read.\<close>

definition reap_one :: "Env \<Rightarrow> datetime \<Rightarrow> u64 \<Rightarrow> u64 \<Rightarrow> JobGroup \<Rightarrow> ControllerState \<Rightarrow> ControllerState" where
  "reap_one env now idle_timeout stall_timeout g cs =
     (let reason = reap_reason idle_timeout stall_timeout g;
          gid = g_id g;
          cs = map_groups (\<lambda>r. fail_group_jobs now gid reason
                 (set_status_reason gid reason (snd (update_state now gid GExpired r)))) cs;
          cs = clean_up_group env gid (g_reserved_worker_id g) (g_repo_id g) (g_branch g) (g_commit_sha g) GExpired cs;
          cs = release_group env gid (g_reserved_worker_id g) (g_allocated_resources g) cs;
          cs = emit_db env (DbUpdateGroupState gid GExpired (Some reason)) cs;
          cs = emit_db env (DbCancelJobsForGroup gid) cs
      in map_metrics dec_active_builds cs)"

definition reap_stale_reservations :: "Env \<Rightarrow> datetime \<Rightarrow> u64 \<Rightarrow> u64 \<Rightarrow> ControllerState \<Rightarrow> ControllerState" where
  "reap_stale_reservations env now idle_timeout stall_timeout cs =
     fold (reap_one env now idle_timeout stall_timeout) (stale_groups env now idle_timeout stall_timeout (cs_groups cs)) cs"

section \<open>Housekeeping\<close>

definition orphan_tick :: "Env \<Rightarrow> datetime \<Rightarrow> u64 \<Rightarrow> ControllerState \<Rightarrow> ControllerState" where
  "orphan_tick env now orphan_timeout cs =
     map_jobs (\<lambda>jr. snd (cancel_orphaned_jobs (env_job_order env jr) now orphan_timeout jr)) cs"

definition log_cleanup_tick :: "datetime \<Rightarrow> ControllerState \<Rightarrow> ControllerState" where
  "log_cleanup_tick now = map_logs (cleanup_old_logs now 3600)"

definition evict_tick :: "Env \<Rightarrow> datetime \<Rightarrow> ControllerState \<Rightarrow> ControllerState" where
  "evict_tick env now cs =
     (let cs = map_jobs (\<lambda>jr. snd (jr_evict_terminal (env_job_order env jr) now (1800 * nanos_per_sec) jr)) cs
      in map_groups (\<lambda>r. snd (gr_evict_terminal (env_group_order env (gr_groups r)) now (1800 * nanos_per_sec) r)) cs)"

section \<open>Worker death and the accounts\<close>

lemma fold_add_request:
  "fold (\<lambda>k t. add_request t (a k)) ks t =
   (fst t + sum_list (map (\<lambda>k. ar_cpu (a k)) ks), fst (snd t) + sum_list (map (\<lambda>k. ar_memory_mb (a k)) ks),
    snd (snd t) + sum_list (map (\<lambda>k. ar_disk_mb (a k)) ks))"
  by (induction ks arbitrary: t) (simp_all add: add_request_def algebra_simps)

definition failed_by :: "datetime \<Rightarrow> string \<Rightarrow> JobGroup \<Rightarrow> JobGroup" where
  "failed_by now reason g = (enter_state now GFailed g)\<lparr> g_status_reason := Some reason \<rparr>"

lemma fail_dead_group_groups:
  "gr_groups r gid = Some g \<Longrightarrow>
   gr_groups (fst (fail_dead_group now reason gid (r, t))) = (gr_groups r)(gid \<mapsto> failed_by now reason g)
   \<and> snd (fail_dead_group now reason gid (r, t)) = add_request t (g_allocated_resources g)"
proof -
  assume g: "gr_groups r gid = Some g"
  have "gr_groups (set_status_reason gid reason (fail_group_jobs now gid reason r)) k = ((gr_groups r)(gid \<mapsto> failed_by now reason g)) k" for k
    using g by (simp add: fail_group_jobs_def groups_update_state failed_by_def)
  then show ?thesis using g
    by (auto simp: fail_dead_group_def Let_def fail_group_jobs_def groups_update_state)
qed

lemma fold_fail_dead_group:
  assumes "distinct ks" "set ks \<subseteq> dom (gr_groups r)"
  shows "gr_groups (fst (fold (fail_dead_group now reason) ks (r, t))) =
           (\<lambda>k. if k \<in> set ks then map_option (failed_by now reason) (gr_groups r k) else gr_groups r k)
       \<and> snd (fold (fail_dead_group now reason) ks (r, t)) =
           fold (\<lambda>k t. add_request t (g_allocated_resources (the (gr_groups r k)))) ks t"
  using assms
proof (induction ks arbitrary: r t)
  case (Cons k ks)
  then obtain g where g: "gr_groups r k = Some g" by auto
  obtain r1 t1 where step: "fail_dead_group now reason k (r, t) = (r1, t1)" by (cases "fail_dead_group now reason k (r, t)")
  then have r1: "gr_groups r1 = (gr_groups r)(k \<mapsto> failed_by now reason g)" "t1 = add_request t (g_allocated_resources g)"
    using fail_dead_group_groups [OF g, of now reason t] by auto
  have "distinct ks" "set ks \<subseteq> dom (gr_groups r1)" "k \<notin> set ks" using Cons.prems r1 by auto
  note IH = Cons.IH [OF this(1,2), of t1]
  have "fold (\<lambda>k t. add_request t (g_allocated_resources (the (gr_groups r1 k)))) ks t1 =
        fold (\<lambda>k t. add_request t (g_allocated_resources (the (gr_groups r k)))) ks t1"
    using \<open>k \<notin> set ks\<close> by (intro fold_cong) (auto simp: r1)
  with IH step g \<open>k \<notin> set ks\<close> show ?case by (auto simp: r1 fun_eq_iff)
qed simp

lemma fold_persist_failed_frame [simp]:
  "cs_workers (fold (persist_failed env reason) ks cs) = cs_workers cs"
  "cs_groups (fold (persist_failed env reason) ks cs) = cs_groups cs"
  by (induction ks arbitrary: cs) (simp_all add: persist_failed_def)

lemma release_if_any:
  fixes wid :: string
  shows "(if c > 0 \<or> m > 0 \<or> d > 0 then hm_modify wid (release c m d) wr else wr) k =
   (if k = wid then map_option (release c m d) (wr k) else wr k)"
proof (cases "c > 0 \<or> m > 0 \<or> d > 0")
  case True
  then show ?thesis by (simp only: if_True hm_modify_apply) simp
next
  case False
  then have "c = 0" "m = 0" "d = 0" by (auto simp: word_gt_0)
  then show ?thesis by (cases "wr k") auto
qed

lemma worker_death_shape:
  assumes "handle_worker_death (env_group_order env (gr_groups (cs_groups cs))) wid (cs_groups cs) = (mig, fl)"
    and "fold (fail_dead_group now (death_reason wid)) fl (cs_groups cs, (0, 0, 0)) = (r, (c, m, d))"
  shows "cs_groups (worker_death env now wid cs) = r"
    and "cs_workers (worker_death env now wid cs) k =
         (if k = wid then map_option (release c m d) (cs_workers cs k) else cs_workers cs k)"
  using assms release_if_any [of c m d wid "cs_workers cs" k]
  by (auto simp: worker_death_def Let_def split: if_splits)

lemma dead_groups:
  assumes "groups.well_keyed r" "hm_order gs (gr_groups r)" "handle_worker_death gs wid r = (mig, fl)"
  shows "distinct fl" "set fl \<subseteq> dom (gr_groups r)" "\<And>k. k \<in> set fl \<Longrightarrow> holds wid (the (gr_groups r k))"
proof -
  have keyed: "\<And>k g. gr_groups r k = Some g \<Longrightarrow> g_id g = k" using assms(1) by (simp add: groups.well_keyed_def)
  note ids = ids_for_worker [OF assms(2) keyed, of wid]
  have fl: "fl = filter (\<lambda>gid. \<not> has_pending gid r) (map g_id (get_groups_for_worker gs wid r))"
    using assms(3) by (auto simp: handle_worker_death_def Let_def)
  show "distinct fl" using ids(1) by (simp add: fl)
  have mem: "\<exists>g. gr_groups r k = Some g \<and> holds wid g" if "k \<in> set fl" for k
    using that ids(2) by (auto simp: fl holds_def)
  then show "set fl \<subseteq> dom (gr_groups r)" "\<And>k. k \<in> set fl \<Longrightarrow> holds wid (the (gr_groups r k))" by force+
qed

text \<open>The groups that die with a worker end as failed, and the worker gets the sum of what they
  held back in one release.\<close>

lemma worker_death_parts:
  assumes "groups.well_keyed (cs_groups cs)"
    and "hm_order (env_group_order env (gr_groups (cs_groups cs))) (gr_groups (cs_groups cs))"
  obtains fl c m d where "distinct fl" "set fl \<subseteq> dom (gr_groups (cs_groups cs))"
    "\<And>k. k \<in> set fl \<Longrightarrow> holds wid (the (gr_groups (cs_groups cs) k))"
    "gr_groups (cs_groups (worker_death env now wid cs)) =
       (\<lambda>k. if k \<in> set fl then map_option (failed_by now (death_reason wid)) (gr_groups (cs_groups cs) k) else gr_groups (cs_groups cs) k)"
    "\<And>k. cs_workers (worker_death env now wid cs) k = (if k = wid then map_option (release c m d) (cs_workers cs k) else cs_workers cs k)"
    "c = (\<Sum>k \<leftarrow> fl. ar_cpu (g_allocated_resources (the (gr_groups (cs_groups cs) k))))"
    "m = (\<Sum>k \<leftarrow> fl. ar_memory_mb (g_allocated_resources (the (gr_groups (cs_groups cs) k))))"
proof -
  let ?gr = "gr_groups (cs_groups cs)"
  obtain mig fl where h: "handle_worker_death (env_group_order env ?gr) wid (cs_groups cs) = (mig, fl)"
    by (cases "handle_worker_death (env_group_order env ?gr) wid (cs_groups cs)")
  obtain r c m d where f: "fold (fail_dead_group now (death_reason wid)) fl (cs_groups cs, (0, 0, 0)) = (r, (c, m, d))"
    by (metis prod_cases4)
  note dead = dead_groups [OF assms h] and shape = worker_death_shape [OF h f]
  have "gr_groups r = (\<lambda>k. if k \<in> set fl then map_option (failed_by now (death_reason wid)) (?gr k) else ?gr k)"
    and "c = sum_list (map (\<lambda>k. ar_cpu (g_allocated_resources (the (?gr k)))) fl)"
      "m = sum_list (map (\<lambda>k. ar_memory_mb (g_allocated_resources (the (?gr k)))) fl)"
    using fold_fail_dead_group [OF dead(1,2), of now "death_reason wid" "(0, 0, 0)"] f by (auto simp: fold_add_request)
  with dead shape show ?thesis by (intro that [of fl c m d]) auto
qed

section \<open>The reconciler and the accounts\<close>

lemma expected_sum_words:
  "expected_sum env r wid =
   (let gs = get_groups_for_worker (env_group_order env (gr_groups r)) wid r
    in (sum_list (map (\<lambda>g. ar_cpu (g_allocated_resources g)) gs), sum_list (map (\<lambda>g. ar_memory_mb (g_allocated_resources g)) gs),
        sum_list (map (\<lambda>g. ar_disk_mb (g_allocated_resources g)) gs)))"
proof -
  let ?gs = "get_groups_for_worker (env_group_order env (gr_groups r)) wid r"
  have "expected_sum env r wid = fold (\<lambda>g t. add_request t (g_allocated_resources g)) ?gs (0, 0, 0)"
    unfolding expected_sum_def by (rule fold_cong) (auto simp: get_groups_for_worker_def)
  then show ?thesis by (simp add: fold_add_request Let_def)
qed

lemma groups_for_worker_holds: "get_groups_for_worker gs wid r = filter (holds wid) (hm_values gs (gr_groups r))"
  by (auto simp: get_groups_for_worker_def holds_def intro: filter_cong)

lemma reconcile_workers:
  assumes "workers.well_keyed (cs_workers cs)" "hm_order (env_worker_order env (cs_workers cs)) (cs_workers cs)"
  shows "cs_workers (reconcile_worker_allocations env cs) k =
         map_option (correct_drift (expected_sum env (cs_groups cs) k)) (cs_workers cs k)"
proof -
  let ?ks = "env_worker_order env (cs_workers cs)"
  have "map (\<lambda>w. wi_worker_id (ws_info w)) (hm_values xs (cs_workers cs)) = filter (\<lambda>k. cs_workers cs k \<noteq> None) xs" for xs
    using assms(1) by (induction xs) (auto simp: workers.well_keyed_def split: option.splits)
  then have ids: "map (\<lambda>w. wi_worker_id (ws_info w)) (all_workers ?ks (cs_workers cs)) = ?ks"
    using assms(2) by (auto simp: all_workers_def hm_order_def intro: filter_True)
  have "distinct ?ks" "set ?ks = dom (cs_workers cs)" using assms(2) by (simp_all add: hm_order_def)
  then show ?thesis
    by (cases "cs_workers cs k") (auto simp: reconcile_worker_allocations_def Let_def ids fold_hm_modify)
qed

lemma expected_sum_due:
  assumes "hm_order (env_group_order env (gr_groups r)) (gr_groups r)"
  shows "cpu_account.due (gr_groups r) wid < 2 ^ 32 \<Longrightarrow> unat (fst (expected_sum env r wid)) = cpu_account.due (gr_groups r) wid"
    and "memory_account.due (gr_groups r) wid < 2 ^ 64 \<Longrightarrow>
         unat (fst (snd (expected_sum env r wid))) = memory_account.due (gr_groups r) wid"
  unfolding expected_sum_words Let_def fst_conv snd_conv groups_for_worker_holds
    cpu_account.due_list [OF assms] memory_account.due_list [OF assms]
  using unat_sum_list [of "map (\<lambda>g. ar_cpu (g_allocated_resources g)) (filter (holds wid) (hm_values (env_group_order env (gr_groups r)) (gr_groups r)))"]
    unat_sum_list [of "map (\<lambda>g. ar_memory_mb (g_allocated_resources g)) (filter (holds wid) (hm_values (env_group_order env (gr_groups r)) (gr_groups r)))"]
  by (simp_all add: comp_def)

lemma correct_drift_simps [simp]:
  "ws_allocated_cpu (correct_drift e w) = fst e" "ws_allocated_memory_mb (correct_drift e w) = fst (snd e)"
  by (auto simp: correct_drift_def)

section \<open>The reapers and the accounts\<close>

lemma update_then_fail_groups:
  assumes "gr_groups r gid = Some g" "valid_transition (g_state g) s"
  shows "gr_groups (fail_group_jobs now gid reason (set_status_reason gid reason (snd (update_state now gid s r)))) =
         (gr_groups r)(gid \<mapsto> enter_state now GFailed ((enter_state now s g)\<lparr> g_status_reason := Some reason \<rparr>))"
proof
  show "gr_groups (fail_group_jobs now gid reason (set_status_reason gid reason (snd (update_state now gid s r)))) k =
        ((gr_groups r)(gid \<mapsto> enter_state now GFailed ((enter_state now s g)\<lparr> g_status_reason := Some reason \<rparr>))) k" for k
    using assms by (simp add: fail_group_jobs_def groups_update_state)
qed

lemma reap_one_frame:
  "cs_workers (reap_one env now i st g cs) =
   (case g_reserved_worker_id g of Some wid \<Rightarrow> release_worker wid (g_allocated_resources g) (cs_workers cs) | None \<Rightarrow> cs_workers cs)"
  "cs_groups (reap_one env now i st g cs) =
   fail_group_jobs now (g_id g) (reap_reason i st g) (set_status_reason (g_id g) (reap_reason i st g)
     (snd (update_state now (g_id g) GExpired (cs_groups cs))))"
  by (simp_all add: reap_one_def Let_def cong: option.case_cong)

lemma reap_one_settles:
  assumes "gr_groups (cs_groups cs) (g_id g) = Some g" "\<not> group_is_terminal (g_state g)"
  shows "settles cs (g_id g) g (reap_one env now i st g cs)"
  using assms update_then_fail_groups [OF assms(1), where s = GExpired]
  by (auto simp: settles_def reap_one_frame group_is_terminal_def)

lemma stale_groups_mem:
  assumes "hm_order (env_group_order env (gr_groups r)) (gr_groups r)" "groups.well_keyed r"
  shows "distinct (map g_id (stale_groups env now i st r))"
    and "\<And>g. g \<in> set (stale_groups env now i st r) \<Longrightarrow> gr_groups r (g_id g) = Some g \<and> \<not> group_is_terminal (g_state g)"
proof -
  let ?gs = "env_group_order env (gr_groups r)"
  have keyed: "\<And>k g. gr_groups r k = Some g \<Longrightarrow> g_id g = k" using assms(2) by (simp add: groups.well_keyed_def)
  have "distinct (map g_id (hm_values ?gs (gr_groups r)))"
    using assms(1) map_id_hm_values [where m = "gr_groups r" and gs = ?gs, OF keyed] by (simp add: hm_order_def)
  then show "distinct (map g_id (stale_groups env now i st r))"
    by (simp add: stale_groups_def active_groups_def distinct_map_filter)
  show "gr_groups r (g_id g) = Some g \<and> \<not> group_is_terminal (g_state g)" if "g \<in> set (stale_groups env now i st r)" for g
  proof -
    have "g \<in> ran (gr_groups r)" "\<not> group_is_terminal (g_state g)"
      using that set_hm_values_order [OF assms(1)] by (auto simp: stale_groups_def active_groups_def)
    with keyed show ?thesis by (auto simp: ran_def)
  qed
qed

lemma fold_reap_one_accounts:
  assumes "accounts_ok cs" "distinct (map g_id gs)"
    and "\<And>g. g \<in> set gs \<Longrightarrow> gr_groups (cs_groups cs) (g_id g) = Some g \<and> \<not> group_is_terminal (g_state g)"
  shows "accounts_ok (fold (reap_one env now i st) gs cs)"
  using assms
proof (induction gs arbitrary: cs)
  case (Cons g gs)
  let ?cs = "reap_one env now i st g cs"
  have set: "settles cs (g_id g) g ?cs" using Cons.prems(3) by (intro reap_one_settles) auto
  have rest: "gr_groups (cs_groups ?cs) (g_id x) = Some x \<and> \<not> group_is_terminal (g_state x)" if "x \<in> set gs" for x
  proof -
    have "g_id x \<noteq> g_id g" using that Cons.prems(2) by (auto simp: image_iff)
    then show ?thesis using set Cons.prems(3) [of x] that by (auto simp: settles_def)
  qed
  show ?case using Cons.IH [OF accounts_ok_settles [OF Cons.prems(1) set] _ rest] Cons.prems(2) by simp
qed simp

lemma fold_reap_one_groups:
  assumes "distinct (map g_id gs)" "\<And>g. g \<in> set gs \<Longrightarrow> gr_groups (cs_groups cs) (g_id g) = Some g"
  shows "gr_groups (cs_groups (fold (reap_one env now i st) gs cs)) k =
     (if k \<in> g_id ` set gs
      then map_option (\<lambda>g. enter_state now GFailed ((enter_state now GExpired g)\<lparr> g_status_reason := Some (reap_reason i st g) \<rparr>))
             (gr_groups (cs_groups cs) k)
      else gr_groups (cs_groups cs) k)"
  using assms
proof (induction gs arbitrary: cs)
  case (Cons g gs)
  let ?cs = "reap_one env now i st g cs"
  have step: "gr_groups (cs_groups ?cs) = (gr_groups (cs_groups cs))(g_id g \<mapsto>
      enter_state now GFailed ((enter_state now GExpired g)\<lparr> g_status_reason := Some (reap_reason i st g) \<rparr>))"
    unfolding reap_one_frame by (rule update_then_fail_groups) (use Cons.prems(2) in auto)
  have rest: "gr_groups (cs_groups ?cs) (g_id x) = Some x" if "x \<in> set gs" for x
  proof -
    have "g_id x \<noteq> g_id g" using that Cons.prems(1) by (auto simp: image_iff)
    then show ?thesis using Cons.prems(2) [of x] that by (simp add: step)
  qed
  have "g_id g \<notin> g_id ` set gs" using Cons.prems(1) by simp
  then show ?case using Cons.IH [OF _ rest] Cons.prems by (auto simp: step)
qed simp

lemma evicted_groups:
  obtains S where "\<And>k. gr_groups (cs_groups (evict_tick env now cs)) k = (if k \<in> S then None else gr_groups (cs_groups cs) k)"
    "\<And>k g. k \<in> S \<Longrightarrow> gr_groups (cs_groups cs) k = Some g \<Longrightarrow> group_is_terminal (g_state g)"
  by (rule that [where S = "set (filter (\<lambda>gid. case gr_groups (cs_groups cs) gid of
            Some g \<Rightarrow> group_is_terminal (g_state g) \<and> g_updated_at g < now - 1800 * nanos_per_sec
          | None \<Rightarrow> False) (env_group_order env (gr_groups (cs_groups cs))))"])
    (auto simp: evict_tick_def Let_def gr_evict_terminal_def fold_evict_apply)

section \<open>Properties\<close>

text \<open>One tick of the reconciler balances the books from any state: whatever drift the
  counters had, afterwards every registered worker's CPU and memory counters equal the
  sums over the unfinished groups reserved on it, as long as those sums fit the counters.\<close>

theorem reconcile_restores_accounts:
  assumes "finite (dom (gr_groups (cs_groups cs)))" "groups.well_keyed (cs_groups cs)" "workers.well_keyed (cs_workers cs)"
    and "hm_order (env_worker_order env (cs_workers cs)) (cs_workers cs)"
    and "hm_order (env_group_order env (gr_groups (cs_groups cs))) (gr_groups (cs_groups cs))"
    and "\<forall>wid \<in> dom (cs_workers cs). cpu_account.due (gr_groups (cs_groups cs)) wid < 2 ^ 32
           \<and> memory_account.due (gr_groups (cs_groups cs)) wid < 2 ^ 64"
  shows "accounts_ok (reconcile_worker_allocations env cs)"
proof -
  let ?cs' = "reconcile_worker_allocations env cs"
  have g: "cs_groups ?cs' = cs_groups cs" by (simp add: reconcile_worker_allocations_def Let_def)
  have "unat (ws_allocated_cpu w) = cpu_account.due (gr_groups (cs_groups cs)) k
      \<and> unat (ws_allocated_memory_mb w) = memory_account.due (gr_groups (cs_groups cs)) k"
    if new: "cs_workers ?cs' k = Some w" for k w
  proof -
    obtain w0 where "cs_workers cs k = Some w0" "w = correct_drift (expected_sum env (cs_groups cs) k) w0"
      using new unfolding reconcile_workers [OF assms(3,4)] by auto
    then show ?thesis using expected_sum_due [OF assms(5), of k] assms(6) by (auto simp: dom_def)
  qed
  then show ?thesis using assms(1,2)
    by (simp add: accounts_ok_def cpu_account.balanced_def memory_account.balanced_def g)
qed

theorem reconcile_restores_accounts_witness:
  "let cs = (held_cs GRunning [])\<lparr> cs_workers := [''w1'' \<mapsto> (WorkerState_new 0 sample_info)\<lparr> ws_allocated_cpu := 7 \<rparr>] \<rparr>;
       cs' = reconcile_worker_allocations sample_env cs
   in accounts_ok cs' \<and> map_option ws_allocated_cpu (cs_workers cs' ''w1'') = Some 2"
proof -
  let ?cs = "(held_cs GRunning [])\<lparr> cs_workers := [''w1'' \<mapsto> (WorkerState_new 0 sample_info)\<lparr> ws_allocated_cpu := 7 \<rparr>] \<rparr>"
  have "map_option ws_allocated_cpu (cs_workers (reconcile_worker_allocations sample_env ?cs) ''w1'') = Some 2" by code_simp
  moreover have "accounts_ok (reconcile_worker_allocations sample_env ?cs)"
    by (rule reconcile_restores_accounts)
      (simp_all add: held_cs_def sample_group_def JobGroup_new_def groups.well_keyed_def workers.well_keyed_def
        WorkerState_new_def sample_info_def hm_order_def cpu_account.due_def memory_account.due_def msum_def holds_def
        group_is_terminal_def)
  ultimately show ?thesis by simp
qed

text \<open>C32: The reaper of stale reservations ends exactly the stale groups: each group that was
  idle or stalled beyond its timeout when the tick began is finished afterwards, every other
  group is untouched, and the accounts stay balanced.\<close>

theorem reap_stale_exact:
  assumes "accounts_ok cs"
    and "hm_order (env_group_order env (gr_groups (cs_groups cs))) (gr_groups (cs_groups cs))"
    and "cs' = reap_stale_reservations env now idle_timeout stall_timeout cs"
  shows "accounts_ok cs'
     \<and> (\<forall>k g. gr_groups (cs_groups cs) k = Some g \<longrightarrow>
          (if \<not> group_is_terminal (g_state g) \<and> is_stale now idle_timeout stall_timeout (cs_groups cs) g
           then \<exists>g'. gr_groups (cs_groups cs') k = Some g' \<and> group_is_terminal (g_state g')
           else gr_groups (cs_groups cs') k = Some g))"
proof -
  let ?gs = "stale_groups env now idle_timeout stall_timeout (cs_groups cs)"
  note keyed = accounts_okD(2) [OF assms(1)]
  note mem = stale_groups_mem [OF assms(2) keyed, where now = now and i = idle_timeout and st = stall_timeout]
  have "accounts_ok cs'"
    unfolding assms(3) reap_stale_reservations_def by (rule fold_reap_one_accounts [OF assms(1) mem(1)]) (rule mem(2))
  moreover have "k \<in> g_id ` set ?gs \<longleftrightarrow> \<not> group_is_terminal (g_state g) \<and> is_stale now idle_timeout stall_timeout (cs_groups cs) g"
    if "gr_groups (cs_groups cs) k = Some g" for k g
    using that keyed set_hm_values_order [OF assms(2)]
    by (force simp: stale_groups_def active_groups_def ran_def groups.well_keyed_def image_iff)
  moreover have "gr_groups (cs_groups cs') k = (if k \<in> g_id ` set ?gs
      then map_option (\<lambda>g. enter_state now GFailed ((enter_state now GExpired g)\<lparr> g_status_reason := Some (reap_reason idle_timeout stall_timeout g) \<rparr>))
             (gr_groups (cs_groups cs) k)
      else gr_groups (cs_groups cs) k)" for k
    unfolding assms(3) reap_stale_reservations_def by (rule fold_reap_one_groups [OF mem(1)]) (use mem(2) in blast)
  ultimately show ?thesis by (auto simp: group_is_terminal_def)
qed

lemma accounts_ok_held: "accounts_ok (held_cs GRunning js)"
  by (simp add: held_cs_def sample_group_def JobGroup_new_def accounts_ok_def groups.well_keyed_def
      cpu_account.balanced_def memory_account.balanced_def cpu_account.due_def memory_account.due_def msum_def holds_def
      group_is_terminal_def WorkerState_new_def)

theorem reap_stale_exact_witness:
  "let cs' = reap_stale_reservations sample_env 100000000000 10 20 (held_cs GRunning [])
   in accounts_ok cs' \<and> map_option g_state (gr_groups (cs_groups cs') ''g1'') = Some GFailed
    \<and> map_option ws_allocated_cpu (cs_workers cs' ''w1'') = Some 0"
proof -
  let ?cs' = "reap_stale_reservations sample_env 100000000000 10 20 (held_cs GRunning [])"
  have "map_option g_state (gr_groups (cs_groups ?cs') ''g1'') = Some GFailed
      \<and> map_option ws_allocated_cpu (cs_workers ?cs' ''w1'') = Some 0" by code_simp
  moreover have "accounts_ok ?cs'"
    using reap_stale_exact [OF accounts_ok_held [where js = "[]"] _ refl, where env = sample_env and now = 100000000000
        and idle_timeout = 10 and stall_timeout = 20] by (simp add: hm_order_def held_cs_def)
  ultimately show ?thesis by simp
qed

section \<open>Two ways out of balance\<close>

definition stuck_failed :: "datetime \<Rightarrow> JobGroup \<Rightarrow> JobGroup" where
  "stuck_failed now g = (enter_state now GFailed g)\<lparr> g_status_reason := Some STUCK_REASON \<rparr>"

lemma fold_fail_stuck:
  "distinct ks \<Longrightarrow> gr_groups (fold (fail_stuck now) ks r) k =
   (if k \<in> set ks then map_option (stuck_failed now) (gr_groups r k) else gr_groups r k)"
  by (induction ks arbitrary: r) (auto simp: fail_stuck_def stuck_failed_def [abs_def] groups_update_state option.map_comp comp_def)

lemma stuck_groups_mem:
  assumes "hm_order (env_group_order env (gr_groups r)) (gr_groups r)" "groups.well_keyed r"
  shows "distinct (stuck_groups env now r)"
    and "k \<in> set (stuck_groups env now r) \<longleftrightarrow>
         (\<exists>g. gr_groups r k = Some g \<and> g_state g = GRunning \<and> num_hours (now - g_updated_at g) \<ge> 4)"
proof -
  have keyed: "\<And>k g. gr_groups r k = Some g \<Longrightarrow> g_id g = k" using assms(2) by (simp add: groups.well_keyed_def)
  show "distinct (stuck_groups env now r)"
    using map_id_hm_values [where m = "gr_groups r" and gs = "env_group_order env (gr_groups r)", OF keyed] assms(1)
    by (simp add: stuck_groups_def active_groups_def hm_order_def distinct_map_filter)
  show "k \<in> set (stuck_groups env now r) \<longleftrightarrow>
         (\<exists>g. gr_groups r k = Some g \<and> g_state g = GRunning \<and> num_hours (now - g_updated_at g) \<ge> 4)"
  proof -
    have "set (stuck_groups env now r)
        = g_id ` {g \<in> ran (gr_groups r). g_state g = GRunning \<and> num_hours (now - g_updated_at g) \<ge> 4}"
      by (auto simp: stuck_groups_def active_groups_def group_is_terminal_def set_hm_values_order [OF assms(1)])
    then show ?thesis using keyed by (auto simp: ran_def image_iff)
  qed
qed

text \<open>The reaper of stuck groups does not give resources back.  It ends a group that has been
  running for four hours and leaves every worker's counters as they are; if the group
  held CPU on a registered worker and the books were balanced, they no longer are.\<close>

theorem stuck_reaper_leaks:
  assumes "accounts_ok cs" "hm_order (env_group_order env (gr_groups (cs_groups cs))) (gr_groups (cs_groups cs))"
    and "gr_groups (cs_groups cs) gid = Some g" "g_state g = GRunning" "num_hours (now - g_updated_at g) \<ge> 4"
    and "g_reserved_worker_id g = Some wid" "cs_workers cs wid = Some w" "ar_cpu (g_allocated_resources g) > 0"
  shows "cs_workers (reap_stuck_groups env now cs) = cs_workers cs \<and> \<not> accounts_ok (reap_stuck_groups env now cs)"
proof -
  let ?gr = "gr_groups (cs_groups cs)"
  let ?S = "set (stuck_groups env now (cs_groups cs))"
  let ?f = "\<lambda>g. if holds wid g then unat (ar_cpu (g_allocated_resources g)) else 0"
  define gr' where "gr' = gr_groups (cs_groups (reap_stuck_groups env now cs))"
  note mem = stuck_groups_mem [OF assms(2) accounts_okD(2) [OF assms(1)], where now = now]
  have gr'_k: "gr' k = (if k \<in> ?S then map_option (stuck_failed now) (?gr k) else ?gr k)" for k
    using fold_fail_stuck [OF mem(1)] by (simp add: gr'_def reap_stuck_groups_def Let_def)
  have S: "?S \<subseteq> dom ?gr" using mem(2) by auto
  have dom: "dom gr' = dom ?gr" by (auto simp: gr'_k split: if_splits)
  have sum: "msum ?f gr' + (\<Sum>k \<in> ?S. ?f (the (?gr k))) = msum ?f ?gr"
    by (rule msum_drop [OF accounts_okD(1) [OF assms(1)] dom S])
      (use S in \<open>auto simp: gr'_k stuck_failed_def holds_def group_is_terminal_def\<close>)
  have "gid \<in> ?S" using mem(2) [of gid] assms(3-5) by auto
  then have "?f (the (?gr gid)) \<le> (\<Sum>k \<in> ?S. ?f (the (?gr k)))" by (intro member_le_sum) auto
  moreover have "?f (the (?gr gid)) > 0" using assms(3-8) by (simp add: holds_def group_is_terminal_def unat_gt_0 word_gt_0)
  ultimately have "msum ?f gr' < msum ?f ?gr" using sum by linarith
  moreover have "unat (ws_allocated_cpu w) = msum ?f ?gr"
    using accounts_okD(3) [OF assms(1)] assms(7) by (simp add: cpu_account.balanced_def cpu_account.due_def)
  ultimately have "unat (ws_allocated_cpu w) \<noteq> msum ?f gr'" by linarith
  then have "\<not> cpu_account.balanced (cs_workers cs) gr'"
    using assms(7) by (auto simp: cpu_account.balanced_def cpu_account.due_def)
  moreover have "cs_workers (reap_stuck_groups env now cs) = cs_workers cs" by (simp add: reap_stuck_groups_def Let_def)
  ultimately show ?thesis by (simp add: accounts_ok_def gr'_def)
qed

theorem stuck_reaper_leaks_witness:
  "let cs' = reap_stuck_groups sample_env (14400 * 1000000000) (held_cs GRunning [])
   in map_option ws_allocated_cpu (cs_workers cs' ''w1'') = Some 2
    \<and> map_option g_state (gr_groups (cs_groups cs') ''g1'') = Some GFailed \<and> \<not> accounts_ok cs'"
proof -
  let ?cs' = "reap_stuck_groups sample_env (14400 * 1000000000) (held_cs GRunning [])"
  have "map_option ws_allocated_cpu (cs_workers ?cs' ''w1'') = Some 2
    \<and> map_option g_state (gr_groups (cs_groups ?cs') ''g1'') = Some GFailed" by code_simp
  moreover have "\<not> accounts_ok ?cs'"
    using stuck_reaper_leaks [OF accounts_ok_held [where js = "[]"], where env = sample_env and gid = "''g1''"
        and now = "14400 * 1000000000" and wid = "''w1''"]
    by (simp add: held_cs_def hm_order_def sample_group_def JobGroup_new_def num_hours_def num_seconds_def nanos_per_sec_def)
  ultimately show ?thesis by simp
qed

text \<open>A group that ends between the two halves of the reservation reaper is released twice: the
  second half does not look at the group again.  It also overwrites the state the
  group ended in.\<close>

theorem reap_race_releases_twice:
  assumes "accounts_ok cs" "gr_groups (cs_groups cs) (g_id g) = Some g0" "group_is_terminal (g_state g0)"
    and "g_reserved_worker_id g = Some wid" "cs_workers cs wid = Some w"
    and "ar_cpu (g_allocated_resources g) > 0" "ws_allocated_cpu w > 0"
  shows "\<not> accounts_ok (reap_one env now i st g cs)
       \<and> map_option g_state (gr_groups (cs_groups (reap_one env now i st g cs)) (g_id g)) = Some GFailed"
proof -
  let ?cs' = "reap_one env now i st g cs"
  let ?a = "g_allocated_resources g"
  define g1 where "g1 = enter_state now GFailed ((enter_state now GExpired g0)\<lparr> g_status_reason := Some (reap_reason i st g) \<rparr>)"
  have gr: "gr_groups (cs_groups ?cs') = (gr_groups (cs_groups cs))(g_id g \<mapsto> g1)"
    unfolding reap_one_frame g1_def by (rule update_then_fail_groups [OF assms(2)]) simp
  have "cpu_account.due (gr_groups (cs_groups ?cs')) wid = cpu_account.due (gr_groups (cs_groups cs)) wid"
    using cpu_account.due_change [OF accounts_okD(1) [OF assms(1)] assms(2), where g' = g1 and wid = wid]
    by (simp add: gr holds_def assms(3)) (simp add: g1_def group_is_terminal_def)
  moreover have "unat (ws_allocated_cpu w) = cpu_account.due (gr_groups (cs_groups cs)) wid"
    using accounts_okD(3) [OF assms(1)] assms(5) by (simp add: cpu_account.balanced_def)
  moreover have w': "cs_workers ?cs' wid = Some (release (ar_cpu ?a) (ar_memory_mb ?a) (ar_disk_mb ?a) w)"
    using assms(4,5) by (simp add: reap_one_frame release_worker_apply)
  moreover have "unat (ws_allocated_cpu w) - unat (ar_cpu ?a) < unat (ws_allocated_cpu w)"
    using assms(6,7) by (simp add: word_less_nat_alt)
  ultimately have "\<not> cpu_account.balanced (cs_workers ?cs') (gr_groups (cs_groups ?cs'))"
    unfolding cpu_account.balanced_def using w' by (metis cpu_account.used_release less_irrefl)
  then show ?thesis by (simp add: accounts_ok_def gr g1_def)
qed

end
