(* ===== verification/Registration.thy ===== *)
theory Registration
  imports Recovery Rust_Str
begin

text \<open>
  How workers come in (\<open>grpc_server.rs\<close>): the token interceptor, registration with a worker
  token, with a registration token and without one, the restoring of the allocations a
  returning worker still holds, heartbeats, and reconnection with the log
  offsets to resume from.  \<open>sha\<close> is the hexadecimal SHA-256, and \<open>AuthStore\<close> holds the
  answers of the token and worker tables.
\<close>

section \<open>The interceptor\<close>

record AuthConfig =
  ac_enabled :: bool
  ac_token :: "string option"

text \<open>\<open>hdr\<close> is the value of the authorization header when it is present and readable.\<close>

definition auth_interceptor :: "(string \<Rightarrow> string) \<Rightarrow> AuthConfig \<Rightarrow> string set \<Rightarrow> string option \<Rightarrow> Status + unit" where
  "auth_interceptor sha config token_hashes hdr =
     (if \<not> ac_enabled config then Inr ()
      else
        let auth = unwrap_or [] hdr;
            bearer = unwrap_or [] (strip_prefix ''Bearer '' auth)
        in if starts_with ''chola_svc_'' bearer \<or> starts_with ''chola_wkr_'' bearer
           then (if sha bearer \<in> token_hashes then Inr () else Inl (Status Unauthenticated ''Invalid token''))
           else
             let token = unwrap_or [] (ac_token config)
             in if token \<noteq> [] \<and> auth = ''Bearer '' @ token then Inr ()
                else Inl (Status Unauthenticated ''Valid token required (chola_wkr_ or chola_svc_)''))"

section \<open>Tokens\<close>

record AuthStore =
  as_token_worker_id :: "string \<Rightarrow> string option query"
  as_worker_by_token_hash :: "string \<Rightarrow> WorkerRow option query"
  as_worker :: "string \<Rightarrow> WorkerRow option query"
  as_validate_registration_token :: "string \<Rightarrow> uuid query"
  as_upsert_worker :: "WorkerRow \<Rightarrow> WorkerRow query"

definition apply_limits :: "string \<Rightarrow> WorkerRow \<Rightarrow> WorkerRegistry \<Rightarrow> WorkerRegistry" where
  "apply_limits wid row wr =
     snd (update_priority_limits wid (Some (wr_priority row)) (Some (map_option word_of_int (wr_max_cpu row)))
            (Some (map_option word_of_int (wr_max_memory_mb row))) (Some (map_option word_of_int (wr_max_disk_mb row)))
            (Some (wr_max_cpu_percent row)) (Some (wr_max_memory_percent row)) (Some (wr_max_disk_percent row)) wr)"

definition as_i64 :: "u64 \<Rightarrow> int" where
  "as_i64 w = sint w"

definition row_of_request :: "datetime \<Rightarrow> string \<Rightarrow> uuid \<Rightarrow> RegisterRequest \<Rightarrow> WorkerRow" where
  "row_of_request now token_hash token_id req =
     \<lparr> wr_worker_id = rr_worker_id req, wr_hostname = Some (rr_hostname req), wr_total_cpu = Some (sint (rr_total_cpu req)),
       wr_total_memory_mb = Some (as_i64 (rr_total_memory_mb req)), wr_total_disk_mb = Some (as_i64 (rr_total_disk_mb req)),
       wr_disk_type = Some (rr_disk_type req), wr_supported_job_types = Some (rr_supported_job_types req),
       wr_docker_enabled = rr_docker_enabled req, wr_status = ''connected'', wr_last_heartbeat_at = Some now,
       wr_registered_at = now, wr_labels = Some (rr_labels req), wr_system_info = None,
       wr_worker_token_hash = Some token_hash, wr_registration_token_id = Some token_id, wr_approved = True,
       wr_description = None, wr_priority = 0, wr_max_cpu = None, wr_max_memory_mb = None, wr_max_disk_mb = None,
       wr_max_cpu_percent = None, wr_max_memory_percent = None, wr_max_disk_percent = None \<rparr>"

section \<open>Registration\<close>

record RegisterResponse =
  re_accepted :: bool
  re_message :: string
  re_heartbeat_interval_secs :: u32
  re_worker_token :: string
  re_assigned_worker_id :: string

definition request_of :: "AllocatedResources \<Rightarrow> resource_request" where
  "request_of a = (ar_cpu a, ar_memory_mb a, ar_disk_mb a)"

definition restore_one :: "string \<Rightarrow> JobGroup \<Rightarrow> WorkerRegistry \<Rightarrow> WorkerRegistry" where
  "restore_one wid g wr =
     (if has_resource_req (request_of (g_allocated_resources g))
      then hm_modify wid (\<lambda>w. snd (take_resources (request_of (g_allocated_resources g)) w)) wr else wr)"

definition restore_allocations :: "Env \<Rightarrow> JobGroupRegistry \<Rightarrow> string \<Rightarrow> WorkerRegistry \<Rightarrow> WorkerRegistry" where
  "restore_allocations env r wid wr =
     fold (restore_one wid) (get_groups_for_worker (env_group_order env (gr_groups r)) wid r) wr"

text \<open>The state of the handler is the controller's state and the set of known token hashes.\<close>

type_synonym reg_state = "ControllerState \<times> string set"

definition enrol ::
  "Env \<Rightarrow> datetime \<Rightarrow> string \<Rightarrow> RegisterRequest \<Rightarrow> WorkerRow option \<Rightarrow> ControllerState \<Rightarrow> ControllerState" where
  "enrol env now wid req row cs =
     map_workers (\<lambda>wr. restore_allocations env (cs_groups cs) wid
        ((case row of Some row \<Rightarrow> apply_limits wid row | None \<Rightarrow> id) (register_with_id now wid req wr))) cs"

definition accepted :: "string \<Rightarrow> u32 \<Rightarrow> string \<Rightarrow> string \<Rightarrow> RegisterResponse" where
  "accepted msg hb_interval token wid =
     \<lparr> re_accepted = True, re_message = msg, re_heartbeat_interval_secs = hb_interval, re_worker_token = token,
       re_assigned_worker_id = wid \<rparr>"

definition token_identity :: "AuthStore \<Rightarrow> string \<Rightarrow> Status + string" where
  "token_identity st hash =
     (case as_token_worker_id st hash of
        Inl e \<Rightarrow> Inl (Status Internal (''Token lookup failed: '' @ e))
      | Inr (Some wid) \<Rightarrow> Inr wid
      | Inr None \<Rightarrow>
          (case as_worker_by_token_hash st hash of
             Inr (Some row) \<Rightarrow> Inr (wr_worker_id row)
           | Inr None \<Rightarrow> Inl (Status Unauthenticated ''Invalid worker token'')
           | Inl e \<Rightarrow> Inl (Status Internal (''Worker lookup failed: '' @ e))))"

definition register_by_worker_token ::
  "(string \<Rightarrow> string) \<Rightarrow> Env \<Rightarrow> AuthStore \<Rightarrow> datetime \<Rightarrow> u32 \<Rightarrow> RegisterRequest \<Rightarrow> reg_state
   \<Rightarrow> (Status + RegisterResponse) \<times> reg_state" where
  "register_by_worker_token sha env st now hb_interval req s =
     (let hash = sha (rr_worker_token req)
      in case token_identity st hash of
           Inl e \<Rightarrow> (Inl e, s)
         | Inr wid \<Rightarrow>
             (case as_worker st wid of
                Inl e \<Rightarrow> (Inl (Status Internal (''Worker approval check failed: '' @ e)), s)
              | Inr row \<Rightarrow>
                  if (case row of Some row \<Rightarrow> \<not> wr_approved row | None \<Rightarrow> False)
                  then (Inl (Status PermissionDenied ''Worker is not approved''), s)
                  else (Inr (accepted ''Worker authenticated'' hb_interval [] wid),
                        (enrol env now wid req row (fst s), insert hash (snd s)))))"

text \<open>\<open>new_token\<close> is the random token the controller issues.\<close>

definition register_by_registration_token ::
  "(string \<Rightarrow> string) \<Rightarrow> Env \<Rightarrow> AuthStore \<Rightarrow> datetime \<Rightarrow> u32 \<Rightarrow> string \<Rightarrow> RegisterRequest \<Rightarrow> reg_state
   \<Rightarrow> (Status + RegisterResponse) \<times> reg_state" where
  "register_by_registration_token sha env st now hb_interval new_token req s =
     (case as_validate_registration_token st (sha (rr_registration_token req)) of
        Inl e \<Rightarrow> (Inl (Status Unauthenticated (''Invalid or expired registration token: '' @ e)), s)
      | Inr token_id \<Rightarrow>
          (case as_upsert_worker st (row_of_request now (sha new_token) token_id req) of
             Inl e \<Rightarrow> (Inl (Status Internal (''Failed to persist worker: '' @ e)), s)
           | Inr persisted \<Rightarrow>
               (Inr (accepted ''Worker registered successfully'' hb_interval new_token (rr_worker_id req)),
                (enrol env now (rr_worker_id req) req (Some persisted)
                   (emit (DbIncrementTokenUses token_id)
                      (emit (DbUpsertWorker (row_of_request now (sha new_token) token_id req)) (fst s))),
                 insert (sha new_token) (snd s)))))"

definition register_rpc ::
  "(string \<Rightarrow> string) \<Rightarrow> AuthConfig \<Rightarrow> Env \<Rightarrow> AuthStore option \<Rightarrow> datetime \<Rightarrow> u32 \<Rightarrow> string \<Rightarrow> RegisterRequest \<Rightarrow> reg_state
   \<Rightarrow> (Status + RegisterResponse) \<times> reg_state" where
  "register_rpc sha config env storage now hb_interval new_token req s =
     (case (storage, rr_worker_token req \<noteq> [], rr_registration_token req \<noteq> []) of
        (Some st, True, _) \<Rightarrow> register_by_worker_token sha env st now hb_interval req s
      | (Some st, False, True) \<Rightarrow> register_by_registration_token sha env st now hb_interval new_token req s
      | _ \<Rightarrow>
          if ac_enabled config then (Inl (Status Unauthenticated ''Registration token required''), s)
          else (Inr (accepted ''Worker registered (no auth)'' hb_interval [] (rr_worker_id req)),
                (enrol env now (rr_worker_id req) req None (fst s), snd s)))"

section \<open>Heartbeats, streams and reconnection\<close>

definition heartbeat_rpc :: "datetime \<Rightarrow> HeartbeatMessage \<Rightarrow> ControllerState \<Rightarrow> ControllerState" where
  "heartbeat_rpc now msg = map_workers (update_heartbeat now msg)"

definition job_stream_open :: "string \<Rightarrow> unit handler" where
  "job_stream_open wid cs =
     (if cs_senders cs wid = Some True
      then (Inl (Status AlreadyExists (''Worker '' @ wid @ '' already has an active connection'')), cs)
      else (Inr (), cs\<lparr> cs_senders := (cs_senders cs)(wid \<mapsto> True) \<rparr>))"

text \<open>One round of the assignment loop after a wake-up; \<open>tx_open\<close> says whether the receiver of
  this loop's own channel is alive.  When the loop ends it removes the worker's entry, whichever
  channel that holds by then.\<close>

definition job_stream_round :: "Env \<Rightarrow> datetime \<Rightarrow> string \<Rightarrow> bool \<Rightarrow> ControllerState \<Rightarrow> bool \<times> ControllerState" where
  "job_stream_round env now wid tx_open cs =
     (let (continue, cs) = (if \<not> tx_open then (False, cs) else dispatch_job_for_worker env now wid tx_open cs)
      in (continue, if continue then cs else cs\<lparr> cs_senders := (cs_senders cs)(wid := None) \<rparr>))"

record ReconnectRequest =
  rq_worker_id :: string
  rq_running_jobs :: "string list"

definition log_resumes :: "string \<Rightarrow> string list \<Rightarrow> ControllerState \<Rightarrow> (string \<times> u64) list" where
  "log_resumes wid running cs =
     List.map_filter (\<lambda>jid. case cs_jobs cs jid of
        Some job \<Rightarrow> if j_assigned_worker job = Some wid then Some (jid, last_offset jid (cs_logs cs)) else None
      | None \<Rightarrow> None) running"

definition reconnect ::
  "(string \<Rightarrow> string) \<Rightarrow> AuthStore option \<Rightarrow> string option \<Rightarrow> ReconnectRequest \<Rightarrow> (string \<times> u64) list handler" where
  "reconnect sha storage hdr req cs =
     (let token = Option.bind hdr (strip_prefix ''Bearer '');
          identity = (case (token, storage) of
             (Some t, Some st) \<Rightarrow>
               if starts_with ''chola_wkr_'' t \<or> starts_with ''chola_svc_'' t then
                 (case as_token_worker_id st (sha t) of
                    Inr (Some bound) \<Rightarrow>
                      if bound \<noteq> rq_worker_id req
                      then Inl (Status PermissionDenied (''Token is bound to worker '' @ quoted bound
                             @ '', not '' @ quoted (rq_worker_id req)))
                      else Inr ()
                  | Inl e \<Rightarrow> Inl (Status Internal (''Token identity check failed: '' @ e))
                  | Inr None \<Rightarrow> Inr ())
               else Inr ()
           | _ \<Rightarrow> Inr ())
      in case identity of
           Inl e \<Rightarrow> (Inl e, cs)
         | Inr _ \<Rightarrow>
             (let cs = map_workers (mark_reconnected (rq_worker_id req)) cs
              in (Inr (log_resumes (rq_worker_id req) (rq_running_jobs req) cs), cs)))"

section \<open>Restored allocations\<close>

lemma restore_one_take:
  "restore_one wid g = hm_modify wid (take_if_needed (request_of (g_allocated_resources g)))"
  by (rule ext) (auto simp: restore_one_def take_if_needed_def hm_modify_def fun_eq_iff split: option.split)

lemma fold_restore_apply:
  "fold (restore_one wid) gs wr k =
   (if k = wid then map_option (fold (\<lambda>g. take_if_needed (request_of (g_allocated_resources g))) gs) (wr k) else wr k)"
  by (induction gs arbitrary: wr) (auto simp: restore_one_take hm_modify_apply option.map_comp comp_def option.map_id)

definition same_machine :: "WorkerState \<Rightarrow> WorkerState \<Rightarrow> bool" where
  "same_machine w w' \<longleftrightarrow> ws_info w' = ws_info w \<and> ws_last_heartbeat w' = ws_last_heartbeat w \<and> ws_status w' = ws_status w"

lemma same_machine_caps:
  "same_machine w w' \<Longrightarrow> cpu_cap w' = cpu_cap w \<and> memory_cap w' = memory_cap w \<and> free_disk_mb w' = free_disk_mb w"
  using caps_cong [of w' w] by (auto simp: same_machine_def free_disk_mb_def split: option.split)

lemma take_same_machine: "same_machine w (take_if_needed (c, m, d) w)"
  by (simp add: same_machine_def take_if_needed_def take_resources_def allocate_def)

lemma take_fits:
  assumes "unat (ws_allocated_cpu w) + unat c \<le> unat (cpu_cap w)"
    and "unat (ws_allocated_memory_mb w) + unat m \<le> unat (memory_cap w)" "d \<le> free_disk_mb w"
  shows "unat (ws_allocated_cpu (take_if_needed (c, m, d) w)) = unat (ws_allocated_cpu w) + unat c
       \<and> unat (ws_allocated_memory_mb (take_if_needed (c, m, d) w)) = unat (ws_allocated_memory_mb w) + unat m"
proof -
  have c: "unat (ws_allocated_cpu w + c) = unat (ws_allocated_cpu w) + unat c"
    by (rule unat_add_noov) (use assms(1) unsigned_less [of "cpu_cap w", where 'a = nat] in simp)
  have m: "unat (ws_allocated_memory_mb w + m) = unat (ws_allocated_memory_mb w) + unat m"
    by (rule unat_add_noov) (use assms(2) unsigned_less [of "memory_cap w", where 'a = nat] in simp)
  have "\<not> ws_allocated_cpu w + c > cpu_cap w" "\<not> ws_allocated_memory_mb w + m > memory_cap w" "\<not> free_disk_mb w < d"
    using assms by (simp_all add: word_less_nat_alt word_le_nat_alt c m not_less)
  then show ?thesis
    by (auto simp: take_if_needed_def has_resource_req_def take_resources_def allocate_def c m word_gt_0)
qed

lemma fold_take_same_machine:
  "same_machine w (fold (\<lambda>g. take_if_needed (request_of (g_allocated_resources g))) gs w)"
proof (induction gs arbitrary: w)
  case (Cons g gs)
  show ?case using Cons [of "take_if_needed (request_of (g_allocated_resources g)) w"]
      take_same_machine [of w "ar_cpu (g_allocated_resources g)" "ar_memory_mb (g_allocated_resources g)" "ar_disk_mb (g_allocated_resources g)"]
    by (simp add: same_machine_def request_of_def)
qed (simp add: same_machine_def)

lemma fold_take_fits:
  assumes "unat (ws_allocated_cpu w) + (\<Sum>g \<leftarrow> gs. unat (ar_cpu (g_allocated_resources g))) \<le> unat (cpu_cap w)"
    and "unat (ws_allocated_memory_mb w) + (\<Sum>g \<leftarrow> gs. unat (ar_memory_mb (g_allocated_resources g))) \<le> unat (memory_cap w)"
    and "\<forall>g \<in> set gs. ar_disk_mb (g_allocated_resources g) \<le> free_disk_mb w"
  shows "unat (ws_allocated_cpu (fold (\<lambda>g. take_if_needed (request_of (g_allocated_resources g))) gs w))
           = unat (ws_allocated_cpu w) + (\<Sum>g \<leftarrow> gs. unat (ar_cpu (g_allocated_resources g)))
       \<and> unat (ws_allocated_memory_mb (fold (\<lambda>g. take_if_needed (request_of (g_allocated_resources g))) gs w))
           = unat (ws_allocated_memory_mb w) + (\<Sum>g \<leftarrow> gs. unat (ar_memory_mb (g_allocated_resources g)))"
  using assms
proof (induction gs arbitrary: w)
  case (Cons g gs)
  let ?w' = "take_if_needed (request_of (g_allocated_resources g)) w"
  have t: "unat (ws_allocated_cpu ?w') = unat (ws_allocated_cpu w) + unat (ar_cpu (g_allocated_resources g))"
    "unat (ws_allocated_memory_mb ?w') = unat (ws_allocated_memory_mb w) + unat (ar_memory_mb (g_allocated_resources g))"
    using take_fits [of w "ar_cpu (g_allocated_resources g)" "ar_memory_mb (g_allocated_resources g)" "ar_disk_mb (g_allocated_resources g)"]
      Cons.prems by (simp_all add: request_of_def)
  have caps: "cpu_cap ?w' = cpu_cap w \<and> memory_cap ?w' = memory_cap w \<and> free_disk_mb ?w' = free_disk_mb w"
    by (rule same_machine_caps) (simp add: request_of_def take_same_machine)
  show ?case using Cons.IH [of ?w'] Cons.prems t caps by simp
qed simp

text \<open>The machine \<open>w\<close> can carry everything the unfinished groups reserved on it hold.\<close>

definition carries :: "(uuid \<rightharpoonup> JobGroup) \<Rightarrow> string \<Rightarrow> WorkerState \<Rightarrow> bool" where
  "carries gr wid w \<longleftrightarrow> cpu_account.due gr wid \<le> unat (cpu_cap w) \<and> memory_account.due gr wid \<le> unat (memory_cap w)
     \<and> (\<forall>g \<in> ran gr. holds wid g \<longrightarrow> ar_disk_mb (g_allocated_resources g) \<le> free_disk_mb w)"

definition fresh :: "string \<Rightarrow> WorkerState \<Rightarrow> bool" where
  "fresh wid w \<longleftrightarrow> ws_allocated_cpu w = 0 \<and> ws_allocated_memory_mb w = 0 \<and> ws_status w = Connected
     \<and> wi_worker_id (ws_info w) = wid"

lemma registered_fresh:
  "\<exists>w. (case row of Some row \<Rightarrow> apply_limits wid row | None \<Rightarrow> id) (register_with_id now wid req wr) wid = Some w \<and> fresh wid w"
  by (cases row) (simp_all add: register_with_id_def apply_limits_def update_priority_limits_def modify_info_def fresh_def
      WorkerState_new_def worker_info_of_def set_opt_def)

lemma registered_other:
  "k \<noteq> wid \<Longrightarrow> (case row of Some row \<Rightarrow> apply_limits wid row | None \<Rightarrow> id) (register_with_id now wid req wr) k = wr k"
  by (cases row) (simp_all add: register_with_id_def apply_limits_def update_priority_limits_def modify_info_def hm_modify_apply)

lemma enrol_frame [simp]:
  "cs_groups (enrol env now wid req row cs) = cs_groups cs" "cs_jobs (enrol env now wid req row cs) = cs_jobs cs"
  "cs_effects (enrol env now wid req row cs) = cs_effects cs"
  by (simp_all add: enrol_def)

lemma enrol_other: "k \<noteq> wid \<Longrightarrow> cs_workers (enrol env now wid req row cs) k = cs_workers cs k"
  by (simp add: enrol_def restore_allocations_def fold_restore_apply registered_other)

lemma enrol_worker:
  obtains w0 where "fresh wid w0"
    "cs_workers (enrol env now wid req row cs) wid =
     Some (fold (\<lambda>g. take_if_needed (request_of (g_allocated_resources g)))
       (get_groups_for_worker (env_group_order env (gr_groups (cs_groups cs))) wid (cs_groups cs)) w0)"
  using registered_fresh [where row = row and wid = wid and now = now and req = req and wr = "cs_workers cs"]
  by (auto simp: enrol_def restore_allocations_def fold_restore_apply)

lemma restored_due:
  assumes "hm_order ks gr" "ws_allocated_cpu w0 = 0" "ws_allocated_memory_mb w0 = 0" "carries gr wid w"
    and w: "w = fold (\<lambda>g. take_if_needed (request_of (g_allocated_resources g))) (filter (holds wid) (hm_values ks gr)) w0"
  shows "unat (ws_allocated_cpu w) = cpu_account.due gr wid \<and> unat (ws_allocated_memory_mb w) = memory_account.due gr wid"
proof -
  let ?gs = "filter (holds wid) (hm_values ks gr)"
  have caps: "cpu_cap w = cpu_cap w0 \<and> memory_cap w = memory_cap w0 \<and> free_disk_mb w = free_disk_mb w0"
    unfolding w by (rule same_machine_caps [OF fold_take_same_machine])
  have disk: "\<forall>g \<in> set ?gs. ar_disk_mb (g_allocated_resources g) \<le> free_disk_mb w0"
    using assms(4) caps by (auto simp: carries_def set_hm_values_order [OF assms(1)])
  have "unat (ws_allocated_cpu w) = unat (ws_allocated_cpu w0) + (\<Sum>g \<leftarrow> ?gs. unat (ar_cpu (g_allocated_resources g)))
      \<and> unat (ws_allocated_memory_mb w) = unat (ws_allocated_memory_mb w0) + (\<Sum>g \<leftarrow> ?gs. unat (ar_memory_mb (g_allocated_resources g)))"
    unfolding w by (rule fold_take_fits [OF _ _ disk])
      (use assms(2-4) caps in \<open>simp_all add: carries_def cpu_account.due_list [OF assms(1)] memory_account.due_list [OF assms(1)]\<close>)
  then show ?thesis
    using assms(2,3) by (simp add: cpu_account.due_list [OF assms(1)] memory_account.due_list [OF assms(1)])
qed

lemma enrol_restores:
  assumes "hm_order (env_group_order env (gr_groups (cs_groups cs))) (gr_groups (cs_groups cs))"
    and "cs_workers (enrol env now wid req row cs) wid = Some w" "carries (gr_groups (cs_groups cs)) wid w"
  shows "unat (ws_allocated_cpu w) = cpu_account.due (gr_groups (cs_groups cs)) wid
       \<and> unat (ws_allocated_memory_mb w) = memory_account.due (gr_groups (cs_groups cs)) wid"
proof -
  obtain w0 where "fresh wid w0" "w = fold (\<lambda>g. take_if_needed (request_of (g_allocated_resources g)))
      (filter (holds wid) (hm_values (env_group_order env (gr_groups (cs_groups cs))) (gr_groups (cs_groups cs)))) w0"
    using enrol_worker [of wid env now req row cs] assms(2) by (auto simp: groups_for_worker_holds)
  then show ?thesis using restored_due [OF assms(1) _ _ assms(3)] by (simp add: fresh_def)
qed

lemma enrol_accounts:
  assumes "accounts_ok cs" and ord: "hm_order (env_group_order env (gr_groups (cs_groups cs))) (gr_groups (cs_groups cs))"
    and fits: "\<And>w. cs_workers (enrol env now wid req row cs) wid = Some w \<Longrightarrow> carries (gr_groups (cs_groups cs)) wid w"
  shows "accounts_ok (enrol env now wid req row cs)"
proof -
  note ok = accounts_okD [OF assms(1)]
  have "unat (ws_allocated_cpu w) = cpu_account.due (gr_groups (cs_groups cs)) k
      \<and> unat (ws_allocated_memory_mb w) = memory_account.due (gr_groups (cs_groups cs)) k"
    if w: "cs_workers (enrol env now wid req row cs) k = Some w" for k w
  proof (cases "k = wid")
    case True
    with w have "cs_workers (enrol env now wid req row cs) wid = Some w" by simp
    from enrol_restores [OF ord this fits [OF this]] True show ?thesis by simp
  next
    case False
    with w ok(3,4) show ?thesis by (simp add: enrol_other cpu_account.balanced_def memory_account.balanced_def)
  qed
  with ok show ?thesis by (simp add: accounts_ok_def cpu_account.balanced_def memory_account.balanced_def)
qed

section \<open>Streams\<close>

text \<open>A worker whose connection broke opens a new stream, which is accepted; the loop of the old
  stream then wakes up, finds its own channel closed and removes the new one.  From there
  on nothing sent to the worker arrives, and a further stream is accepted beside the live one.\<close>

theorem stale_loop_removes_new_stream:
  assumes "cs_senders cs wid = Some False"
    and "job_stream_open wid cs = (res, cs1)" "job_stream_round env now wid False cs1 = (continue, cs2)"
  shows "res = Inr ()" "cs_senders cs1 wid = Some True" "cs_senders cs2 wid = None"
    and "send_to wid a cs2 = cs2" "fst (job_stream_open wid cs2) = Inr ()"
  using assms by (auto simp: job_stream_open_def job_stream_round_def send_to_def)

text \<open>The reply to a reconnection names exactly the reported jobs that are still assigned to the
  worker, each with the offset the controller has; a token bound to another worker is refused.\<close>

theorem reconnect_exact:
  assumes "reconnect sha storage hdr req cs = (res, cs')"
  shows "case res of
           Inl e \<Rightarrow> cs' = cs
         | Inr rs \<Rightarrow> set rs = {(jid, last_offset jid (cs_logs cs)) | jid. jid \<in> set (rq_running_jobs req)
               \<and> (\<exists>job. cs_jobs cs jid = Some job \<and> j_assigned_worker job = Some (rq_worker_id req))}
             \<and> cs' = map_workers (mark_reconnected (rq_worker_id req)) cs"
    and "hdr = Some (''Bearer '' @ t) \<Longrightarrow> starts_with ''chola_wkr_'' t \<Longrightarrow> storage = Some st \<Longrightarrow>
         as_token_worker_id st (sha t) = Inr (Some bound) \<Longrightarrow> bound \<noteq> rq_worker_id req \<Longrightarrow> \<exists>msg. res = Inl (Status PermissionDenied msg)"
proof -
  have logs: "cs_logs (map_workers f cs) = cs_logs cs" for f by (simp add: map_workers_def)
  have rs: "set (log_resumes wid js c) = {(jid, last_offset jid (cs_logs c)) | jid. jid \<in> set js
      \<and> (\<exists>job. cs_jobs c jid = Some job \<and> j_assigned_worker job = Some wid)}" for wid js c
    by (induction js) (auto simp: log_resumes_def List.map_filter_simps split: option.splits if_splits)
  show "case res of
           Inl e \<Rightarrow> cs' = cs
         | Inr rs \<Rightarrow> set rs = {(jid, last_offset jid (cs_logs cs)) | jid. jid \<in> set (rq_running_jobs req)
               \<and> (\<exists>job. cs_jobs cs jid = Some job \<and> j_assigned_worker job = Some (rq_worker_id req))}
             \<and> cs' = map_workers (mark_reconnected (rq_worker_id req)) cs"
    using assms by (auto simp: reconnect_def Let_def rs logs split: sum.splits)
  show "hdr = Some (''Bearer '' @ t) \<Longrightarrow> starts_with ''chola_wkr_'' t \<Longrightarrow> storage = Some st \<Longrightarrow>
         as_token_worker_id st (sha t) = Inr (Some bound) \<Longrightarrow> bound \<noteq> rq_worker_id req \<Longrightarrow> \<exists>msg. res = Inl (Status PermissionDenied msg)"
    using assms by (auto simp: reconnect_def Let_def strip_prefix_def starts_with_def)
qed

section \<open>Properties\<close>

lemma register_rpc_cases:
  assumes "register_rpc sha config env storage now hb_interval new_token req s = (Inr resp, s')"
  obtains (worker_token) st row where "storage = Some st" "rr_worker_token req \<noteq> []"
      "token_identity st (sha (rr_worker_token req)) = Inr (re_assigned_worker_id resp)"
      "as_worker st (re_assigned_worker_id resp) = Inr row" "\<And>r. row = Some r \<Longrightarrow> wr_approved r"
      "fst s' = enrol env now (re_assigned_worker_id resp) req row (fst s)" "snd s' = insert (sha (rr_worker_token req)) (snd s)"
      "re_worker_token resp = []"
  | (registration_token) st token_id row where "storage = Some st" "rr_worker_token req = []" "rr_registration_token req \<noteq> []"
      "as_validate_registration_token st (sha (rr_registration_token req)) = Inr token_id"
      "as_upsert_worker st (row_of_request now (sha new_token) token_id req) = Inr row"
      "re_assigned_worker_id resp = rr_worker_id req" "re_worker_token resp = new_token"
      "fst s' = enrol env now (rr_worker_id req) req (Some row) (emit (DbIncrementTokenUses token_id)
         (emit (DbUpsertWorker (row_of_request now (sha new_token) token_id req)) (fst s)))"
      "snd s' = insert (sha new_token) (snd s)"
  | (no_token) "storage = None \<or> rr_worker_token req = [] \<and> rr_registration_token req = []"
      "\<not> ac_enabled config" "re_assigned_worker_id resp = rr_worker_id req" "re_worker_token resp = []"
      "fst s' = enrol env now (rr_worker_id req) req None (fst s)" "snd s' = snd s"
proof (cases storage)
  case None
  show ?thesis by (rule no_token) (use assms None in \<open>auto simp: register_rpc_def accepted_def split: if_splits\<close>)
next
  case (Some st)
  consider "rr_worker_token req \<noteq> []" | "rr_worker_token req = []" "rr_registration_token req \<noteq> []"
    | "rr_worker_token req = []" "rr_registration_token req = []" by blast
  then show ?thesis
  proof cases
    case 1
    have r: "register_by_worker_token sha env st now hb_interval req s = (Inr resp, s')"
      using assms Some 1 by (simp add: register_rpc_def)
    show ?thesis
      by (rule worker_token [OF Some 1, of "projr (as_worker st (re_assigned_worker_id resp))"])
        (use r in \<open>auto simp: register_by_worker_token_def Let_def accepted_def
           split: sum.splits option.splits if_splits\<close>)
  next
    case 2
    have r: "register_by_registration_token sha env st now hb_interval new_token req s = (Inr resp, s')"
      using assms Some 2 by (simp add: register_rpc_def)
    then obtain token_id row where "as_validate_registration_token st (sha (rr_registration_token req)) = Inr token_id"
      "as_upsert_worker st (row_of_request now (sha new_token) token_id req) = Inr row"
      by (auto simp: register_by_registration_token_def split: sum.splits)
    with r show ?thesis
      by (intro registration_token [OF Some 2, of token_id row]) (auto simp: register_by_registration_token_def accepted_def)
  next
    case 3
    show ?thesis by (rule no_token) (use assms Some 3 in \<open>auto simp: register_rpc_def accepted_def split: if_splits\<close>)
  qed
qed


definition sample_register :: RegisterRequest where
  "sample_register =
     \<lparr> rr_worker_id = ''w1'', rr_hostname = ''h1'', rr_total_cpu = 8, rr_total_memory_mb = 16000, rr_total_disk_mb = 1000,
       rr_disk_type = ''nvme'', rr_supported_job_types = [''common''], rr_docker_enabled = True, rr_labels = [],
       rr_disk_details = [], rr_registration_token = [], rr_worker_token = ''chola_wkr_1'' \<rparr>"

definition sample_auth :: AuthStore where
  "sample_auth =
     \<lparr> as_token_worker_id = (\<lambda>h. Inr (if h = rev ''chola_wkr_1'' then Some ''w1'' else None)),
       as_worker_by_token_hash = (\<lambda>_. Inr None), as_worker = (\<lambda>_. Inr None),
       as_validate_registration_token = (\<lambda>_. Inl ''no such token''), as_upsert_worker = Inr \<rparr>"




end
