(* ===== verification/Redis_Store.thy ===== *)
theory Redis_Store
  imports Registration
begin

text \<open>
  The Redis store (\<open>redis_store.rs\<close>) and the lock RPCs (\<open>grpc_server.rs\<close>).  The Redis
  server is a parameter: \<open>Redis\<close> holds the commands the store sends, each taking the
  server's state \<open>'r\<close> to its reply, an error on the left, and the next state.  \<open>redis_strings\<close> and
  \<open>redis_sets\<close> state the documented behaviour the store relies on, relative to the value \<open>vw t r k\<close> of a string key at time
  \<open>t\<close> and to the members \<open>mem r k\<close> of a set.  The Lua script of a release runs atomically.
\<close>

section \<open>Commands\<close>

record 'r Redis =
  rd_set_nx_ex :: "datetime \<Rightarrow> string \<Rightarrow> string \<Rightarrow> u64 \<Rightarrow> 'r \<Rightarrow> bool query \<times> 'r"
  rd_set_ex :: "datetime \<Rightarrow> string \<Rightarrow> string \<Rightarrow> u64 \<Rightarrow> 'r \<Rightarrow> unit query \<times> 'r"
  rd_expire :: "datetime \<Rightarrow> string \<Rightarrow> int \<Rightarrow> 'r \<Rightarrow> unit query \<times> 'r"
  rd_ttl :: "datetime \<Rightarrow> string \<Rightarrow> 'r \<Rightarrow> int query"
  rd_get :: "datetime \<Rightarrow> string \<Rightarrow> 'r \<Rightarrow> string option query"
  rd_del :: "string \<Rightarrow> 'r \<Rightarrow> unit query \<times> 'r"
  rd_keys :: "datetime \<Rightarrow> string \<Rightarrow> 'r \<Rightarrow> string list query"
  rd_sadd :: "string \<Rightarrow> string \<Rightarrow> 'r \<Rightarrow> unit query \<times> 'r"
  rd_srem :: "string \<Rightarrow> string \<Rightarrow> 'r \<Rightarrow> unit query \<times> 'r"
  rd_smembers :: "string \<Rightarrow> 'r \<Rightarrow> string list query"
  rd_sismember :: "string \<Rightarrow> string \<Rightarrow> 'r \<Rightarrow> bool query"

definition seconds :: "u64 \<Rightarrow> int" where
  "seconds n = uint n * 1000000000"

text \<open>SET NX EX sets a vacant key for its TTL and leaves an occupied one alone; every
  command touches its own key only; a reply without error reports what was done.\<close>

definition set_nx_ok ::
  "(datetime \<Rightarrow> 'r \<Rightarrow> string \<Rightarrow> string option) \<Rightarrow> datetime \<Rightarrow> string \<Rightarrow> string \<Rightarrow> u64 \<Rightarrow> 'r \<Rightarrow> bool query \<times> 'r \<Rightarrow> bool" where
  "set_nx_ok vw now k v ttl r = (\<lambda>(reply, r').
     (\<forall>t k'. k' \<noteq> k \<longrightarrow> vw t r' k' = vw t r k')
     \<and> (vw now r k \<noteq> None \<longrightarrow> (\<forall>t. vw t r' k = vw t r k) \<and> reply \<noteq> Inr True)
     \<and> (vw now r k = None \<longrightarrow> reply \<noteq> Inr False)
     \<and> (reply = Inr True \<longrightarrow> (\<forall>t. now \<le> t \<and> t < now + seconds ttl \<longrightarrow> vw t r' k = Some v)))"

definition del_ok :: "(datetime \<Rightarrow> 'r \<Rightarrow> string \<Rightarrow> string option) \<Rightarrow> string \<Rightarrow> 'r \<Rightarrow> unit query \<times> 'r \<Rightarrow> bool" where
  "del_ok vw k r = (\<lambda>(reply, r').
     (\<forall>t k'. k' \<noteq> k \<longrightarrow> vw t r' k' = vw t r k') \<and> (reply = Inr () \<longrightarrow> (\<forall>t. vw t r' k = None)))"

definition redis_strings :: "(datetime \<Rightarrow> 'r \<Rightarrow> string \<Rightarrow> string option) \<Rightarrow> 'r Redis \<Rightarrow> bool" where
  "redis_strings vw R \<longleftrightarrow>
     (\<forall>now k v ttl r. set_nx_ok vw now k v ttl r (rd_set_nx_ex R now k v ttl r))
     \<and> (\<forall>now k r x. rd_get R now k r = Inr x \<longrightarrow> x = vw now r k)
     \<and> (\<forall>k r. del_ok vw k r (rd_del R k r))"

definition redis_sets :: "('r \<Rightarrow> string \<Rightarrow> string set) \<Rightarrow> 'r Redis \<Rightarrow> bool" where
  "redis_sets mem R \<longleftrightarrow>
     (\<forall>now k v ttl r. mem (snd (rd_set_nx_ex R now k v ttl r)) = mem r)
     \<and> (\<forall>k r k'. k' \<noteq> k \<longrightarrow> mem (snd (rd_del R k r)) k' = mem r k')
     \<and> (\<forall>k x r reply r'. rd_sadd R k x r = (reply, r') \<longrightarrow>
          (\<forall>k'. k' \<noteq> k \<longrightarrow> mem r' k' = mem r k') \<and> mem r k \<subseteq> mem r' k \<and> mem r' k \<subseteq> insert x (mem r k)
          \<and> (reply = Inr () \<longrightarrow> x \<in> mem r' k))
     \<and> (\<forall>k x r reply r'. rd_srem R k x r = (reply, r') \<longrightarrow>
          (\<forall>k'. k' \<noteq> k \<longrightarrow> mem r' k' = mem r k') \<and> mem r' k \<subseteq> mem r k \<and> mem r k \<subseteq> insert x (mem r' k)
          \<and> (reply = Inr () \<longrightarrow> x \<notin> mem r' k))
     \<and> (\<forall>k r xs. rd_smembers R k r = Inr xs \<longrightarrow> set xs = mem r k)
     \<and> (\<forall>k x r b. rd_sismember R k x r = Inr b \<longrightarrow> b = (x \<in> mem r k))"

section \<open>Keys\<close>

definition key :: "string \<Rightarrow> string list \<Rightarrow> string" where
  "key pre parts = pre @ str_join '':'' parts"

definition reservation_key :: "string \<Rightarrow> string \<Rightarrow> string \<Rightarrow> string" where
  "reservation_key pre worker_id group_id = key pre [''worker'', ''reservation'', worker_id, group_id]"

definition lock_key_of :: "string \<Rightarrow> string \<Rightarrow> string" where
  "lock_key_of pre lock_name = key pre [''lock'', lock_name]"

definition queue_key :: "string \<Rightarrow> string \<Rightarrow> string" where
  "queue_key pre worker_id = key pre [''purge'', ''queue'', worker_id]"

definition inflight_key :: "string \<Rightarrow> string \<Rightarrow> string \<Rightarrow> string" where
  "inflight_key pre worker_id group_id = key pre [''purge'', ''inflight'', worker_id, group_id]"

section \<open>Reservations\<close>

definition reserve_worker :: "'r Redis \<Rightarrow> string \<Rightarrow> datetime \<Rightarrow> string \<Rightarrow> string \<Rightarrow> u64 \<Rightarrow> 'r \<Rightarrow> unit query \<times> 'r" where
  "reserve_worker R pre now worker_id group_id ttl_secs =
     rd_set_ex R now (reservation_key pre worker_id group_id) ''1'' ttl_secs"

definition release_worker_reservation :: "'r Redis \<Rightarrow> string \<Rightarrow> string \<Rightarrow> string \<Rightarrow> 'r \<Rightarrow> unit query \<times> 'r" where
  "release_worker_reservation R pre worker_id group_id = rd_del R (reservation_key pre worker_id group_id)"

fun del_keys :: "'r Redis \<Rightarrow> string list \<Rightarrow> 'r \<Rightarrow> unit query \<times> 'r" where
  "del_keys R [] r = (Inr (), r)"
| "del_keys R (k # ks) r = (case rd_del R k r of (Inl e, r) \<Rightarrow> (Inl e, r) | (Inr _, r) \<Rightarrow> del_keys R ks r)"

definition release_all_worker_reservations :: "'r Redis \<Rightarrow> string \<Rightarrow> datetime \<Rightarrow> string \<Rightarrow> 'r \<Rightarrow> nat query \<times> 'r" where
  "release_all_worker_reservations R pre now worker_id r =
     (case rd_keys R now (key pre [''worker'', ''reservation'', worker_id, ''*'']) r of
        Inl e \<Rightarrow> (Inl e, r)
      | Inr ks \<Rightarrow> (case del_keys R ks r of (Inl e, r) \<Rightarrow> (Inl e, r) | (Inr _, r) \<Rightarrow> (Inr (length ks), r)))"

definition refresh_reservation_ttl :: "'r Redis \<Rightarrow> string \<Rightarrow> datetime \<Rightarrow> string \<Rightarrow> string \<Rightarrow> u64 \<Rightarrow> 'r \<Rightarrow> unit query \<times> 'r" where
  "refresh_reservation_ttl R pre now worker_id group_id ttl_secs =
     rd_expire R now (reservation_key pre worker_id group_id) (as_i64 ttl_secs)"

definition get_reservation_ttl :: "'r Redis \<Rightarrow> string \<Rightarrow> datetime \<Rightarrow> string \<Rightarrow> string \<Rightarrow> 'r \<Rightarrow> int option query" where
  "get_reservation_ttl R pre now worker_id group_id r =
     map_sum id (\<lambda>ttl. if ttl \<ge> 0 then Some ttl else None) (rd_ttl R now (reservation_key pre worker_id group_id) r)"

definition get_worker_reservations :: "'r Redis \<Rightarrow> string \<Rightarrow> datetime \<Rightarrow> string \<Rightarrow> 'r \<Rightarrow> string list query" where
  "get_worker_reservations R pre now worker_id r =
     map_sum id (List.map_filter (strip_prefix (key pre [''worker'', ''reservation'', worker_id, []])))
       (rd_keys R now (key pre [''worker'', ''reservation'', worker_id, ''*'']) r)"

definition parse_reservation :: "string \<Rightarrow> string \<Rightarrow> (string \<times> string) option" where
  "parse_reservation pre k = Option.bind (strip_prefix (key pre [''worker'', ''reservation'', []]) k) (split_once (CHR '':''))"

definition scan_all_reservations :: "'r Redis \<Rightarrow> string \<Rightarrow> datetime \<Rightarrow> 'r \<Rightarrow> (string \<times> string) list query" where
  "scan_all_reservations R pre now r =
     map_sum id (List.map_filter (parse_reservation pre)) (rd_keys R now (key pre [''worker'', ''reservation'', ''*'']) r)"

definition parse_worker_death_key :: "string \<Rightarrow> string \<Rightarrow> string option" where
  "parse_worker_death_key k pre = strip_prefix (pre @ ''worker:alive:'') k"

section \<open>Locks\<close>

definition acquire_lock :: "'r Redis \<Rightarrow> string \<Rightarrow> datetime \<Rightarrow> string \<Rightarrow> string \<Rightarrow> u64 \<Rightarrow> 'r \<Rightarrow> string option query \<times> 'r" where
  "acquire_lock R pre now owner lock_name ttl_secs r =
     (case rd_set_nx_ex R now (lock_key_of pre lock_name) owner ttl_secs r of
        (reply, r) \<Rightarrow> (map_sum id (\<lambda>ok. if ok then Some owner else None) reply, r))"

definition acquire_lock_with_holder :: "'r Redis \<Rightarrow> string \<Rightarrow> datetime \<Rightarrow> string \<Rightarrow> string \<Rightarrow> u64 \<Rightarrow> 'r \<Rightarrow> bool query \<times> 'r" where
  "acquire_lock_with_holder R pre now lock_name holder_id ttl_secs =
     rd_set_nx_ex R now (lock_key_of pre lock_name) holder_id ttl_secs"

definition release_lock_with_holder :: "'r Redis \<Rightarrow> string \<Rightarrow> datetime \<Rightarrow> string \<Rightarrow> string \<Rightarrow> 'r \<Rightarrow> bool query \<times> 'r" where
  "release_lock_with_holder R pre now lock_name holder_id r =
     (let k = lock_key_of pre lock_name
      in case rd_get R now k r of
           Inl e \<Rightarrow> (Inl e, r)
         | Inr v \<Rightarrow>
             if v = Some holder_id
             then (case rd_del R k r of (Inl e, r) \<Rightarrow> (Inl e, r) | (Inr _, r) \<Rightarrow> (Inr True, r))
             else (Inr False, r))"

definition release_lock_force :: "'r Redis \<Rightarrow> string \<Rightarrow> string \<Rightarrow> 'r \<Rightarrow> unit query \<times> 'r" where
  "release_lock_force R pre lock_name = rd_del R (lock_key_of pre lock_name)"

text \<open>The RPCs; \<open>timeout_secs\<close> is an i32, so the TTL is at least a second.\<close>

record AcquireLockRequest =
  al_lock_key :: string
  al_holder_id :: string
  al_timeout_secs :: int

definition lock_ttl :: "AcquireLockRequest \<Rightarrow> u64" where
  "lock_ttl req = word_of_int (max (al_timeout_secs req) 1)"

definition acquire_lock_rpc :: "'r Redis option \<Rightarrow> string \<Rightarrow> datetime \<Rightarrow> AcquireLockRequest \<Rightarrow> 'r \<Rightarrow> (Status + bool \<times> string) \<times> 'r" where
  "acquire_lock_rpc store pre now req r =
     (case store of
        None \<Rightarrow> (Inl (Status Unavailable ''Redis not configured''), r)
      | Some R \<Rightarrow>
          (case acquire_lock_with_holder R pre now (al_lock_key req) (al_holder_id req) (lock_ttl req) r of
             (Inl e, r) \<Rightarrow> (Inl (Status Internal (''Redis error: '' @ e)), r)
           | (Inr acquired, r) \<Rightarrow>
               (Inr (acquired, if acquired then ''Lock acquired'' else ''Lock held by another''), r)))"

definition release_lock_rpc :: "'r Redis option \<Rightarrow> string \<Rightarrow> datetime \<Rightarrow> string \<Rightarrow> string \<Rightarrow> 'r \<Rightarrow> (Status + bool) \<times> 'r" where
  "release_lock_rpc store pre now lock_key holder_id r =
     (case store of
        None \<Rightarrow> (Inl (Status Unavailable ''Redis not configured''), r)
      | Some R \<Rightarrow>
          (case release_lock_with_holder R pre now lock_key holder_id r of
             (Inl e, r) \<Rightarrow> (Inl (Status Internal (''Redis error: '' @ e)), r)
           | (Inr released, r) \<Rightarrow> (Inr released, r)))"

section \<open>The purge queue\<close>

definition enqueue_purge :: "'r Redis \<Rightarrow> string \<Rightarrow> datetime \<Rightarrow> string \<Rightarrow> string \<Rightarrow> 'r \<Rightarrow> unit query \<times> 'r" where
  "enqueue_purge R pre now worker_id group_id r =
     (case rd_sadd R (queue_key pre worker_id) group_id r of
        (Inl e, r) \<Rightarrow> (Inl e, r)
      | (Inr _, r) \<Rightarrow>
          (case rd_set_nx_ex R now (inflight_key pre worker_id group_id) ''1'' 3600 r of
             (reply, r) \<Rightarrow> (map_sum id (\<lambda>_. ()) reply, r)))"

definition dequeue_purges :: "'r Redis \<Rightarrow> string \<Rightarrow> string \<Rightarrow> 'r \<Rightarrow> string list query" where
  "dequeue_purges R pre worker_id = rd_smembers R (queue_key pre worker_id)"

definition ack_purge :: "'r Redis \<Rightarrow> string \<Rightarrow> string \<Rightarrow> string \<Rightarrow> 'r \<Rightarrow> unit query \<times> 'r" where
  "ack_purge R pre worker_id group_id r =
     (case rd_srem R (queue_key pre worker_id) group_id r of
        (Inl e, r) \<Rightarrow> (Inl e, r)
      | (Inr _, r) \<Rightarrow> rd_del R (inflight_key pre worker_id group_id) r)"

definition is_purge_pending :: "'r Redis \<Rightarrow> string \<Rightarrow> string \<Rightarrow> string \<Rightarrow> 'r \<Rightarrow> bool query" where
  "is_purge_pending R pre worker_id group_id = rd_sismember R (queue_key pre worker_id) group_id"

section \<open>Mutual exclusion\<close>

datatype lock_call = LAcquire AcquireLockRequest | LRelease string string

fun call_lock :: "lock_call \<Rightarrow> string" where
  "call_lock (LAcquire req) = al_lock_key req"
| "call_lock (LRelease lock_key _) = lock_key"

text \<open>A sequence of timed calls, with whether each took or freed its lock.\<close>

definition lock_step :: "'r Redis \<Rightarrow> string \<Rightarrow> datetime \<Rightarrow> lock_call \<Rightarrow> 'r \<Rightarrow> bool \<times> 'r" where
  "lock_step R pre now c r =
     (case c of
        LAcquire req \<Rightarrow> (case acquire_lock_rpc (Some R) pre now req r of (res, r) \<Rightarrow> (\<exists>m. res = Inr (True, m), r))
      | LRelease lock_key holder \<Rightarrow> (case release_lock_rpc (Some R) pre now lock_key holder r of (res, r) \<Rightarrow> (res = Inr True, r)))"

fun lock_run :: "'r Redis \<Rightarrow> string \<Rightarrow> (datetime \<times> lock_call) list \<Rightarrow> 'r \<Rightarrow> (lock_call \<times> bool) list \<times> 'r" where
  "lock_run R pre [] r = ([], r)"
| "lock_run R pre ((t, c) # cs) r =
     (let (ok, r) = lock_step R pre t c r; (oks, r) = lock_run R pre cs r in ((c, ok) # oks, r))"

lemma lock_key_of_inj [simp]: "lock_key_of pre a = lock_key_of pre b \<longleftrightarrow> a = b"
  by (simp add: lock_key_of_def key_def)

lemma redis_setD:
  assumes "redis_strings vw R" "rd_set_nx_ex R now k v ttl r = (reply, r')"
  shows "k' \<noteq> k \<Longrightarrow> vw t r' k' = vw t r k'"
    and "vw now r k \<noteq> None \<Longrightarrow> vw t r' k = vw t r k" "vw now r k \<noteq> None \<Longrightarrow> reply \<noteq> Inr True"
    and "vw now r k = None \<Longrightarrow> reply \<noteq> Inr False"
    and "reply = Inr True \<Longrightarrow> now \<le> t \<Longrightarrow> t < now + seconds ttl \<Longrightarrow> vw t r' k = Some v"
proof -
  have "set_nx_ok vw now k v ttl r (rd_set_nx_ex R now k v ttl r)" using assms(1) by (simp add: redis_strings_def)
  note ok = this [unfolded assms(2) set_nx_ok_def split_conv]
  from ok show "k' \<noteq> k \<Longrightarrow> vw t r' k' = vw t r k'" by blast
  from ok show "vw now r k \<noteq> None \<Longrightarrow> vw t r' k = vw t r k" by blast
  from ok show "vw now r k \<noteq> None \<Longrightarrow> reply \<noteq> Inr True" by blast
  from ok show "vw now r k = None \<Longrightarrow> reply \<noteq> Inr False" by blast
  from ok show "reply = Inr True \<Longrightarrow> now \<le> t \<Longrightarrow> t < now + seconds ttl \<Longrightarrow> vw t r' k = Some v" by blast
qed

lemma redis_getD: "redis_strings vw R \<Longrightarrow> rd_get R now k r = Inr x \<Longrightarrow> x = vw now r k"
  by (simp add: redis_strings_def)

lemma redis_delD:
  assumes "redis_strings vw R" "rd_del R k r = (reply, r')" "k' \<noteq> k"
  shows "vw t r' k' = vw t r k'"
proof -
  have "del_ok vw k r (rd_del R k r)" using assms(1) by (simp add: redis_strings_def)
  with assms(2,3) show ?thesis by (simp add: del_ok_def)
qed

text \<open>A call on a held lock, other than the holder's release, fails and changes nothing on it.\<close>

lemma lock_step_held:
  assumes "redis_strings vw R" "lock_step R pre now c r = (ok, r')"
    and "vw now r (lock_key_of pre l) = Some h" "c \<noteq> LRelease l h"
  shows "vw t r' (lock_key_of pre l) = vw t r (lock_key_of pre l)" and "call_lock c = l \<Longrightarrow> \<not> ok"
proof -
  have "vw t r' (lock_key_of pre l) = vw t r (lock_key_of pre l) \<and> (call_lock c = l \<longrightarrow> \<not> ok)"
  proof (cases c)
    case (LAcquire req)
    obtain reply r1 where s: "rd_set_nx_ex R now (lock_key_of pre (al_lock_key req)) (al_holder_id req) (lock_ttl req) r = (reply, r1)"
      by fastforce
    have "r1 = r'" and ok: "ok \<longleftrightarrow> reply = Inr True"
      using assms(2) s by (auto simp: LAcquire lock_step_def acquire_lock_rpc_def acquire_lock_with_holder_def split: sum.splits)
    with redis_setD [OF assms(1) s] assms(3) show ?thesis by (cases "al_lock_key req = l") (auto simp: LAcquire)
  next
    case (LRelease l' h')
    show ?thesis
    proof (cases "l' = l")
      case True
      then have "h' \<noteq> h" using LRelease assms(4) by auto
      then show ?thesis using assms(2,3) True redis_getD [OF assms(1), of now "lock_key_of pre l" r]
        by (auto simp: LRelease lock_step_def release_lock_rpc_def release_lock_with_holder_def Let_def split: sum.splits)
    next
      case False
      then show ?thesis using assms(2) redis_delD [OF assms(1)]
        by (auto simp: LRelease lock_step_def release_lock_rpc_def release_lock_with_holder_def Let_def
            split: sum.splits if_splits prod.splits)
    qed
  qed
  then show "vw t r' (lock_key_of pre l) = vw t r (lock_key_of pre l)" "call_lock c = l \<Longrightarrow> \<not> ok" by blast+
qed

lemma lock_run_held:
  assumes "redis_strings vw R" "lock_run R pre calls r = (oks, r')"
    and "\<And>t c. (t, c) \<in> set calls \<Longrightarrow> vw t r (lock_key_of pre l) = Some h \<and> c \<noteq> LRelease l h"
  shows "\<forall>(c, ok) \<in> set oks. call_lock c = l \<longrightarrow> \<not> ok" and "vw t r' (lock_key_of pre l) = vw t r (lock_key_of pre l)"
proof -
  have "(\<forall>(c, ok) \<in> set oks. call_lock c = l \<longrightarrow> \<not> ok) \<and> vw t r' (lock_key_of pre l) = vw t r (lock_key_of pre l)"
    using assms(2,3)
  proof (induction calls arbitrary: r oks)
    case (Cons x calls)
    obtain now c where x: "x = (now, c)" by (cases x)
    obtain ok r1 where st: "lock_step R pre now c r = (ok, r1)" by fastforce
    obtain oks' where run: "lock_run R pre calls r1 = (oks', r')" "oks = (c, ok) # oks'"
      using Cons.prems(1) by (auto simp: x st split: prod.splits)
    have here: "vw now r (lock_key_of pre l) = Some h" "c \<noteq> LRelease l h" using Cons.prems(2) x by auto
    note held = lock_step_held [OF assms(1) st here]
    have "(\<forall>(c, ok) \<in> set oks'. call_lock c = l \<longrightarrow> \<not> ok) \<and> vw t r' (lock_key_of pre l) = vw t r1 (lock_key_of pre l)"
      by (rule Cons.IH [OF run(1)]) (use Cons.prems(2) held(1) in auto)
    with held run(2) show ?case by auto
  qed simp
  then show "\<forall>(c, ok) \<in> set oks. call_lock c = l \<longrightarrow> \<not> ok" "vw t r' (lock_key_of pre l) = vw t r (lock_key_of pre l)"
    by blast+
qed

section \<open>Properties\<close>

text \<open>C35: Script locks exclude each other.  A lock is granted only while it is vacant, and until
  its TTL runs out no call on it but the holder's own release succeeds, in whatever order the
  calls of the other workers come in, also on other locks and also when Redis fails some of them.\<close>

theorem lock_mutual_exclusion:
  assumes "redis_strings vw R" "acquire_lock_rpc (Some R) pre t0 req r = (Inr (True, msg), r0)"
    and "lock_run R pre calls r0 = (oks, r1)"
    and "\<forall>(t, c) \<in> set calls. t0 \<le> t \<and> t < t0 + seconds (lock_ttl req) \<and> c \<noteq> LRelease (al_lock_key req) (al_holder_id req)"
  shows "vw t0 r (lock_key_of pre (al_lock_key req)) = None
    \<and> (\<forall>(c, ok) \<in> set oks. call_lock c = al_lock_key req \<longrightarrow> \<not> ok)"
proof (intro conjI)
  have s: "rd_set_nx_ex R t0 (lock_key_of pre (al_lock_key req)) (al_holder_id req) (lock_ttl req) r = (Inr True, r0)"
    using assms(2) by (auto simp: acquire_lock_rpc_def acquire_lock_with_holder_def split: prod.splits sum.splits)
  show "vw t0 r (lock_key_of pre (al_lock_key req)) = None" using redis_setD(3) [OF assms(1) s] by blast
  show "\<forall>(c, ok) \<in> set oks. call_lock c = al_lock_key req \<longrightarrow> \<not> ok"
    by (rule lock_run_held(1) [OF assms(1,3)]) (use assms(4) redis_setD(5) [OF assms(1) s] in blast)
qed

text \<open>A server in memory: string keys with their expiry, and sets as lists.\<close>

definition mem_view :: "datetime \<Rightarrow> (string \<rightharpoonup> string \<times> datetime) \<times> (string \<Rightarrow> string list) \<Rightarrow> string \<Rightarrow> string option" where
  "mem_view t s k = (case fst s k of Some (v, e) \<Rightarrow> if t < e then Some v else None | None \<Rightarrow> None)"

definition mem_redis :: "((string \<rightharpoonup> string \<times> datetime) \<times> (string \<Rightarrow> string list)) Redis" where
  "mem_redis =
     \<lparr> rd_set_nx_ex = (\<lambda>now k v ttl s. if mem_view now s k = None
          then (Inr True, ((fst s)(k \<mapsto> (v, now + seconds ttl)), snd s)) else (Inr False, s)),
       rd_set_ex = (\<lambda>now k v ttl s. (Inr (), ((fst s)(k \<mapsto> (v, now + seconds ttl)), snd s))),
       rd_expire = (\<lambda>now k ttl s. (Inr (), (hm_modify k (\<lambda>(v, _). (v, now + ttl * 1000000000)) (fst s), snd s))),
       rd_ttl = (\<lambda>now k s. Inr (case fst s k of Some (_, e) \<Rightarrow> (e - now) div 1000000000 | None \<Rightarrow> -2)),
       rd_get = (\<lambda>now k s. Inr (mem_view now s k)),
       rd_del = (\<lambda>k s. (Inr (), ((fst s)(k := None), (snd s)(k := [])))),
       rd_keys = (\<lambda>_ _ _. Inr []),
       rd_sadd = (\<lambda>k x s. (Inr (), (fst s, (snd s)(k := List.insert x (snd s k))))),
       rd_srem = (\<lambda>k x s. (Inr (), (fst s, (snd s)(k := removeAll x (snd s k))))),
       rd_smembers = (\<lambda>k s. Inr (snd s k)),
       rd_sismember = (\<lambda>k x s. Inr (x \<in> set (snd s k))) \<rparr>"

lemma mem_redis_ok: "redis_strings mem_view mem_redis" "redis_sets (\<lambda>s k. set (snd s k)) mem_redis"
  by (auto simp: redis_strings_def redis_sets_def set_nx_ok_def del_ok_def mem_redis_def mem_view_def split: option.splits if_splits)

definition sample_lock :: "string \<Rightarrow> AcquireLockRequest" where
  "sample_lock holder = \<lparr> al_lock_key = ''deploy'', al_holder_id = holder, al_timeout_secs = 60 \<rparr>"

theorem lock_mutual_exclusion_witness:
  "let r0 = snd (acquire_lock_rpc (Some mem_redis) ''p:'' 0 (sample_lock ''w1'') (Map.empty, \<lambda>_. []));
       oks = fst (lock_run mem_redis ''p:'' [(5, LAcquire (sample_lock ''w2'')), (6, LRelease ''deploy'' ''w2'')] r0)
   in map snd oks = [False, False]"
proof -
  let ?a = "acquire_lock_rpc (Some mem_redis) ''p:'' 0 (sample_lock ''w1'') (Map.empty, \<lambda>_. [])"
  let ?calls = "[(5, LAcquire (sample_lock ''w2'')), (6, LRelease ''deploy'' ''w2'')]"
  obtain r0 where a: "?a = (Inr (True, ''Lock acquired''), r0)"
    by (simp add: acquire_lock_rpc_def acquire_lock_with_holder_def mem_redis_def mem_view_def)
  obtain oks r1 where run: "lock_run mem_redis ''p:'' ?calls r0 = (oks, r1)"
    by (cases "lock_run mem_redis ''p:'' ?calls r0")
  have "\<forall>(c, ok) \<in> set oks. call_lock c = ''deploy'' \<longrightarrow> \<not> ok"
    using lock_mutual_exclusion [OF mem_redis_ok(1) a run]
    by (simp add: sample_lock_def lock_ttl_def seconds_def)
  moreover have "map fst oks = map snd ?calls" using run by (auto split: prod.splits)
  ultimately have "map snd oks = [False, False]" by (auto simp: map_eq_Cons_conv sample_lock_def)
  with a run show ?thesis by (simp add: Let_def)
qed

text \<open>C36: The scan of all reservations reads back the worker and the group of a reservation
  key exactly when the worker's id holds no colon.\<close>

theorem reservation_scan_round_trip:
  "parse_reservation pre (reservation_key pre worker_id group_id) = Some (worker_id, group_id) \<longleftrightarrow> CHR '':'' \<notin> set worker_id"
proof -
  have parse: "parse_reservation pre (reservation_key pre worker_id group_id) = split_once (CHR '':'') (worker_id @ '':'' @ group_id)"
    by (simp add: parse_reservation_def reservation_key_def key_def strip_prefix_def starts_with_def)
  show ?thesis
  proof (cases "CHR '':'' \<in> set worker_id")
    case True
    have "takeWhile (\<lambda>x. x \<noteq> CHR '':'') (worker_id @ '':'' @ group_id) \<noteq> worker_id"
    proof
      assume "takeWhile (\<lambda>x. x \<noteq> CHR '':'') (worker_id @ '':'' @ group_id) = worker_id"
      then have "takeWhile (\<lambda>x. x \<noteq> CHR '':'') worker_id = worker_id" using True by simp
      then show False using True by (auto simp: takeWhile_eq_all_conv)
    qed
    with True show ?thesis by (auto simp: parse split_once_def split: list.splits)
  next
    case False
    have "takeWhile (\<lambda>x. x \<noteq> CHR '':'') (worker_id @ '':'' @ group_id) = worker_id"
      by (subst takeWhile_append2) (use False in auto)
    moreover have "dropWhile (\<lambda>x. x \<noteq> CHR '':'') (worker_id @ '':'' @ group_id) = '':'' @ group_id"
      by (subst dropWhile_append2) (use False in auto)
    ultimately show ?thesis using False by (simp add: parse split_once_def)
  qed
qed

end
