(* ===== verification/Retention.thy ===== *)
theory Retention
  imports Settings Redis_Store Recovery
begin

text \<open>
  The three tiers of retention (\<open>retention.rs\<close>): tier 1 purges the files of old builds, tier 2 moves their
  rows to the archive tables, tier 3 deletes old archive rows.  With it the storage calls it makes
  (\<open>storage.rs\<close>, with the stored functions of the migrations), the acknowledgement of a purge and the
  forced sweep (\<open>grpc_server.rs\<close>).  A table is a list of rows; the order of the list decides between rows that a
  query leaves in any order.  Every storage call may fail, by its name; the calls of a loop by
  their index.  A day of an interval is 24 hours.
\<close>

section \<open>Tables\<close>

record GroupRow =
  gw_id :: uuid
  gw_repo_id :: "uuid option"
  gw_branch :: "string option"
  gw_commit_sha :: "string option"
  gw_trigger_source :: "string option"
  gw_reserved_worker_id :: "string option"
  gw_state :: string
  gw_created_at :: datetime
  gw_updated_at :: datetime
  gw_completed_at :: "datetime option"
  gw_priority :: int
  gw_pr_number :: "int option"
  gw_pinned :: bool
  gw_idempotency_key :: "string option"
  gw_allocated_cpu :: int
  gw_allocated_memory_mb :: int
  gw_allocated_disk_mb :: int
  gw_reserved_stages :: "string list option"
  gw_status_reason :: "string option"
  gw_files_purged_at :: "datetime option"

record JobRow =
  jw_id :: uuid
  jw_job_group_id :: uuid
  jw_stage_config_id :: "uuid option"
  jw_stage_name :: string
  jw_command :: string
  jw_pre_script :: "string option"
  jw_post_script :: "string option"
  jw_worker_id :: "string option"
  jw_state :: string
  jw_exit_code :: "int option"
  jw_pre_exit_code :: "int option"
  jw_post_exit_code :: "int option"
  jw_log_path :: "string option"
  jw_started_at :: "datetime option"
  jw_completed_at :: "datetime option"
  jw_created_at :: datetime
  jw_updated_at :: datetime
  jw_retry_count :: int
  jw_status_reason :: "string option"

record ReservationRow =
  vw_id :: uuid
  vw_worker_id :: string
  vw_job_group_id :: uuid
  vw_reserved_at :: datetime
  vw_expires_at :: datetime
  vw_released_at :: "datetime option"
  vw_release_reason :: "string option"

record ArtifactRow =
  aw_id :: uuid
  aw_job_group_id :: uuid
  aw_job_id :: "uuid option"
  aw_stage_name :: string
  aw_filename :: string
  aw_file_path :: string
  aw_size_bytes :: int
  aw_content_type :: "string option"
  aw_created_at :: datetime

record TestRow =
  tw_id :: uuid
  tw_job_id :: uuid
  tw_job_group_id :: uuid
  tw_suite_name :: "string option"
  tw_test_name :: string
  tw_classname :: "string option"
  tw_status :: string
  tw_duration_ms :: "int option"
  tw_failure_message :: "string option"
  tw_failure_type :: "string option"
  tw_stdout :: "string option"
  tw_stderr :: "string option"
  tw_created_at :: datetime

record GateRow =
  ag_id :: uuid
  ag_job_group_id :: uuid
  ag_stage_config_id :: "uuid option"
  ag_status :: string
  ag_required_role :: "string option"
  ag_requested_at :: datetime
  ag_responded_at :: "datetime option"
  ag_responded_by :: "uuid option"
  ag_timeout_minutes :: "int option"
  ag_comment :: "string option"

text \<open>A table with its archive, whose rows carry the time they were archived.\<close>

type_synonym 'a archived = "'a list \<times> ('a \<times> datetime) list"

record Tables =
  tb_groups :: "GroupRow archived"
  tb_jobs :: "JobRow archived"
  tb_reservations :: "ReservationRow archived"
  tb_artifacts :: "ArtifactRow archived"
  tb_tests :: "TestRow archived"
  tb_gates :: "GateRow archived"

section \<open>Storage calls\<close>

text \<open>The rows a predicate selects go to the archive, or come back, or leave the archive for good.\<close>

definition to_archive :: "datetime \<Rightarrow> ('a \<Rightarrow> bool) \<Rightarrow> 'a archived \<Rightarrow> 'a archived" where
  "to_archive now p t = (filter (\<lambda>r. \<not> p r) (fst t), snd t @ map (\<lambda>r. (r, now)) (filter p (fst t)))"

definition from_archive :: "('a \<Rightarrow> bool) \<Rightarrow> 'a archived \<Rightarrow> 'a archived" where
  "from_archive p t = (fst t @ map fst (filter (\<lambda>(r, _). p r) (snd t)), filter (\<lambda>(r, _). \<not> p r) (snd t))"

definition off_archive :: "('a \<Rightarrow> bool) \<Rightarrow> 'a archived \<Rightarrow> 'a archived" where
  "off_archive p t = (fst t, filter (\<lambda>(r, _). \<not> p r) (snd t))"

definition archive_group_ids :: "datetime \<Rightarrow> uuid list \<Rightarrow> Tables \<Rightarrow> nat \<times> Tables" where
  "archive_group_ids now group_ids t =
     (length (filter (\<lambda>g. gw_id g \<in> set group_ids) (fst (tb_groups t))),
      \<lparr> tb_groups = to_archive now (\<lambda>g. gw_id g \<in> set group_ids) (tb_groups t),
        tb_jobs = to_archive now (\<lambda>r. jw_job_group_id r \<in> set group_ids) (tb_jobs t),
        tb_reservations = to_archive now (\<lambda>r. vw_job_group_id r \<in> set group_ids) (tb_reservations t),
        tb_artifacts = to_archive now (\<lambda>r. aw_job_group_id r \<in> set group_ids) (tb_artifacts t),
        tb_tests = to_archive now (\<lambda>r. tw_job_group_id r \<in> set group_ids) (tb_tests t),
        tb_gates = to_archive now (\<lambda>r. ag_job_group_id r \<in> set group_ids) (tb_gates t) \<rparr>)"

text \<open>The inserts of the way back fail when a primary key of a live table would occur twice.\<close>

definition keys_ok :: "Tables \<Rightarrow> bool" where
  "keys_ok t \<longleftrightarrow> distinct (map gw_id (fst (tb_groups t))) \<and> distinct (map jw_id (fst (tb_jobs t)))
     \<and> distinct (map vw_id (fst (tb_reservations t))) \<and> distinct (map aw_id (fst (tb_artifacts t)))
     \<and> distinct (map tw_id (fst (tb_tests t))) \<and> distinct (map ag_id (fst (tb_gates t)))"

definition unarchive_group_ids :: "uuid list \<Rightarrow> Tables \<Rightarrow> (nat \<times> Tables) query" where
  "unarchive_group_ids group_ids t =
     (let t' = \<lparr> tb_groups = from_archive (\<lambda>g. gw_id g \<in> set group_ids) (tb_groups t),
                 tb_jobs = from_archive (\<lambda>r. jw_job_group_id r \<in> set group_ids) (tb_jobs t),
                 tb_reservations = from_archive (\<lambda>r. vw_job_group_id r \<in> set group_ids) (tb_reservations t),
                 tb_artifacts = from_archive (\<lambda>r. aw_job_group_id r \<in> set group_ids) (tb_artifacts t),
                 tb_tests = from_archive (\<lambda>r. tw_job_group_id r \<in> set group_ids) (tb_tests t),
                 tb_gates = from_archive (\<lambda>r. ag_job_group_id r \<in> set group_ids) (tb_gates t) \<rparr>
      in if keys_ok t' then Inr (length (filter (\<lambda>(g, _). gw_id g \<in> set group_ids) (snd (tb_groups t))), t')
         else Inl ''duplicate key value violates unique constraint'')"

definition archive_groups_batch :: "faults \<Rightarrow> string \<Rightarrow> datetime \<Rightarrow> uuid list \<Rightarrow> Tables \<Rightarrow> nat query \<times> Tables" where
  "archive_groups_batch flt call now group_ids t =
     (if group_ids = [] then (Inr 0, t)
      else case flt call of
        Some e \<Rightarrow> (Inl e, t)
      | None \<Rightarrow> (case archive_group_ids now group_ids t of (n, t') \<Rightarrow> (Inr n, t')))"

definition unarchive_groups_batch :: "faults \<Rightarrow> uuid list \<Rightarrow> Tables \<Rightarrow> nat query \<times> Tables" where
  "unarchive_groups_batch flt group_ids t =
     (if group_ids = [] then (Inr 0, t)
      else case flt ''unarchive_groups_batch'' of
        Some e \<Rightarrow> (Inl e, t)
      | None \<Rightarrow> (case unarchive_group_ids group_ids t of Inl e \<Rightarrow> (Inl e, t) | Inr (n, t') \<Rightarrow> (Inr n, t')))"

definition delete_archive_batch :: "faults \<Rightarrow> uuid list \<Rightarrow> Tables \<Rightarrow> nat query \<times> Tables" where
  "delete_archive_batch flt group_ids t =
     (if group_ids = [] then (Inr 0, t)
      else case flt ''delete_archive_batch'' of
        Some e \<Rightarrow> (Inl e, t)
      | None \<Rightarrow>
          (Inr (length (filter (\<lambda>(g, _). gw_id g \<in> set group_ids) (snd (tb_groups t)))),
           \<lparr> tb_groups = off_archive (\<lambda>g. gw_id g \<in> set group_ids) (tb_groups t),
             tb_jobs = off_archive (\<lambda>r. jw_job_group_id r \<in> set group_ids) (tb_jobs t),
             tb_reservations = off_archive (\<lambda>r. vw_job_group_id r \<in> set group_ids) (tb_reservations t),
             tb_artifacts = off_archive (\<lambda>r. aw_job_group_id r \<in> set group_ids) (tb_artifacts t),
             tb_tests = off_archive (\<lambda>r. tw_job_group_id r \<in> set group_ids) (tb_tests t),
             tb_gates = off_archive (\<lambda>r. ag_job_group_id r \<in> set group_ids) (tb_gates t) \<rparr>))"

definition stamp_row :: "uuid list \<Rightarrow> datetime \<Rightarrow> datetime \<Rightarrow> GroupRow \<Rightarrow> GroupRow" where
  "stamp_row group_ids purged_at now g =
     (if gw_id g \<in> set group_ids \<and> gw_files_purged_at g = None
      then g\<lparr> gw_files_purged_at := Some purged_at, gw_updated_at := now \<rparr> else g)"

definition mark_files_purged :: "faults \<Rightarrow> datetime \<Rightarrow> uuid list \<Rightarrow> datetime \<Rightarrow> Tables \<Rightarrow> nat query \<times> Tables" where
  "mark_files_purged flt now group_ids purged_at t =
     (if group_ids = [] then (Inr 0, t)
      else case flt ''mark_files_purged'' of
        Some e \<Rightarrow> (Inl e, t)
      | None \<Rightarrow>
          (Inr (length (filter (\<lambda>g. gw_id g \<in> set group_ids \<and> gw_files_purged_at g = None) (fst (tb_groups t)))),
           t\<lparr> tb_groups := (map (stamp_row group_ids purged_at now) (fst (tb_groups t)), snd (tb_groups t)) \<rparr>))"

definition days :: "int \<Rightarrow> int" where
  "days n = n * 86400 * nanos_per_sec"

definition TERMINAL_STATES :: "string list" where
  "TERMINAL_STATES = [''success'', ''failed'', ''cancelled'', ''expired'']"

definition completed_before :: "datetime \<Rightarrow> GroupRow \<Rightarrow> bool" where
  "completed_before cutoff g \<longleftrightarrow> (case gw_completed_at g of Some c \<Rightarrow> c < cutoff | None \<Rightarrow> False)"

definition completed_key :: "GroupRow \<Rightarrow> datetime" where
  "completed_key g = unwrap_or 0 (gw_completed_at g)"

definition find_groups_for_t1 :: "datetime \<Rightarrow> int \<Rightarrow> nat \<Rightarrow> Tables \<Rightarrow> uuid list" where
  "find_groups_for_t1 now t1_days n t =
     map gw_id (take n (sort_key completed_key (filter (\<lambda>g. gw_state g \<in> set TERMINAL_STATES
       \<and> completed_before (now - days t1_days) g \<and> gw_files_purged_at g = None) (fst (tb_groups t)))))"

definition find_groups_for_t2 :: "datetime \<Rightarrow> int \<Rightarrow> nat \<Rightarrow> Tables \<Rightarrow> uuid list" where
  "find_groups_for_t2 now t2_days n t =
     map gw_id (take n (sort_key completed_key (filter (\<lambda>g. gw_state g \<in> set TERMINAL_STATES
       \<and> completed_before (now - days t2_days) g) (fst (tb_groups t)))))"

definition find_archive_for_t3 :: "datetime \<Rightarrow> int \<Rightarrow> nat \<Rightarrow> Tables \<Rightarrow> uuid list" where
  "find_archive_for_t3 now t3_days n t =
     map (gw_id \<circ> fst) (take n (sort_key snd (filter (\<lambda>(g, archived_at). archived_at < now - days t3_days) (snd (tb_groups t)))))"

text \<open>The rows beyond rank \<open>max_per_repo\<close>, by creation time within their repository; rows without a
  repository are ranked together.\<close>

definition find_excess_groups_per_repo :: "int \<Rightarrow> Tables \<Rightarrow> uuid list" where
  "find_excess_groups_per_repo max_per_repo t =
     (let ranked = sort_key (\<lambda>g. - gw_created_at g)
                     (filter (\<lambda>g. gw_state g \<in> {''success'', ''failed'', ''cancelled''}) (fst (tb_groups t)))
      in map gw_id (take 5000 (concat (map (\<lambda>repo. drop (nat max_per_repo) (filter (\<lambda>g. gw_repo_id g = repo) ranked))
                                         (remdups (map gw_repo_id ranked))))))"

definition workers_for_group :: "uuid \<Rightarrow> Tables \<Rightarrow> string list" where
  "workers_for_group group_id t =
     (let ids = (\<lambda>rows. List.map_filter jw_worker_id (filter (\<lambda>r. jw_job_group_id r = group_id) rows))
      in filter (\<lambda>w. w \<noteq> []) (remdups (ids (fst (tb_jobs t)) @ ids (map fst (snd (tb_jobs t))))))"

section \<open>The sweep\<close>

text \<open>What the sweep reads of the controller: workers, heartbeat timeout, and the log directory.\<close>

record SweepEnv =
  se_workers :: WorkerRegistry
  se_heartbeat_timeout_secs :: u32
  se_log_dir :: "string option"
  se_storage :: bool

definition is_live :: "SweepEnv \<Rightarrow> datetime \<Rightarrow> string \<Rightarrow> bool" where
  "is_live env now wid \<longleftrightarrow>
     (case Option.bind (se_workers env wid) ws_last_heartbeat of
        Some hb \<Rightarrow> num_seconds (now - hb_timestamp hb) < uint (se_heartbeat_timeout_secs env)
      | None \<Rightarrow> False)"

definition filter_live_workers :: "SweepEnv \<Rightarrow> datetime \<Rightarrow> string list \<Rightarrow> string list" where
  "filter_live_workers env now owners = filter (is_live env now) owners"

text \<open>The loop over the candidates: those without a live owner are stamped at once, the others get a
  directive per live owner; a failed enqueue is only logged.  A failure to read the owners counts as
  no owners.\<close>

definition owners_of :: "faults \<Rightarrow> uuid \<Rightarrow> Tables \<Rightarrow> string list" where
  "owners_of flt gid t = (case flt (''workers_for_group:'' @ gid) of Some _ \<Rightarrow> [] | None \<Rightarrow> workers_for_group gid t)"

fun t1_fanout ::
  "SweepEnv \<Rightarrow> 'r Redis \<Rightarrow> string \<Rightarrow> faults \<Rightarrow> datetime \<Rightarrow> Tables \<Rightarrow> uuid list \<Rightarrow> 'r \<Rightarrow> uuid list \<times> 'r" where
  "t1_fanout env R pre flt now t [] r = ([], r)"
| "t1_fanout env R pre flt now t (gid # gids) r =
     (let live = filter_live_workers env now (owners_of flt gid t)
      in if live = [] then (case t1_fanout env R pre flt now t gids r of (stamp, r') \<Rightarrow> (gid # stamp, r'))
         else t1_fanout env R pre flt now t gids (fold (\<lambda>wid r. snd (enqueue_purge R pre now wid gid r)) live r))"

text \<open>\<open>redis\<close> is the Redis store, if the controller has one, with its key prefix.  The second component of the
  result lists the directories that were removed.\<close>

definition run_t1 ::
  "SweepEnv \<Rightarrow> ('r Redis \<times> string) option \<Rightarrow> faults \<Rightarrow> datetime \<Rightarrow> int \<Rightarrow> bool \<Rightarrow> Tables \<times> 'r
     \<Rightarrow> nat query \<times> string list \<times> Tables \<times> 'r" where
  "run_t1 env redis flt now t1_days enable_worker_fanout s =
     (case s of (t, r) \<Rightarrow>
      case attempt flt ''find_groups_for_t1'' (find_groups_for_t1 now t1_days 100 t) of
        Inl e \<Rightarrow> (Inl e, [], t, r)
      | Inr candidates \<Rightarrow>
          if candidates = [] then (Inr 0, [], t, r)
          else
            (let removed = (case se_log_dir env of Some dir \<Rightarrow> map (\<lambda>gid. dir @ ''/'' @ gid) candidates | None \<Rightarrow> [])
             in case (if enable_worker_fanout then redis else None) of
                  None \<Rightarrow> (case mark_files_purged flt now candidates now t of (n, t') \<Rightarrow> (n, removed, t', r))
                | Some (R, pre) \<Rightarrow>
                    (case t1_fanout env R pre flt now t candidates r of
                       (stamp, r') \<Rightarrow> (case mark_files_purged flt now stamp now t of (n, t') \<Rightarrow> (n, removed, t', r')))))"

definition chunk_call :: "nat \<Rightarrow> string" where
  "chunk_call i = ''archive_groups_batch:'' @ nat_to_dec i"

fun archive_chunks :: "faults \<Rightarrow> datetime \<Rightarrow> nat \<Rightarrow> uuid list list \<Rightarrow> Tables \<Rightarrow> nat query \<times> Tables" where
  "archive_chunks flt now i [] t = (Inr 0, t)"
| "archive_chunks flt now i (batch # batches) t =
     (case archive_groups_batch flt (chunk_call i) now batch t of
        (Inl e, t) \<Rightarrow> (Inl e, t)
      | (Inr n, t) \<Rightarrow> (case archive_chunks flt now (Suc i) batches t of (m, t) \<Rightarrow> (map_sum id ((+) n) m, t)))"

text \<open>\<open>slice::chunks\<close>.\<close>

function chunks :: "nat \<Rightarrow> 'a list \<Rightarrow> 'a list list" where
  "chunks n xs = (if xs = [] \<or> n = 0 then [] else take n xs # chunks n (drop n xs))"
  by pat_completeness auto
termination by (relation "measure (length \<circ> snd)") auto

declare chunks.simps [simp del]

definition run_t2 :: "faults \<Rightarrow> datetime \<Rightarrow> int \<Rightarrow> int \<Rightarrow> Tables \<Rightarrow> nat query \<times> Tables" where
  "run_t2 flt now t2_days max_per_repo t =
     (case attempt flt ''find_groups_for_t2'' (find_groups_for_t2 now t2_days 100 t) of
        Inl e \<Rightarrow> (Inl e, t)
      | Inr candidates \<Rightarrow>
          (case archive_groups_batch flt ''archive_groups_batch'' now candidates t of
             (Inl e, t) \<Rightarrow> (Inl e, t)
           | (Inr n, t) \<Rightarrow>
               if max_per_repo > 0
               then (case attempt flt ''find_excess_groups_per_repo'' (find_excess_groups_per_repo max_per_repo t) of
                       Inl e \<Rightarrow> (Inl e, t)
                     | Inr excess \<Rightarrow>
                         (case archive_chunks flt now 0 (chunks 100 excess) t of (m, t) \<Rightarrow> (map_sum id ((+) n) m, t)))
               else (Inr n, t)))"

definition run_t3 :: "faults \<Rightarrow> datetime \<Rightarrow> int \<Rightarrow> Tables \<Rightarrow> nat query \<times> Tables" where
  "run_t3 flt now t3_days t =
     (case attempt flt ''find_archive_for_t3'' (find_archive_for_t3 now t3_days 100 t) of
        Inl e \<Rightarrow> (Inl e, t)
      | Inr candidates \<Rightarrow> delete_archive_batch flt candidates t)"

record RunOnceOpts =
  op_run_t1 :: bool
  op_run_t2 :: bool
  op_run_t3 :: bool

definition opts_all :: RunOnceOpts where
  "opts_all = \<lparr> op_run_t1 = True, op_run_t2 = True, op_run_t3 = True \<rparr>"

text \<open>\<open>st\<close> is the settings table.  A tier that fails ends the sweep; what the tiers before it did stays.\<close>

definition run_once ::
  "SweepEnv \<Rightarrow> ('r Redis \<times> string) option \<Rightarrow> faults \<Rightarrow> settings \<Rightarrow> datetime \<Rightarrow> RetentionConfig \<Rightarrow> RunOnceOpts \<Rightarrow> Tables \<times> 'r
     \<Rightarrow> (nat \<times> nat \<times> nat) query \<times> Tables \<times> 'r" where
  "run_once env redis flt st now fallback opts s =
     (if \<not> se_storage env then (Inl ''No storage'', s)
      else
        let run_all = \<not> op_run_t1 opts \<and> \<not> op_run_t2 opts \<and> \<not> op_run_t3 opts;
            t1 = tier (Some st) flt T1_KEY (rc_t1_purge_files_after_days fallback);
            t2 = tier (Some st) flt T2_KEY (rc_t2_archive_after_days fallback);
            t3 = tier (Some st) flt T3_KEY (rc_t3_delete_archive_after_days fallback);
            max_per_repo = tier (Some st) flt ''retention.max_builds_per_repo'' (rc_max_builds_per_repo fallback);
            fanout = resolve_setting_bool (Some st) flt ''retention.enable_worker_fanout'' (rc_enable_worker_fanout fallback)
        in case (if op_run_t1 opts \<or> run_all then run_t1 env redis flt now t1 fanout s else (Inr 0, [], s)) of
             (Inl e, _, s) \<Rightarrow> (Inl e, s)
           | (Inr n1, _, t, r) \<Rightarrow>
               (case (if op_run_t2 opts \<or> run_all then run_t2 flt now t2 max_per_repo t else (Inr 0, t)) of
                  (Inl e, t) \<Rightarrow> (Inl e, t, r)
                | (Inr n2, t) \<Rightarrow>
                    (case (if op_run_t3 opts \<or> run_all then run_t3 flt now t3 t else (Inr 0, t)) of
                       (Inl e, t) \<Rightarrow> (Inl e, t, r)
                     | (Inr n3, t) \<Rightarrow> (Inr (n1, n2, n3), t, r))))"

text \<open>The tick of the loop checks the tiers and then reads them again; \<open>flt\<close> and \<open>flt'\<close> are the faults of the two
  passes.  A failure is logged.\<close>

definition tick_once ::
  "SweepEnv \<Rightarrow> ('r Redis \<times> string) option \<Rightarrow> faults \<Rightarrow> faults \<Rightarrow> settings option \<Rightarrow> datetime \<Rightarrow> RetentionConfig \<Rightarrow> Tables \<times> 'r
     \<Rightarrow> (nat \<times> nat \<times> nat) option query \<times> Tables \<times> 'r" where
  "tick_once env redis flt flt' st now fallback s =
     (let t1 = tier st flt T1_KEY (rc_t1_purge_files_after_days fallback);
          t2 = tier st flt T2_KEY (rc_t2_archive_after_days fallback);
          t3 = tier st flt T3_KEY (rc_t3_delete_archive_after_days fallback)
      in if t1 \<le> 0 \<or> t2 \<le> 0 \<or> t3 \<le> 0 then (Inr None, s)
         else if t1 \<ge> t2 \<or> t2 \<ge> t3 then (Inr None, s)
         else case run_once env redis flt' (unwrap_or Map.empty st) now fallback opts_all s of
                (res, s) \<Rightarrow> (map_sum id Some res, s))"

text \<open>The forced sweep: the defaults of the program, not of the configuration file, and no check of the tiers.\<close>

definition force_retention_tick ::
  "SweepEnv \<Rightarrow> ('r Redis \<times> string) option \<Rightarrow> faults \<Rightarrow> settings \<Rightarrow> datetime \<Rightarrow> RunOnceOpts \<Rightarrow> Tables \<times> 'r
     \<Rightarrow> (Status + (nat \<times> nat \<times> nat) \<times> string) \<times> Tables \<times> 'r" where
  "force_retention_tick env redis flt st now opts s =
     (if \<not> se_storage env then (Inl (Status Unavailable ''Storage not configured''), s)
      else case run_once env redis flt st now RetentionConfig_default opts s of
        (Inl e, s) \<Rightarrow> (Inl (Status Internal (''Retention sweep failed: '' @ e)), s)
      | (Inr (n1, n2, n3), s) \<Rightarrow>
          (Inr ((n1, n2, n3), ''T1 purged='' @ nat_to_dec n1 @ '' T2 archived='' @ nat_to_dec n2 @ '' T3 deleted='' @ nat_to_dec n3), s))"

section \<open>Acknowledged purges\<close>

text \<open>\<open>all_workers_acked\<close>: no live owner still has the purge queued; what cannot be read counts as not acknowledged.\<close>

definition all_workers_acked :: "SweepEnv \<Rightarrow> 'r Redis \<Rightarrow> string \<Rightarrow> faults \<Rightarrow> datetime \<Rightarrow> uuid \<Rightarrow> Tables \<times> 'r \<Rightarrow> bool" where
  "all_workers_acked env R pre flt now group_id s =
     (if \<not> se_storage env then True
      else case flt (''workers_for_group:'' @ group_id) of
        Some _ \<Rightarrow> False
      | None \<Rightarrow>
          list_all (\<lambda>wid. is_live env now wid \<longrightarrow> is_purge_pending R pre wid group_id (snd s) = Inr False)
            (workers_for_group group_id (fst s)))"

definition stamp_files_purged_if_pending :: "SweepEnv \<Rightarrow> faults \<Rightarrow> datetime \<Rightarrow> uuid \<Rightarrow> Tables \<Rightarrow> Tables" where
  "stamp_files_purged_if_pending env flt now group_id t =
     (if se_storage env then snd (mark_files_purged flt now [group_id] now t) else t)"

definition handle_purge_ack ::
  "SweepEnv \<Rightarrow> ('r Redis \<times> string) option \<Rightarrow> (string \<Rightarrow> uuid option) \<Rightarrow> faults \<Rightarrow> datetime \<Rightarrow> JobStatusUpdate \<Rightarrow> Tables \<times> 'r
     \<Rightarrow> (bool \<times> string) \<times> Tables \<times> 'r" where
  "handle_purge_ack env redis parse_uuid flt now req s =
     (case s of (t, r) \<Rightarrow>
      case parse_uuid (su_job_group_id req) of
        None \<Rightarrow> ((False, ''invalid group_id''), t, r)
      | Some group_id \<Rightarrow>
          if su_state req = 5 then ((True, ''purge ack (failed; queued for retry)''), t, r)
          else case redis of
            None \<Rightarrow> ((True, ''purge ack (no redis)''), stamp_files_purged_if_pending env flt now group_id t, r)
          | Some (R, pre) \<Rightarrow>
              (let r = snd (ack_purge R pre (su_worker_id req) (su_job_group_id req) r)
               in ((True, ''purge ack''),
                   if all_workers_acked env R pre flt now group_id (t, r) then stamp_files_purged_if_pending env flt now group_id t else t, r)))"

text \<open>When a job stream opens, the queued purges of the worker are sent; \<open>sends\<close> is how many sends succeed
  before the channel closes.\<close>

definition drain_pending_purges ::
  "('r Redis \<times> string) option \<Rightarrow> (string \<Rightarrow> uuid option) \<Rightarrow> nat \<Rightarrow> string \<Rightarrow> 'r \<Rightarrow> JobAssignment list" where
  "drain_pending_purges redis parse_uuid sends worker_id r =
     (case redis of
        None \<Rightarrow> []
      | Some (R, pre) \<Rightarrow>
          (case dequeue_purges R pre worker_id r of
             Inl _ \<Rightarrow> []
           | Inr queued \<Rightarrow> map build_purge_assignment (take sends (filter (\<lambda>g. parse_uuid g \<noteq> None) queued))))"

section \<open>Where a build is\<close>

definition keyed :: "('a \<Rightarrow> uuid) \<Rightarrow> 'a list \<Rightarrow> uuid \<rightharpoonup> 'a" where
  "keyed k xs = map_of (map (\<lambda>x. (k x, x)) xs)"

lemma keyed_simps [simp]:
  "keyed k [] i = None" "keyed k (x # xs) i = (if k x = i then Some x else keyed k xs i)"
  by (simp_all add: keyed_def)

lemma keyed_append [simp]: "keyed k (xs @ ys) i = (case keyed k xs i of Some x \<Rightarrow> Some x | None \<Rightarrow> keyed k ys i)"
  by (induction xs) auto

lemma keyed_filter:
  assumes "\<And>x. P x = Q (k x)"
  shows "keyed k (filter P xs) i = (if Q i then keyed k xs i else None)"
  by (induction xs) (auto simp: assms)

lemma keyed_map: "(\<And>x. k (f x) = k x) \<Longrightarrow> keyed k (map f xs) i = map_option f (keyed k xs i)"
  by (induction xs) auto

lemma keyed_SomeD: "keyed k xs i = Some x \<Longrightarrow> x \<in> set xs \<and> k x = i"
  by (induction xs) (auto split: if_splits)

lemma keyed_None: "keyed k xs i = None \<longleftrightarrow> i \<notin> k ` set xs"
  by (induction xs) auto

lemma keyed_unique: "distinct (map k xs) \<Longrightarrow> x \<in> set xs \<Longrightarrow> keyed k xs (k x) = Some x"
  by (induction xs) auto

abbreviation arch_id :: "GroupRow \<times> datetime \<Rightarrow> uuid" where
  "arch_id \<equiv> gw_id \<circ> fst"

datatype place = Live GroupRow | Archived GroupRow datetime | Gone

definition place :: "Tables \<Rightarrow> uuid \<Rightarrow> place" where
  "place t i = (case keyed gw_id (fst (tb_groups t)) i of
     Some g \<Rightarrow> Live g
   | None \<Rightarrow> (case keyed arch_id (snd (tb_groups t)) i of Some (g, a) \<Rightarrow> Archived g a | None \<Rightarrow> Gone))"

section \<open>Rows stay together\<close>

text \<open>Group ids are unique on each side and on one side only; the rows of a group are on the side where the group is.\<close>

definition live_ids :: "Tables \<Rightarrow> uuid set" where
  "live_ids t = gw_id ` set (fst (tb_groups t))"

definition arch_ids :: "Tables \<Rightarrow> uuid set" where
  "arch_ids t = arch_id ` set (snd (tb_groups t))"

definition home :: "('a \<Rightarrow> uuid) \<Rightarrow> Tables \<Rightarrow> 'a archived \<Rightarrow> bool" where
  "home k t c \<longleftrightarrow> k ` set (fst c) \<subseteq> live_ids t \<and> (k \<circ> fst) ` set (snd c) \<subseteq> arch_ids t"

definition tables_wf :: "Tables \<Rightarrow> bool" where
  "tables_wf t \<longleftrightarrow>
     distinct (map gw_id (fst (tb_groups t))) \<and> distinct (map arch_id (snd (tb_groups t))) \<and> live_ids t \<inter> arch_ids t = {}
     \<and> home jw_job_group_id t (tb_jobs t) \<and> home vw_job_group_id t (tb_reservations t)
     \<and> home aw_job_group_id t (tb_artifacts t) \<and> home tw_job_group_id t (tb_tests t) \<and> home ag_job_group_id t (tb_gates t)"

lemma image_where:
  "k ` {x \<in> S. k x \<notin> I} = k ` S - I" "k ` {x \<in> S. k x \<in> I} = k ` S \<inter> I"
  by auto

lemma archive_shape:
  assumes "archive_group_ids now ids t = (n, t')"
  shows "tb_groups t' = to_archive now (\<lambda>g. gw_id g \<in> set ids) (tb_groups t)"
    "tb_jobs t' = to_archive now (\<lambda>r. jw_job_group_id r \<in> set ids) (tb_jobs t)"
    "tb_reservations t' = to_archive now (\<lambda>r. vw_job_group_id r \<in> set ids) (tb_reservations t)"
    "tb_artifacts t' = to_archive now (\<lambda>r. aw_job_group_id r \<in> set ids) (tb_artifacts t)"
    "tb_tests t' = to_archive now (\<lambda>r. tw_job_group_id r \<in> set ids) (tb_tests t)"
    "tb_gates t' = to_archive now (\<lambda>r. ag_job_group_id r \<in> set ids) (tb_gates t)"
  using assms by (auto simp: archive_group_ids_def)

lemma archive_ids:
  assumes "archive_group_ids now ids t = (n, t')"
  shows "live_ids t' = live_ids t - set ids" "arch_ids t' = arch_ids t \<union> (live_ids t \<inter> set ids)"
proof -
  note g = archive_shape(1) [OF assms]
  show "live_ids t' = live_ids t - set ids" by (simp add: live_ids_def g to_archive_def image_where)
  show "arch_ids t' = arch_ids t \<union> (live_ids t \<inter> set ids)"
    by (simp add: arch_ids_def live_ids_def g to_archive_def image_Un image_image image_where)
qed

lemma home_to_archive:
  assumes "home k t c" "live_ids t' = live_ids t - I" "arch_ids t' = arch_ids t \<union> (live_ids t \<inter> I)"
  shows "home k t' (to_archive now (\<lambda>r. k r \<in> I) c)"
proof -
  have "(k \<circ> fst) ` set (snd (to_archive now (\<lambda>r. k r \<in> I) c)) = (k \<circ> fst) ` set (snd c) \<union> (k ` set (fst c) \<inter> I)"
    by (simp add: to_archive_def image_Un image_image image_where)
  moreover have "k ` set (fst (to_archive now (\<lambda>r. k r \<in> I) c)) = k ` set (fst c) - I" by (simp add: to_archive_def image_where)
  ultimately show ?thesis using assms by (simp add: home_def) blast
qed

lemma archive_wf:
  assumes "archive_group_ids now ids t = (n, t')" "tables_wf t"
  shows "tables_wf t'"
proof -
  note ids = archive_ids [OF assms(1)]
  note g = archive_shape(1) [OF assms(1)]
  have old: "distinct (map gw_id (fst (tb_groups t)))" "distinct (map arch_id (snd (tb_groups t)))" "live_ids t \<inter> arch_ids t = {}"
    using assms(2) by (simp_all add: tables_wf_def)
  have "arch_ids t \<inter> (live_ids t \<inter> set ids) = {}" using old(3) by blast
  then have "distinct (map arch_id (snd (tb_groups t')))"
    using old(1,2)
    by (simp add: g to_archive_def comp_def distinct_map_filter arch_ids_def live_ids_def image_where)
  moreover have "distinct (map gw_id (fst (tb_groups t')))" using old(1) by (simp add: g to_archive_def distinct_map_filter)
  moreover have "live_ids t' \<inter> arch_ids t' = {}" using old(3) ids by blast
  moreover have "home jw_job_group_id t' (tb_jobs t')" "home vw_job_group_id t' (tb_reservations t')"
    "home aw_job_group_id t' (tb_artifacts t')" "home tw_job_group_id t' (tb_tests t')" "home ag_job_group_id t' (tb_gates t')"
    using assms(2) by (simp_all add: tables_wf_def archive_shape(2-) [OF assms(1)] home_to_archive [OF _ ids])
  ultimately show ?thesis by (simp add: tables_wf_def)
qed

lemma archive_batch_wf: "archive_groups_batch flt c now ids t = (res, t') \<Longrightarrow> tables_wf t \<Longrightarrow> tables_wf t'"
  by (auto simp: archive_groups_batch_def split: if_splits option.splits prod.splits dest: archive_wf)

lemma stamp_row_id [simp]: "gw_id (stamp_row ids pt now g) = gw_id g"
  by (simp add: stamp_row_def)

lemma mark_cases:
  assumes "mark_files_purged flt now ids pt t = (res, t')"
  obtains "t' = t" | "t' = t\<lparr> tb_groups := (map (stamp_row ids pt now) (fst (tb_groups t)), snd (tb_groups t)) \<rparr>"
  using assms by (auto simp: mark_files_purged_def split: if_splits option.splits)

lemma mark_wf:
  assumes "mark_files_purged flt now ids pt t = (res, t')" "tables_wf t"
  shows "tables_wf t'"
  using assms(1)
proof (cases rule: mark_cases)
  case 2
  then have "live_ids t' = live_ids t" "arch_ids t' = arch_ids t" by (simp_all add: live_ids_def arch_ids_def image_image)
  then show ?thesis using assms(2) by (simp add: tables_wf_def home_def 2 comp_def)
qed (use assms(2) in simp)

lemma home_off_archive:
  assumes "home k t c" "live_ids t' = live_ids t" "arch_ids t' = arch_ids t - I"
  shows "home k t' (off_archive (\<lambda>r. k r \<in> I) c)"
proof -
  have "(k \<circ> fst) ` set (snd (off_archive (\<lambda>r. k r \<in> I) c)) = (k \<circ> fst) ` set (snd c) - I"
    by (simp add: off_archive_def case_prod_beta image_where [where k = "k \<circ> fst", simplified])
  then show ?thesis using assms by (auto simp: home_def off_archive_def)
qed

lemma delete_cases:
  assumes "delete_archive_batch flt ids t = (res, t')"
  obtains "t' = t"
  | "tb_groups t' = off_archive (\<lambda>g. gw_id g \<in> set ids) (tb_groups t)"
    "tb_jobs t' = off_archive (\<lambda>r. jw_job_group_id r \<in> set ids) (tb_jobs t)"
    "tb_reservations t' = off_archive (\<lambda>r. vw_job_group_id r \<in> set ids) (tb_reservations t)"
    "tb_artifacts t' = off_archive (\<lambda>r. aw_job_group_id r \<in> set ids) (tb_artifacts t)"
    "tb_tests t' = off_archive (\<lambda>r. tw_job_group_id r \<in> set ids) (tb_tests t)"
    "tb_gates t' = off_archive (\<lambda>r. ag_job_group_id r \<in> set ids) (tb_gates t)"
  using assms by (auto simp: delete_archive_batch_def split: if_splits option.splits)

lemma delete_wf:
  assumes "delete_archive_batch flt ids t = (res, t')" "tables_wf t"
  shows "tables_wf t'"
  using assms(1)
proof (cases rule: delete_cases)
  case 2
  have live: "live_ids t' = live_ids t" by (simp add: live_ids_def 2(1) off_archive_def)
  have arch: "arch_ids t' = arch_ids t - set ids"
    by (simp add: arch_ids_def 2(1) off_archive_def case_prod_beta image_where [where k = arch_id, simplified])
  have "distinct (map gw_id (fst (tb_groups t')))" "distinct (map arch_id (snd (tb_groups t')))" "live_ids t' \<inter> arch_ids t' = {}"
    using assms(2) live arch by (auto simp: tables_wf_def 2(1) off_archive_def distinct_map_filter)
  then show ?thesis
    using assms(2) by (simp add: tables_wf_def 2 home_off_archive [OF _ live arch])
qed (use assms(2) in simp)

lemma archive_chunks_wf: "archive_chunks flt now i bs t = (res, t') \<Longrightarrow> tables_wf t \<Longrightarrow> tables_wf t'"
  by (induction flt now i bs t arbitrary: res t' rule: archive_chunks.induct)
    (auto split: prod.splits sum.splits dest: archive_batch_wf)

lemma t1_fanout_subset: "t1_fanout env R pre flt now t gids r = (stamp, r') \<Longrightarrow> set stamp \<subseteq> set gids"
  by (induction gids arbitrary: r stamp) (fastforce simp: Let_def split: prod.splits if_splits)+

lemma run_t1_tables:
  assumes "run_t1 env redis flt now d fanout (t, r) = (res, removed, t', r')"
  obtains "t' = t" | ids n where "mark_files_purged flt now ids now t = (n, t')" "set ids \<subseteq> set (find_groups_for_t1 now d 100 t)"
  using assms
  by (auto simp: run_t1_def attempt_def Let_def split: prod.splits option.splits if_splits dest: t1_fanout_subset)

lemma run_t1_wf: "run_t1 env redis flt now d fanout (t, r) = (res, removed, t', r') \<Longrightarrow> tables_wf t \<Longrightarrow> tables_wf t'"
  by (erule run_t1_tables) (auto dest: mark_wf)

lemma run_t2_wf: "run_t2 flt now d mx t = (res, t') \<Longrightarrow> tables_wf t \<Longrightarrow> tables_wf t'"
  by (auto simp: run_t2_def split: prod.splits sum.splits if_splits dest: archive_batch_wf archive_chunks_wf)

lemma run_t3_wf: "run_t3 flt now d t = (res, t') \<Longrightarrow> tables_wf t \<Longrightarrow> tables_wf t'"
  by (auto simp: run_t3_def split: sum.splits dest: delete_wf)

text \<open>A sweep is at most one run of each tier.\<close>

lemma run_once_tiers:
  assumes "run_once env redis flt st now rc opts (t, r) = (res, t', r')"
  obtains removed n1 t1 r1 n2 t2 n3 where
      "t1 = t \<or> run_t1 env redis flt now (tier (Some st) flt T1_KEY (rc_t1_purge_files_after_days rc))
         (resolve_setting_bool (Some st) flt ''retention.enable_worker_fanout'' (rc_enable_worker_fanout rc)) (t, r) = (n1, removed, t1, r1)"
      "t2 = t1 \<or> run_t2 flt now (tier (Some st) flt T2_KEY (rc_t2_archive_after_days rc))
         (tier (Some st) flt ''retention.max_builds_per_repo'' (rc_max_builds_per_repo rc)) t1 = (n2, t2)"
      "t' = t2 \<or> run_t3 flt now (tier (Some st) flt T3_KEY (rc_t3_delete_archive_after_days rc)) t2 = (n3, t')"
proof -
  let ?all = "\<not> op_run_t1 opts \<and> \<not> op_run_t2 opts \<and> \<not> op_run_t3 opts"
  let ?T1 = "run_t1 env redis flt now (tier (Some st) flt T1_KEY (rc_t1_purge_files_after_days rc))
     (resolve_setting_bool (Some st) flt ''retention.enable_worker_fanout'' (rc_enable_worker_fanout rc)) (t, r)"
  let ?T2 = "\<lambda>t1. run_t2 flt now (tier (Some st) flt T2_KEY (rc_t2_archive_after_days rc))
     (tier (Some st) flt ''retention.max_builds_per_repo'' (rc_max_builds_per_repo rc)) t1"
  let ?T3 = "\<lambda>t2. run_t3 flt now (tier (Some st) flt T3_KEY (rc_t3_delete_archive_after_days rc)) t2"
  obtain n1 removed t1 r1 where A: "(if op_run_t1 opts \<or> ?all then ?T1 else (Inr 0, [], t, r)) = (n1, removed, t1, r1)"
    by (rule prod_cases4)
  obtain n2 t2 where B: "(if op_run_t2 opts \<or> ?all then ?T2 t1 else (Inr 0, t1)) = (n2, t2)"
    by (rule prod.exhaust)
  obtain n3 t3 where D: "(if op_run_t3 opts \<or> ?all then ?T3 t2 else (Inr 0, t2)) = (n3, t3)"
    by (rule prod.exhaust)
  have steps: "t1 = t \<or> ?T1 = (n1, removed, t1, r1)" "t2 = t1 \<or> ?T2 t1 = (n2, t2)" "t3 = t2 \<or> ?T3 t2 = (n3, t3)"
    using A B D by (auto split: if_splits)
  have "t' \<in> {t, t1, t2, t3}"
    using assms unfolding run_once_def Let_def A prod.case B D by (cases n1; cases n2; cases n3) (auto simp: B D split: if_splits)
  then consider "t' = t" | "t' = t1" | "t' = t2" | "t' = t3" by blast
  then show ?thesis
    by cases (use steps that [where ?t1.0 = t and ?t2.0 = t] that [where ?t1.0 = t1 and ?t2.0 = t1] that [where ?t1.0 = t1 and ?t2.0 = t2] in blast)+
qed

lemma run_once_wf: "run_once env redis flt st now rc opts (t, r) = (res, t', r') \<Longrightarrow> tables_wf t \<Longrightarrow> tables_wf t'"
  by (erule run_once_tiers) (auto dest: run_t1_wf run_t2_wf run_t3_wf)

section \<open>What a sweep does to a build\<close>

definition terminal_row :: "GroupRow \<Rightarrow> bool" where
  "terminal_row g \<longleftrightarrow> gw_state g \<in> set TERMINAL_STATES"

definition purged :: "datetime \<Rightarrow> GroupRow \<Rightarrow> GroupRow" where
  "purged now g = g\<lparr> gw_files_purged_at := Some now, gw_updated_at := now \<rparr>"

lemma keyed_paired: "keyed (k \<circ> fst) (map (\<lambda>r. (r, c)) xs) i = map_option (\<lambda>r. (r, c)) (keyed k xs i)"
  by (induction xs) auto

lemma place_live: "place t i = Live g \<longleftrightarrow> keyed gw_id (fst (tb_groups t)) i = Some g"
  by (auto simp: place_def split: option.splits)

lemma archive_place:
  assumes "archive_group_ids now ids t = (n, t')" "tables_wf t"
  shows "place t' i = (case place t i of Live g \<Rightarrow> if i \<in> set ids then Archived g now else Live g | p \<Rightarrow> p)"
proof -
  note g = archive_shape(1) [OF assms(1)]
  have live: "keyed gw_id (fst (tb_groups t')) i = (if i \<notin> set ids then keyed gw_id (fst (tb_groups t)) i else None)"
    unfolding g to_archive_def fst_conv by (rule keyed_filter) simp
  have new: "keyed gw_id (filter (\<lambda>g. gw_id g \<in> set ids) (fst (tb_groups t))) i
      = (if i \<in> set ids then keyed gw_id (fst (tb_groups t)) i else None)"
    by (rule keyed_filter) simp
  have arch: "keyed arch_id (snd (tb_groups t')) i = (case keyed arch_id (snd (tb_groups t)) i of
      Some x \<Rightarrow> Some x | None \<Rightarrow> map_option (\<lambda>r. (r, now)) (if i \<in> set ids then keyed gw_id (fst (tb_groups t)) i else None))"
    unfolding g to_archive_def snd_conv keyed_append keyed_paired new ..
  have "keyed arch_id (snd (tb_groups t)) i = None" if "keyed gw_id (fst (tb_groups t)) i \<noteq> None"
    using that assms(2) by (auto simp: keyed_None tables_wf_def live_ids_def arch_ids_def)
  then show ?thesis unfolding place_def live arch by (auto split: option.split)
qed

lemma archive_batch_place:
  assumes "archive_groups_batch flt c now ids t = (res, t')" "tables_wf t"
  shows "place t' i = place t i \<or> (\<exists>g. i \<in> set ids \<and> place t i = Live g \<and> place t' i = Archived g now)"
proof (cases "t' = t")
  case False
  then obtain n where "archive_group_ids now ids t = (n, t')"
    using assms(1) by (auto simp: archive_groups_batch_def split: if_splits option.splits prod.splits)
  from archive_place [OF this assms(2), of i] show ?thesis by (auto split: place.splits if_splits)
qed simp

lemma archive_chunks_place:
  assumes "archive_chunks flt now k bs t = (res, t')" "tables_wf t"
  shows "place t' i = place t i \<or> (\<exists>g. i \<in> set (concat bs) \<and> place t i = Live g \<and> place t' i = Archived g now)"
  using assms
proof (induction flt now k bs t arbitrary: res rule: archive_chunks.induct)
  case (2 flt now k batch batches t)
  obtain n t1 where b: "archive_groups_batch flt (chunk_call k) now batch t = (n, t1)"
    by (rule prod.exhaust)
  note one = archive_batch_place [OF b 2(3), of i] and wf = archive_batch_wf [OF b 2(3)]
  show ?case
  proof (cases n)
    case (Inl e)
    then show ?thesis using 2(2) one by (auto simp: b)
  next
    case (Inr m)
    obtain n' where "archive_chunks flt now (Suc k) batches t1 = (n', t')"
      using 2(2) by (auto simp: b Inr split: prod.splits)
    from 2(1) [OF b [symmetric] Inr this wf] one show ?thesis by auto
  qed
qed simp

lemma chunks_concat: "0 < n \<Longrightarrow> concat (chunks n xs) = xs"
proof (induction n xs rule: chunks.induct)
  case (1 n xs)
  show ?case by (subst chunks.simps) (use 1 in auto)
qed

lemma mark_place:
  assumes "mark_files_purged flt now ids now t = (res, t')"
  shows "place t' i = place t i
    \<or> (\<exists>g. i \<in> set ids \<and> place t i = Live g \<and> gw_files_purged_at g = None \<and> place t' i = Live (purged now g))"
  using assms
proof (cases rule: mark_cases)
  case 2
  have "keyed gw_id (map (stamp_row ids now now) (fst (tb_groups t))) i
      = map_option (stamp_row ids now now) (keyed gw_id (fst (tb_groups t)) i)" by (rule keyed_map) simp
  then show ?thesis
    by (auto simp: place_def 2 stamp_row_def purged_def split: option.split dest: keyed_SomeD)
qed simp

lemma delete_place:
  assumes "delete_archive_batch flt ids t = (res, t')"
  shows "place t' i = place t i \<or> (\<exists>g a. i \<in> set ids \<and> place t i = Archived g a \<and> place t' i = Gone)"
  using assms
proof (cases rule: delete_cases)
  case 2
  have "keyed arch_id (snd (tb_groups t')) i = (if i \<notin> set ids then keyed arch_id (snd (tb_groups t)) i else None)"
    unfolding 2(1) off_archive_def snd_conv by (rule keyed_filter) (simp add: case_prod_beta)
  moreover have "fst (tb_groups t') = fst (tb_groups t)" by (simp add: 2(1) off_archive_def)
  ultimately show ?thesis by (auto simp: place_def split: option.split)
qed simp

text \<open>The queries select rows by what they say of the row.\<close>

lemma selected:
  assumes "distinct (map k xs)" "keyed k xs i = Some x" "i \<in> k ` set (filter P xs)"
  shows "P x"
  using assms keyed_unique [OF assms(1)] by auto

lemma run_t1_place:
  assumes "run_t1 env redis flt now d fanout (t, r) = (res, removed, t', r')" "tables_wf t"
  shows "place t' i = place t i
    \<or> (\<exists>g. place t i = Live g \<and> terminal_row g \<and> gw_files_purged_at g = None \<and> place t' i = Live (purged now g))"
  using assms(1)
proof (cases rule: run_t1_tables)
  case (2 ids n)
  have "terminal_row g" if "i \<in> set ids" "place t i = Live g" for g
    using selected [OF _ that(2) [unfolded place_live],
        of "\<lambda>g. gw_state g \<in> set TERMINAL_STATES \<and> completed_before (now - days d) g \<and> gw_files_purged_at g = None"]
      that(1) 2(2) assms(2) by (auto simp: find_groups_for_t1_def terminal_row_def tables_wf_def dest!: in_set_takeD)
  then show ?thesis using mark_place [OF 2(1), of i] by blast
qed simp

lemma run_t2_place:
  assumes "run_t2 flt now d mx t = (res, t')" "tables_wf t"
  shows "place t' i = place t i \<or> (\<exists>g. place t i = Live g \<and> terminal_row g \<and> place t' i = Archived g now)"
proof -
  have due: "terminal_row g" if "i \<in> set (find_groups_for_t2 now d 100 t)" "place t i = Live g" for g
    using selected [OF _ that(2) [unfolded place_live],
        of "\<lambda>g. gw_state g \<in> set TERMINAL_STATES \<and> completed_before (now - days d) g"]
      that(1) assms(2) by (auto simp: find_groups_for_t2_def terminal_row_def tables_wf_def dest!: in_set_takeD)
  have surplus: "terminal_row g" if wf: "tables_wf t1" and i: "i \<in> set (find_excess_groups_per_repo mx t1)" and l: "place t1 i = Live g" for t1 g
  proof -
    have "i \<in> gw_id ` set (filter (\<lambda>g. gw_state g \<in> {''success'', ''failed'', ''cancelled''}) (fst (tb_groups t1)))"
      using i by (auto simp: find_excess_groups_per_repo_def Let_def dest!: in_set_takeD in_set_dropD)
    then have "gw_state g \<in> {''success'', ''failed'', ''cancelled''}"
      by (rule selected [OF _ l [unfolded place_live], rotated]) (use wf in \<open>simp add: tables_wf_def\<close>)
    then show ?thesis by (auto simp: terminal_row_def TERMINAL_STATES_def)
  qed
  show ?thesis
  proof (cases "flt ''find_groups_for_t2''")
    case (Some e)
    then show ?thesis using assms(1) by (auto simp: run_t2_def attempt_def)
  next
    case None
    obtain n t1 where b: "archive_groups_batch flt ''archive_groups_batch'' now (find_groups_for_t2 now d 100 t) t = (n, t1)"
      by (rule prod.exhaust)
    note one = archive_batch_place [OF b assms(2), of i] and wf = archive_batch_wf [OF b assms(2)]
    show ?thesis
    proof (cases "t' = t1")
      case True
      then show ?thesis using one due by blast
    next
      case False
      then obtain m where "archive_chunks flt now 0 (chunks 100 (find_excess_groups_per_repo mx t1)) t1 = (m, t')"
        using assms(1) None by (auto simp: run_t2_def attempt_def b split: sum.splits if_splits option.splits prod.splits)
      from archive_chunks_place [OF this wf, of i] show ?thesis using one due surplus [OF wf] by (auto simp: chunks_concat)
    qed
  qed
qed

lemma run_t3_place:
  assumes "run_t3 flt now d t = (res, t')" "tables_wf t"
  shows "place t' i = place t i \<or> (\<exists>g a. place t i = Archived g a \<and> a < now - days d \<and> place t' i = Gone)"
proof (cases "flt ''find_archive_for_t3''")
  case (Some e)
  then show ?thesis using assms(1) by (auto simp: run_t3_def attempt_def)
next
  case None
  then have del: "delete_archive_batch flt (find_archive_for_t3 now d 100 t) t = (res, t')"
    using assms(1) by (simp add: run_t3_def attempt_def)
  have "a < now - days d" if i: "i \<in> set (find_archive_for_t3 now d 100 t)" and p: "place t i = Archived g a" for g a
  proof -
    have "i \<in> arch_id ` set (filter (\<lambda>(g, archived_at). archived_at < now - days d) (snd (tb_groups t)))"
      using i by (auto simp: find_archive_for_t3_def dest!: in_set_takeD)
    moreover have "keyed arch_id (snd (tb_groups t)) i = Some (g, a)" using p by (auto simp: place_def split: option.splits)
    ultimately show ?thesis using selected [of arch_id "snd (tb_groups t)" i "(g, a)"] assms(2) by (auto simp: tables_wf_def)
  qed
  then show ?thesis using delete_place [OF del, of i] by blast
qed

text \<open>How one sweep may change where a build is; \<open>d\<close> is the third tier in days.\<close>

definition ages :: "datetime \<Rightarrow> int \<Rightarrow> place \<Rightarrow> place \<Rightarrow> bool" where
  "ages now d p p' \<longleftrightarrow>
     p' = p
     \<or> (\<exists>g g'. p = Live g \<and> terminal_row g \<and> (g' = g \<or> gw_files_purged_at g = None \<and> g' = purged now g)
          \<and> (p' = Live g' \<or> p' = Archived g' now))
     \<or> (\<exists>g a. p = Archived g a \<and> a < now - days d \<and> p' = Gone)"

lemma ages_compose:
  assumes p1: "p1 = p0 \<or> (\<exists>g. p0 = Live g \<and> terminal_row g \<and> gw_files_purged_at g = None \<and> p1 = Live (purged now g))"
    and p2: "p2 = p1 \<or> (\<exists>g. p1 = Live g \<and> terminal_row g \<and> p2 = Archived g now)"
    and p3: "p3 = p2 \<or> (\<exists>g a. p2 = Archived g a \<and> a < now - days d \<and> p3 = Gone)"
    and d: "\<not> now < now - days d"
  shows "ages now d p0 p3"
proof (cases "p3 = p2")
  case True
  then show ?thesis using p1 p2 by (elim disjE exE conjE) (simp_all add: ages_def)
next
  case False
  then obtain g a where a: "p2 = Archived g a" "a < now - days d" "p3 = Gone" using p3 by blast
  then have "p2 = p1" using p2 d by auto
  moreover from this have "p1 = p0" using p1 a(1) by auto
  ultimately have "p0 = Archived g a" using a(1) by simp
  then show ?thesis using a by (simp add: ages_def)
qed

text \<open>C94: A sweep ages builds and loses none.  Whatever tiers it runs, whatever the settings are and
  whichever storage call fails, a build that has not ended is left exactly as it is; one that has ended stays,
  gets its purge stamped, or moves to the archive as it was; an archived build stays or, only once it has been
  archived for longer than the third tier, is deleted; and the rows of a build stay on the side where the build is.\<close>

theorem sweep_ages_builds:
  assumes "tables_wf t" "run_once env redis flt st now rc opts (t, r) = (res, t', r')"
    and "tier (Some st) flt T3_KEY (rc_t3_delete_archive_after_days rc) = d" "0 \<le> d"
  shows "tables_wf t' \<and> (\<forall>i. ages now d (place t i) (place t' i))"
proof (intro conjI allI)
  show "tables_wf t'" by (rule run_once_wf [OF assms(2,1)])
  fix i
  from assms(2) obtain removed n1 t1 r1 n2 t2 n3 where
    s1: "t1 = t \<or> run_t1 env redis flt now (tier (Some st) flt T1_KEY (rc_t1_purge_files_after_days rc))
         (resolve_setting_bool (Some st) flt ''retention.enable_worker_fanout'' (rc_enable_worker_fanout rc)) (t, r) = (n1, removed, t1, r1)" and
    s2: "t2 = t1 \<or> run_t2 flt now (tier (Some st) flt T2_KEY (rc_t2_archive_after_days rc))
         (tier (Some st) flt ''retention.max_builds_per_repo'' (rc_max_builds_per_repo rc)) t1 = (n2, t2)" and
    s3: "t' = t2 \<or> run_t3 flt now d t2 = (n3, t')"
    unfolding assms(3) [symmetric] by (rule run_once_tiers)
  have wf1: "tables_wf t1" using s1 assms(1) by (auto dest: run_t1_wf)
  then have wf2: "tables_wf t2" using s2 by (auto dest: run_t2_wf)
  have p1: "place t1 i = place t i
      \<or> (\<exists>g. place t i = Live g \<and> terminal_row g \<and> gw_files_purged_at g = None \<and> place t1 i = Live (purged now g))"
    using s1 by (auto dest: run_t1_place [OF _ assms(1), of _ _ _ _ _ _ _ _ _ _ _ i])
  have p2: "place t2 i = place t1 i \<or> (\<exists>g. place t1 i = Live g \<and> terminal_row g \<and> place t2 i = Archived g now)"
    using s2 run_t2_place [OF _ wf1] by blast
  have p3: "place t' i = place t2 i \<or> (\<exists>g a. place t2 i = Archived g a \<and> a < now - days d \<and> place t' i = Gone)"
    using s3 run_t3_place [OF _ wf2] by blast
  have "\<not> now < now - days d" using assms(4) by (simp add: days_def nanos_per_sec_def)
  then show "ages now d (place t i) (place t' i)"
    by (rule ages_compose [OF p1 p2 p3])
qed

definition sample_row :: "uuid \<Rightarrow> string \<Rightarrow> datetime option \<Rightarrow> GroupRow" where
  "sample_row i state completed =
     \<lparr> gw_id = i, gw_repo_id = None, gw_branch = None, gw_commit_sha = None, gw_trigger_source = None,
       gw_reserved_worker_id = None, gw_state = state, gw_created_at = 0, gw_updated_at = 0, gw_completed_at = completed,
       gw_priority = 0, gw_pr_number = None, gw_pinned = False, gw_idempotency_key = None, gw_allocated_cpu = 0,
       gw_allocated_memory_mb = 0, gw_allocated_disk_mb = 0, gw_reserved_stages = None, gw_status_reason = None,
       gw_files_purged_at = None \<rparr>"

definition sample_tables :: Tables where
  "sample_tables =
     \<lparr> tb_groups = ([sample_row ''g1'' ''success'' (Some 1), sample_row ''g2'' ''running'' None], []), tb_jobs = ([], []),
       tb_reservations = ([], []), tb_artifacts = ([], []), tb_tests = ([], []), tb_gates = ([], []) \<rparr>"

definition sample_sweep :: SweepEnv where
  "sample_sweep = \<lparr> se_workers = Map.empty, se_heartbeat_timeout_secs = 30, se_log_dir = None, se_storage = True \<rparr>"

definition sample_retention :: RetentionConfig where
  "sample_retention = RetentionConfig_default\<lparr> rc_max_builds_per_repo := 0 \<rparr>"

lemma sample_tables_wf: "tables_wf sample_tables"
  by (simp add: tables_wf_def sample_tables_def sample_row_def home_def live_ids_def arch_ids_def)

lemma tier_default: "uint d < 2 ^ 31 \<Longrightarrow> tier (Some Map.empty) no_faults k d = uint d"
  using unsigned_less [of d, where 'a = int]
  by (simp add: tier_def resolve_eff eff_def as_i32_small unsigned_ucast_eq take_bit_int_eq_self)

theorem sweep_ages_builds_witness:
  "let now = days 100;
       t' = fst (snd (run_once sample_sweep None no_faults Map.empty now sample_retention
              \<lparr> op_run_t1 = False, op_run_t2 = True, op_run_t3 = False \<rparr> (sample_tables, ())))
   in place t' ''g1'' = Archived (sample_row ''g1'' ''success'' (Some 1)) now
    \<and> place t' ''g2'' = Live (sample_row ''g2'' ''running'' None)
    \<and> tables_wf t' \<and> (\<forall>i. ages now 365 (place sample_tables i) (place t' i))"
proof -
  let ?opts = "\<lparr> op_run_t1 = False, op_run_t2 = True, op_run_t3 = False \<rparr>"
  let ?run = "run_once sample_sweep None no_faults Map.empty (days 100) sample_retention ?opts (sample_tables, ())"
  let ?t' = "fst (snd ?run)"
  have t2: "?t' = snd (run_t2 no_faults (days 100) 30 0 sample_tables)"
    by (simp add: run_once_def tier_default sample_sweep_def sample_retention_def RetentionConfig_default_def
        Let_def split: prod.split sum.split)
  have "place ?t' ''g1'' = Archived (sample_row ''g1'' ''success'' (Some 1)) (days 100)
      \<and> place ?t' ''g2'' = Live (sample_row ''g2'' ''running'' None)"
    unfolding t2 by code_simp
  moreover have "tables_wf ?t' \<and> (\<forall>i. ages (days 100) 365 (place sample_tables i) (place ?t' i))"
    by (rule sweep_ages_builds [OF sample_tables_wf, where r' = "snd (snd ?run)" and res = "fst ?run" and env = sample_sweep
          and redis = None and flt = no_faults and st = Map.empty and rc = sample_retention and opts = ?opts and r = "()"],
        simp only: prod.collapse)
      (simp_all add: tier_default sample_retention_def RetentionConfig_default_def)
  ultimately show ?thesis by (simp add: Let_def)
qed

section \<open>There and back\<close>

text \<open>The same rows, in whatever order.\<close>

definition same_rows :: "'a archived \<Rightarrow> 'a archived \<Rightarrow> bool" where
  "same_rows c c' \<longleftrightarrow> mset (fst c) = mset (fst c') \<and> mset (snd c) = mset (snd c')"

lemma archive_round_trip:
  assumes "\<And>r a. (r, a) \<in> set (snd c) \<Longrightarrow> \<not> p r"
  shows "same_rows (from_archive p (to_archive now p c)) c"
proof -
  have none: "filter (\<lambda>(r, _). p r) (snd c) = []" "filter (\<lambda>(r, _). \<not> p r) (snd c) = snd c"
    using assms by (auto simp: filter_empty_conv filter_id_conv)
  have "filter (\<lambda>(r, _). p r) (map (\<lambda>r. (r, now)) (filter p xs)) = map (\<lambda>r. (r, now)) (filter p xs)"
    "filter (\<lambda>(r, _). \<not> p r) (map (\<lambda>r. (r, now)) (filter p xs)) = []" for xs
    by (auto simp: filter_empty_conv filter_id_conv)
  then show ?thesis
    by (simp add: same_rows_def from_archive_def to_archive_def none comp_def)
qed

lemma home_out: "home k t c \<Longrightarrow> set ids \<inter> arch_ids t = {} \<Longrightarrow> (r, a) \<in> set (snd c) \<Longrightarrow> k r \<notin> set ids"
  using imageI [of "(r, a)" "set (snd c)" "k \<circ> fst"] by (auto simp: home_def)

lemma same_rows_distinct: "same_rows c c' \<Longrightarrow> distinct (map k (fst c)) = distinct (map k (fst c'))"
  unfolding same_rows_def by (metis mset_map mset_eq_imp_distinct_iff)

text \<open>C95: Archiving is undone by its inverse.  For groups whose rows are live and whose ids the archive does
  not hold, bringing them back after archiving them succeeds, counts as many groups as were archived, and leaves in all twelve tables the
  rows that were there before.\<close>

theorem unarchive_archive:
  assumes "tables_wf t" "keys_ok t" "set ids \<inter> arch_ids t = {}"
    and "archive_group_ids now ids t = (n, t')"
  shows "\<exists>t''. unarchive_group_ids ids t' = Inr (n, t'')
     \<and> same_rows (tb_groups t'') (tb_groups t) \<and> same_rows (tb_jobs t'') (tb_jobs t)
     \<and> same_rows (tb_reservations t'') (tb_reservations t) \<and> same_rows (tb_artifacts t'') (tb_artifacts t)
     \<and> same_rows (tb_tests t'') (tb_tests t) \<and> same_rows (tb_gates t'') (tb_gates t)"
proof -
  note home = assms(1) [unfolded tables_wf_def] and out = home_out [OF _ assms(3)]
  have out_g: "gw_id g \<notin> set ids" if "(g, a) \<in> set (snd (tb_groups t))" for g a
    using imageI [OF that, of arch_id] assms(3) by (auto simp: arch_ids_def)
  let ?t'' = "\<lparr> tb_groups = from_archive (\<lambda>g. gw_id g \<in> set ids) (tb_groups t'),
                tb_jobs = from_archive (\<lambda>r. jw_job_group_id r \<in> set ids) (tb_jobs t'),
                tb_reservations = from_archive (\<lambda>r. vw_job_group_id r \<in> set ids) (tb_reservations t'),
                tb_artifacts = from_archive (\<lambda>r. aw_job_group_id r \<in> set ids) (tb_artifacts t'),
                tb_tests = from_archive (\<lambda>r. tw_job_group_id r \<in> set ids) (tb_tests t'),
                tb_gates = from_archive (\<lambda>r. ag_job_group_id r \<in> set ids) (tb_gates t') \<rparr>"
  have g: "same_rows (tb_groups ?t'') (tb_groups t)"
    by (simp add: archive_shape [OF assms(4)] archive_round_trip out_g)
  have j: "same_rows (tb_jobs ?t'') (tb_jobs t)" "same_rows (tb_reservations ?t'') (tb_reservations t)"
    "same_rows (tb_artifacts ?t'') (tb_artifacts t)" "same_rows (tb_tests ?t'') (tb_tests t)" "same_rows (tb_gates ?t'') (tb_gates t)"
    by (simp_all add: archive_shape [OF assms(4)]) (rule archive_round_trip, use home in \<open>auto dest: out\<close>)+
  have "keys_ok ?t''"
    using assms(2) unfolding keys_ok_def
    by (simp only: same_rows_distinct [OF g] same_rows_distinct [OF j(1)] same_rows_distinct [OF j(2)]
        same_rows_distinct [OF j(3)] same_rows_distinct [OF j(4)] same_rows_distinct [OF j(5)])
  moreover have "length (filter (\<lambda>(g, _). gw_id g \<in> set ids) (snd (tb_groups t'))) = n"
  proof -
    have "filter (\<lambda>(g, _). gw_id g \<in> set ids) (snd (tb_groups t)) = []" using out_g by (auto simp: filter_empty_conv)
    then show ?thesis using assms(4) by (auto simp: archive_group_ids_def to_archive_def comp_def)
  qed
  ultimately have "unarchive_group_ids ids t' = Inr (n, ?t'')" by (simp add: unarchive_group_ids_def)
  with g j show ?thesis by blast
qed

theorem unarchive_archive_witness:
  "let t' = snd (archive_group_ids 7 [''g1''] sample_tables)
   in map gw_id (fst (tb_groups t')) = [''g2'']
    \<and> (\<exists>t''. unarchive_group_ids [''g1''] t' = Inr (1, t'') \<and> same_rows (tb_groups t'') (tb_groups sample_tables)
         \<and> same_rows (tb_jobs t'') (tb_jobs sample_tables) \<and> same_rows (tb_reservations t'') (tb_reservations sample_tables)
         \<and> same_rows (tb_artifacts t'') (tb_artifacts sample_tables) \<and> same_rows (tb_tests t'') (tb_tests sample_tables)
         \<and> same_rows (tb_gates t'') (tb_gates sample_tables))"
proof -
  let ?a = "archive_group_ids 7 [''g1''] sample_tables"
  have "keys_ok sample_tables" by (simp add: keys_ok_def sample_tables_def sample_row_def)
  moreover have "set [''g1''] \<inter> arch_ids sample_tables = {}" by (simp add: arch_ids_def sample_tables_def)
  moreover have n: "?a = (1, snd ?a)" "map gw_id (fst (tb_groups (snd ?a))) = [''g2'']"
    by (simp_all add: archive_group_ids_def sample_tables_def sample_row_def to_archive_def)
  ultimately show ?thesis using unarchive_archive [OF sample_tables_wf] by (simp add: Let_def)
qed

section \<open>The backlog of the second tier\<close>

definition t2_due :: "datetime \<Rightarrow> int \<Rightarrow> Tables \<Rightarrow> GroupRow list" where
  "t2_due now d t = filter (\<lambda>g. gw_state g \<in> set TERMINAL_STATES \<and> completed_before (now - days d) g) (fst (tb_groups t))"

lemma archive_due:
  "archive_group_ids now ids t = (n, t') \<Longrightarrow> t2_due now' d t' = filter (\<lambda>g. gw_id g \<notin> set ids) (t2_due now' d t)"
  by (simp add: archive_shape(1) t2_due_def to_archive_def conj_commute)

lemma archive_batch_due:
  assumes "archive_groups_batch no_faults c now ids t = (res, t')"
  shows "t2_due now' d t' = filter (\<lambda>g. gw_id g \<notin> set ids) (t2_due now' d t)"
proof (cases "ids = []")
  case True
  then show ?thesis using assms by (simp add: archive_groups_batch_def)
next
  case False
  then obtain n where "archive_group_ids now ids t = (n, t')"
    using assms by (auto simp: archive_groups_batch_def no_faults_def split: prod.splits)
  then show ?thesis by (rule archive_due)
qed

lemma archive_chunks_due:
  "archive_chunks no_faults now k bs t = (res, t') \<Longrightarrow> length (t2_due now' d t') \<le> length (t2_due now' d t)"
proof (induction bs arbitrary: k t res)
  case (Cons b bs)
  obtain n t1 where b: "archive_groups_batch no_faults (chunk_call k) now b t = (n, t1)" by (rule prod.exhaust)
  have le: "length (t2_due now' d t1) \<le> length (t2_due now' d t)" by (simp add: archive_batch_due [OF b])
  show ?case
  proof (cases n)
    case (Inl e)
    then show ?thesis using Cons.prems le by (simp add: b)
  next
    case (Inr m)
    then obtain n' where "archive_chunks no_faults now (Suc k) bs t1 = (n', t')"
      using Cons.prems by (auto simp: b split: prod.splits)
    from Cons.IH [OF this] le show ?thesis by simp
  qed
qed simp

lemma run_t2_due:
  assumes "run_t2 no_faults now d mx t = (res, t')"
  shows "length (t2_due now d t') \<le> length (t2_due now d t) - 100"
proof -
  let ?s = "sort_key completed_key (t2_due now d t)"
  let ?ids = "find_groups_for_t2 now d 100 t"
  obtain n t1 where b: "archive_groups_batch no_faults ''archive_groups_batch'' now ?ids t = (n, t1)" by (rule prod.exhaust)
  have ids: "?ids = map gw_id (take 100 ?s)" by (simp add: find_groups_for_t2_def t2_due_def)
  have "mset (filter (\<lambda>g. gw_id g \<notin> set ?ids) (t2_due now d t)) = mset (filter (\<lambda>g. gw_id g \<notin> set ?ids) ?s)" by simp
  then have "length (t2_due now d t1) = length (filter (\<lambda>g. gw_id g \<notin> set ?ids) (take 100 ?s @ drop 100 ?s))"
    unfolding archive_batch_due [OF b] append_take_drop_id by (rule mset_eq_length)
  also have "\<dots> = length (filter (\<lambda>g. gw_id g \<notin> set ?ids) (drop 100 ?s))"
  proof -
    have "filter (\<lambda>g. gw_id g \<notin> set ?ids) (take 100 ?s) = []" by (simp add: filter_empty_conv ids)
    then show ?thesis by (simp only: filter_append append_Nil)
  qed
  also have "\<dots> \<le> length (t2_due now d t) - 100" using length_filter_le [of _ "drop 100 ?s"] by simp
  finally have le: "length (t2_due now d t1) \<le> length (t2_due now d t) - 100" .
  have "length (t2_due now d t') \<le> length (t2_due now d t1)"
  proof (cases "t' = t1")
    case False
    then obtain m where "archive_chunks no_faults now 0 (chunks 100 (find_excess_groups_per_repo mx t1)) t1 = (m, t')"
      using assms by (auto simp: run_t2_def attempt_def no_faults_def b [unfolded no_faults_def] split: sum.splits if_splits prod.splits)
    then show ?thesis by (rule archive_chunks_due)
  qed simp
  then show ?thesis using le by linarith
qed

text \<open>C96: The second tier drains its backlog.  With a database that answers, every sweep archives the hundred oldest
  builds that are due, or all of them, so n sweeps empty a backlog of up to 100 n builds, whatever the limit
  per repository archives beside.\<close>

theorem t2_drains:
  assumes "length (t2_due now d t) \<le> 100 * n"
  shows "t2_due now d (((\<lambda>t. snd (run_t2 no_faults now d mx t)) ^^ n) t) = []"
  using assms
proof (induction n arbitrary: t)
  case (Suc n)
  have "length (t2_due now d (snd (run_t2 no_faults now d mx t))) \<le> length (t2_due now d t) - 100"
    by (rule run_t2_due [OF prod.collapse [symmetric]])
  then show ?case using Suc by (simp add: funpow_Suc_right del: funpow.simps)
qed simp

theorem t2_drains_witness:
  "map gw_id (t2_due (days 100) 30 sample_tables) = [''g1'']
   \<and> t2_due (days 100) 30 (((\<lambda>t. snd (run_t2 no_faults (days 100) 30 0 t)) ^^ 1) sample_tables) = []"
proof -
  have "map gw_id (t2_due (days 100) 30 sample_tables) = [''g1'']" by code_simp
  moreover from arg_cong [OF this, of length] have "length (t2_due (days 100) 30 sample_tables) \<le> 100 * 1" by simp
  ultimately show ?thesis using t2_drains by blast
qed

section \<open>Acknowledgements\<close>

text \<open>C97: A purge is stamped by an acknowledgement only when it is complete.  If handling an acknowledgement changes
  any build, it is the acknowledged one, and no live worker that ran a stage of it still has the
  purge in its queue.\<close>

theorem stamp_needs_all_acks:
  assumes "redis_sets mem R" "se_storage env"
    and "handle_purge_ack env (Some (R, pre)) parse_uuid flt now req (t, r) = (ans, t', r')"
    and "place t' i \<noteq> place t i"
  shows "parse_uuid (su_job_group_id req) = Some i
     \<and> (\<forall>wid \<in> set (workers_for_group i t). is_live env now wid \<longrightarrow> i \<notin> mem r' (queue_key pre wid))"
proof -
  obtain g where g: "parse_uuid (su_job_group_id req) = Some g" "su_state req \<noteq> 5"
    "r' = snd (ack_purge R pre (su_worker_id req) (su_job_group_id req) r)"
    "t' = (if all_workers_acked env R pre flt now g (t, r') then stamp_files_purged_if_pending env flt now g t else t)"
    using assms(3,4) by (auto simp: handle_purge_ack_def Let_def split: option.splits if_splits)
  have acked: "all_workers_acked env R pre flt now g (t, r')" using g(4) assms(4) by (auto split: if_splits)
  then have t': "t' = snd (mark_files_purged flt now [g] now t)" using g(4) assms(2) by (simp add: stamp_files_purged_if_pending_def)
  have "i = g" using mark_place [OF prod.collapse [symmetric], of flt now "[g]" t i] assms(4) by (auto simp: t')
  moreover have "i \<notin> mem r' (queue_key pre wid)" if "wid \<in> set (workers_for_group g t)" "is_live env now wid" "i = g" for wid
  proof -
    have "rd_sismember R (queue_key pre wid) g r' = Inr False"
      using acked that assms(2) by (auto simp: all_workers_acked_def is_purge_pending_def list_all_iff split: option.splits)
    then show ?thesis using assms(1) that(3) unfolding redis_sets_def by blast
  qed
  ultimately show ?thesis using g(1) by blast
qed

text \<open>An owner that is live and has not acknowledged holds its group back; once the queue of the other is empty, the
  acknowledgement stamps it.\<close>

definition sample_ack :: "string \<Rightarrow> JobStatusUpdate" where
  "sample_ack wid = \<lparr> su_worker_id = wid, su_job_id = [], su_state = 4, su_message = [], su_exit_code = 0, su_timestamp_unix = 0,
     su_job_group_id = ''g1'', su_stage_name = [], su_phase = [], su_pre_exit_code = 0, su_post_exit_code = 0, su_purge_ack = True \<rparr>"

theorem stamp_needs_all_acks_witness:
  "let r = snd (enqueue_purge mem_redis [] 0 ''w1'' ''g1'' (Map.empty, \<lambda>_. []));
       out = handle_purge_ack sample_sweep (Some (mem_redis, [])) Some no_faults 9 (sample_ack ''w1'') (sample_tables, r)
   in place (fst (snd out)) ''g1'' \<noteq> place sample_tables ''g1''
    \<and> (\<forall>wid \<in> set (workers_for_group ''g1'' sample_tables). is_live sample_sweep 9 wid \<longrightarrow>
         ''g1'' \<notin> set (snd (snd (snd out)) (queue_key [] wid)))"
proof -
  let ?r = "snd (enqueue_purge mem_redis [] 0 ''w1'' ''g1'' (Map.empty, \<lambda>_. []))"
  let ?out = "handle_purge_ack sample_sweep (Some (mem_redis, [])) Some no_faults 9 (sample_ack ''w1'') (sample_tables, ?r)"
  have "place (fst (snd ?out)) ''g1'' \<noteq> place sample_tables ''g1''" by code_simp
  moreover from this
  have "\<forall>wid \<in> set (workers_for_group ''g1'' sample_tables). is_live sample_sweep 9 wid \<longrightarrow>
         ''g1'' \<notin> set (snd (snd (snd ?out)) (queue_key [] wid))"
    using stamp_needs_all_acks [OF mem_redis_ok(2), of sample_sweep "[]" Some no_faults 9 "sample_ack ''w1''" sample_tables ?r "fst ?out"
        "fst (snd ?out)" "snd (snd ?out)" "''g1''"]
    by (simp add: sample_sweep_def)
  ultimately show ?thesis by (simp add: Let_def)
qed

section \<open>Starvation\<close>

text \<open>When each of the hundred oldest unstamped builds has a live owner, a sweep with fan-out stamps nothing, so it
  sees the same hundred again: a build behind them is not purged until one of them is acknowledged.\<close>

theorem t1_head_blocks:
  assumes "\<forall>gid \<in> set (find_groups_for_t1 now d 100 t). flt (''workers_for_group:'' @ gid) = None
             \<and> (\<exists>wid \<in> set (workers_for_group gid t). is_live env now wid)"
    and "run_t1 env (Some (R, pre)) flt now d True (t, r) = (res, removed, t', r')"
  shows "t' = t"
proof -
  have "fst (t1_fanout env R pre flt now t gids r) = []"
    if "\<forall>gid \<in> set gids. flt (''workers_for_group:'' @ gid) = None \<and> (\<exists>wid \<in> set (workers_for_group gid t). is_live env now wid)" for gids r
    using that
    by (induction gids arbitrary: r) (auto simp: Let_def owners_of_def filter_live_workers_def filter_empty_conv split: prod.splits)
  from this [OF assms(1)] obtain r1 where "t1_fanout env R pre flt now t (find_groups_for_t1 now d 100 t) r = ([], r1)"
    by (metis prod.collapse)
  then show ?thesis using assms(2)
    by (auto simp: run_t1_def attempt_def Let_def mark_files_purged_def split: option.splits if_splits)
qed

text \<open>An acknowledgement that arrives after the build was archived is lost: the stamp touches live rows only.\<close>

theorem late_ack_not_recorded:
  assumes "place t i = Archived g a" "handle_purge_ack env redis parse_uuid flt now req (t, r) = (ans, t', r')"
  shows "place t' i = Archived g a"
proof -
  have "place (stamp_files_purged_if_pending env flt now j t) i = Archived g a" for j
    using mark_place [OF prod.collapse [symmetric], of flt now "[j]" t i] assms(1) by (auto simp: stamp_files_purged_if_pending_def)
  then show ?thesis using assms by (auto simp: handle_purge_ack_def Let_def split: option.splits if_splits)
qed

end
