(* ===== verification/Adhoc.thy ===== *)
theory Adhoc
  imports Redis_Store
begin

text \<open>
  The single-job interface (\<open>grpc_server.rs\<close>): a job submitted from the command line is
  given a group of its own, and the status calls answer from memory first and from
  the database when the entry is no longer there.
\<close>

section \<open>Submission\<close>

record SubmitJobRequest =
  sj_job_id :: string
  sj_command :: string
  sj_job_type :: string
  sj_required_cpu :: u32
  sj_required_memory_mb :: u64
  sj_required_disk_mb :: u64
  sj_isolation_required :: bool
  sj_branch_id :: string
  sj_environment :: "string \<rightharpoonup> string"

record SubmitJobResponse =
  sb_accepted :: bool
  sb_message :: string
  sb_job_id :: string

definition adhoc_job_type :: "string \<Rightarrow> JobType" where
  "adhoc_job_type s = (if s = ''heavy'' then THeavy else if s = ''nix'' then TNix else if s = ''test'' then TTest else TCommon)"

definition adhoc_branch :: "SubmitJobRequest \<Rightarrow> string option" where
  "adhoc_branch req = (if sj_branch_id req = [] then None else Some (sj_branch_id req))"

definition adhoc_job :: "Env \<Rightarrow> datetime \<Rightarrow> string \<Rightarrow> SubmitJobRequest \<Rightarrow> Job" where
  "adhoc_job env now peer_addr req =
     (Job_new now (sj_job_id req) (sj_command req) (adhoc_job_type (sj_job_type req)) (sj_required_cpu req)
        (sj_required_memory_mb req) (sj_required_disk_mb req))
     \<lparr> j_isolation_required := sj_isolation_required req, j_branch_id := adhoc_branch req,
       j_environment := sj_environment req, j_submitter_connection_id := Some peer_addr,
       j_job_group_id := Some (env_v5 env (sj_job_id req)) \<rparr>"

definition adhoc_row_id :: "Env \<Rightarrow> SubmitJobRequest \<Rightarrow> uuid" where
  "adhoc_row_id env req = env_v5 env (''job-'' @ sj_job_id req)"

definition adhoc_row :: "Env \<Rightarrow> datetime \<Rightarrow> SubmitJobRequest \<Rightarrow> DbJob" where
  "adhoc_row env now req =
     \<lparr> dj_id = adhoc_row_id env req, dj_job_group_id = env_v5 env (sj_job_id req), dj_stage_config_id = None,
       dj_stage_name = ''default'', dj_command = sj_command req, dj_pre_script = None, dj_post_script = None,
       dj_worker_id = None, dj_state = ''queued'', dj_exit_code = None, dj_pre_exit_code = None, dj_post_exit_code = None,
       dj_log_path = None, dj_started_at = None, dj_completed_at = None, dj_retry_count = 0, dj_status_reason = None,
       dj_created_at = now, dj_updated_at = now \<rparr>"

definition submit_job :: "Env \<Rightarrow> datetime \<Rightarrow> string \<Rightarrow> SubmitJobRequest \<Rightarrow> SubmitJobResponse handler" where
  "submit_job env now peer_addr req cs =
     (let group_id = env_v5 env (sj_job_id req);
          job = adhoc_job env now peer_addr req;
          group = JobGroup_new_with_id now group_id None (adhoc_branch req) None ''cli'';
          cs = map_groups (add_job_to_group group_id job \<circ> add_group group) cs;
          cs = map_jobs (add_job job) cs;
          cs = map_logs (register_log_path (sj_job_id req) group_id ''default''
                 \<circ> register_alias (adhoc_row_id env req) (sj_job_id req)) cs;
          cs = map_metrics (inc_active_stages \<circ> inc_jobs_submitted) cs;
          cs = emit_db env (DbCreateGroup group) cs;
          cs = emit_db env (DbCreateJob (adhoc_row env now req)) cs;
          cs = emit NotifyWaiters cs
      in (Inr \<lparr> sb_accepted = True, sb_message = ''Job queued successfully'', sb_job_id = sj_job_id req \<rparr>, cs))"

section \<open>Status\<close>

record GetJobStatusResponse =
  js_found :: bool
  js_job_id :: string
  js_state :: int
  js_message :: string
  js_exit_code :: int

definition db_state_to_proto :: "string \<Rightarrow> int" where
  "db_state_to_proto s =
     (if s = ''success'' then job_state_to_proto JSuccess
      else if s = ''failed'' then job_state_to_proto JFailed
      else if s = ''cancelled'' then job_state_to_proto JCancelled
      else if s = ''running'' then job_state_to_proto JRunning
      else if s = ''assigned'' then job_state_to_proto JAssigned
      else job_state_to_proto JUnknown)"

definition get_job_status :: "Env \<Rightarrow> string \<Rightarrow> ControllerState \<Rightarrow> GetJobStatusResponse" where
  "get_job_status env job_id cs =
     (case cs_jobs cs job_id of
        Some job \<Rightarrow>
          \<lparr> js_found = True, js_job_id = j_job_id job, js_state = job_state_to_proto (j_state job),
            js_message = ''Job state: '' @ job_state_display (j_state job), js_exit_code = unwrap_or 0 (j_exit_code job) \<rparr>
      | None \<Rightarrow>
          (case (case env_storage env of None \<Rightarrow> None
                 | Some storage \<Rightarrow> (case st_job storage (env_v5 env job_id) of Inr db_job \<Rightarrow> db_job | Inl _ \<Rightarrow> None)) of
             Some db_job \<Rightarrow>
               \<lparr> js_found = True, js_job_id = job_id, js_state = db_state_to_proto (dj_state db_job),
                 js_message = unwrap_or (''Job state: '' @ dj_state db_job) (dj_status_reason db_job),
                 js_exit_code = unwrap_or 0 (dj_exit_code db_job) \<rparr>
           | None \<Rightarrow>
               \<lparr> js_found = False, js_job_id = job_id, js_state = job_state_to_proto JUnknown,
                 js_message = ''Job not found'', js_exit_code = 0 \<rparr>))"

record StageStatus =
  ss_job_id :: string
  ss_stage_name :: string
  ss_state :: string
  ss_exit_code :: int
  ss_worker_id :: string
  ss_started_at :: int
  ss_completed_at :: int

record GetJobGroupStatusResponse =
  gs_job_group_id :: string
  gs_state :: string
  gs_worker_id :: string
  gs_stages :: "StageStatus list"

text \<open>\<open>DateTime::timestamp\<close> counts whole seconds, rounded down.\<close>

definition unix_seconds :: "datetime \<Rightarrow> int" where
  "unix_seconds t = t div nanos_per_sec"

definition stage_status_of :: "Job \<Rightarrow> StageStatus" where
  "stage_status_of job =
     \<lparr> ss_job_id = j_job_id job, ss_stage_name = unwrap_or [] (j_stage_name job), ss_state = job_state_display (j_state job),
       ss_exit_code = unwrap_or 0 (j_exit_code job), ss_worker_id = unwrap_or [] (j_assigned_worker job),
       ss_started_at = unwrap_or 0 (map_option unix_seconds (j_started_at job)),
       ss_completed_at = unwrap_or 0 (map_option unix_seconds (j_completed_at job)) \<rparr>"

definition get_job_group_status :: "Env \<Rightarrow> string \<Rightarrow> ControllerState \<Rightarrow> Status + GetJobGroupStatusResponse" where
  "get_job_group_status env req_id cs =
     (case env_parse_uuid env req_id of
        None \<Rightarrow> Inl (Status InvalidArgument (''Invalid job_group_id: '' @ env_uuid_error env req_id))
      | Some group_id \<Rightarrow>
          (case gr_groups (cs_groups cs) group_id of
             Some g \<Rightarrow>
               Inr \<lparr> gs_job_group_id = group_id, gs_state = group_state_display (g_state g),
                     gs_worker_id = unwrap_or [] (g_reserved_worker_id g),
                     gs_stages = map stage_status_of (get_jobs_for_group group_id (cs_groups cs)) \<rparr>
           | None \<Rightarrow>
               (case (case env_storage env of None \<Rightarrow> None
                      | Some storage \<Rightarrow> (case st_job_group storage group_id of Inr g \<Rightarrow> g | Inl _ \<Rightarrow> None)) of
                  Some g \<Rightarrow>
                    Inr \<lparr> gs_job_group_id = group_id, gs_state = group_state_display (g_state g),
                          gs_worker_id = unwrap_or [] (g_reserved_worker_id g), gs_stages = [] \<rparr>
                | None \<Rightarrow> Inl (Status NotFound (''Job group '' @ req_id @ '' not found'')))))"

section \<open>Submitted jobs\<close>

lemma submit_job_frame:
  assumes "submit_job env now peer_addr req cs = (res, cs')"
  shows "gr_groups (cs_groups cs') = (gr_groups (cs_groups cs))(env_v5 env (sj_job_id req) \<mapsto>
           JobGroup_new_with_id now (env_v5 env (sj_job_id req)) None (adhoc_branch req) None ''cli'')"
    and "gr_group_jobs (cs_groups cs') (env_v5 env (sj_job_id req)) =
         Some (get_jobs_for_group (env_v5 env (sj_job_id req)) (cs_groups cs) @ [adhoc_job env now peer_addr req])"
    and "cs_jobs cs' = (cs_jobs cs)(sj_job_id req \<mapsto> adhoc_job env now peer_addr req)"
    and "cs_workers cs' = cs_workers cs" "cs_senders cs' = cs_senders cs"
proof -
  have cs': "cs' = snd (submit_job env now peer_addr req cs)" using assms by simp
  show "gr_groups (cs_groups cs') = (gr_groups (cs_groups cs))(env_v5 env (sj_job_id req) \<mapsto>
           JobGroup_new_with_id now (env_v5 env (sj_job_id req)) None (adhoc_branch req) None ''cli'')"
    by (simp add: cs' submit_job_def Let_def add_group_def add_job_to_group_def JobGroup_new_with_id_def)
  show "gr_group_jobs (cs_groups cs') (env_v5 env (sj_job_id req)) =
         Some (get_jobs_for_group (env_v5 env (sj_job_id req)) (cs_groups cs) @ [adhoc_job env now peer_addr req])"
    by (simp add: cs' submit_job_def Let_def add_group_def add_job_to_group_def JobGroup_new_with_id_def get_jobs_for_group_def
        split: option.split)
  show "cs_jobs cs' = (cs_jobs cs)(sj_job_id req \<mapsto> adhoc_job env now peer_addr req)"
    by (simp add: cs' submit_job_def Let_def add_job_def adhoc_job_def Job_new_def fun_upd_def)
  show "cs_workers cs' = cs_workers cs" "cs_senders cs' = cs_senders cs" by (simp_all add: cs' submit_job_def Let_def)
qed

text \<open>A group without a worker holds nothing, so the accounts do not see it.\<close>

lemma submit_job_accounts:
  assumes "accounts_ok cs" "submit_job env now peer_addr req cs = (res, cs')"
    and "\<And>g. gr_groups (cs_groups cs) (env_v5 env (sj_job_id req)) = Some g \<Longrightarrow> g_reserved_worker_id g = None"
  shows "accounts_ok cs'"
proof -
  note fr = submit_job_frame [OF assms(2)] and ok = accounts_okD [OF assms(1)]
  let ?gid = "env_v5 env (sj_job_id req)" and ?gr = "gr_groups (cs_groups cs)"
  let ?g = "JobGroup_new_with_id now ?gid None (adhoc_branch req) None ''cli''"
  have free: "\<not> holds wid ?g" for wid by (simp add: holds_def JobGroup_new_with_id_def)
  have due: "cpu_account.due (?gr(?gid \<mapsto> ?g)) wid = cpu_account.due ?gr wid
      \<and> memory_account.due (?gr(?gid \<mapsto> ?g)) wid = memory_account.due ?gr wid" for wid
  proof (cases "?gr ?gid")
    case None
    then show ?thesis using cpu_account.due_grant [OF ok(1) None] memory_account.due_grant [OF ok(1) None] free by simp
  next
    case (Some g)
    have "\<not> holds wid g" using assms(3) [OF Some] by (simp add: holds_def)
    then show ?thesis
      using cpu_account.due_change [OF ok(1) Some, of ?g wid] memory_account.due_change [OF ok(1) Some, of ?g wid] free by simp
  qed
  have "groups.well_keyed (cs_groups cs')"
    using ok(2) by (simp add: groups.well_keyed_def fr(1) JobGroup_new_with_id_def)
  with ok show ?thesis
    by (simp add: accounts_ok_def fr(1,4) cpu_account.balanced_def memory_account.balanced_def due)
qed

lemma report_single_job:
  assumes "gr_groups (cs_groups cs) gid = Some g" "g_state g = GRunning" "g_reserved_stages g = []"
    and "gr_group_jobs (cs_groups cs) gid = Some [j]" "j_job_id j = su_job_id u"
    and "env_parse_uuid env (su_job_group_id u) = Some gid" "su_job_group_id u \<noteq> []" "su_state u \<in> {4, 5, 6}"
  shows "map_option g_state (gr_groups (cs_groups (snd (report_status env now u cs))) gid) =
         Some (if su_state u = 4 then GSuccess else if su_state u = 5 then GFailed else GCancelled)"
proof -
  let ?s = "report_model_state (su_state u)"
  let ?r = "touch_activity now gid (update_job_in_group (env_v5 env) now gid (su_job_id u) ?s (Some (su_exit_code u)) (cs_groups cs))"
  let ?g = "g\<lparr> g_last_activity_at := now \<rparr>"
  have grp: "gr_groups ?r gid = Some ?g"
    using assms(1) by (simp add: touch_activity_def update_job_in_group_def modify_group_def modify_group_jobs_def hm_modify_def split: option.split)
  have jobs: "\<exists>j'. gr_group_jobs ?r gid = Some [j'] \<and> j_state j' = ?s"
    using assms(4,5) by (simp add: touch_activity_def update_job_in_group_def modify_group_def modify_group_jobs_def
        job_id_matches_def report_job_def Let_def)
  then obtain j' where j': "gr_group_jobs ?r gid = Some [j']" "j_state j' = ?s" by blast
  obtain res r' where chk: "check_group_completion now gid ?r = (res, r')" by fastforce
  have vt: "valid_transition GRunning x" if "x \<in> {GFailed, GCancelled, GSuccess}" for x using that by (auto simp: valid_transition_def)
  have "map_option g_state (gr_groups r' gid) = Some (if su_state u = 4 then GSuccess else if su_state u = 5 then GFailed else GCancelled)"
    and "res \<noteq> None"
    using assms(2,3,8) chk j' grp
    by (auto simp: check_group_completion_def Let_def report_model_state_def settled_def groups_update_state enter_state_def vt
        split: if_splits)
  moreover have "complete_group env now gid u cs0 =
      (case res of None \<Rightarrow> map_groups (\<lambda>_. r') cs0
       | Some s \<Rightarrow> settle_group env gid s (on_group_completed gid r') (gr_groups r' gid) (map_groups (\<lambda>_. r') cs0))"
    if "cs_groups cs0 = cs_groups cs" for cs0
    using chk that by (cases res) (simp_all add: complete_group_def note_report_def Let_def)
  ultimately show ?thesis using assms(6,7) by (auto simp: report_status_def Let_def)
qed

definition updated_rows :: "effect list \<Rightarrow> uuid set" where
  "updated_rows es = {i. \<exists>s c w. DbUpdateJobState i s c w \<in> set es}"

lemma updated_rows_emit [simp]:
  "updated_rows (xs @ ys) = updated_rows xs \<union> updated_rows ys"
  "updated_rows (cs_effects (emit_db env e cs)) =
     updated_rows (cs_effects cs) \<union> (if env_storage env = None then {} else updated_rows [e])"
  "updated_rows (cs_effects (emit_redis env e cs)) = updated_rows (cs_effects cs) \<union> (if env_redis env then updated_rows [e] else {})"
  "updated_rows (cs_effects (send_to w a cs)) = updated_rows (cs_effects cs)"
  by (auto simp: updated_rows_def emit_db_def emit_redis_def send_to_def)

lemma updated_rows_other [simp]:
  "updated_rows [DbUpdateJobReason i r] = {}" "updated_rows [DbRecordStageResources a b c d x] = {}"
  "updated_rows [RedisRelease wid gid] = {}" "updated_rows [DbUpdateGroupState gid st rs] = {}"
  "updated_rows [SendNotification p q r' b' sh st] = {}" "updated_rows [DbUpdateJobState i ss ec w] = {i}"
  "updated_rows [DbCreateGroup g] = {}" "updated_rows [DbCreateJob j] = {}" "updated_rows [NotifyWaiters] = {}"
  by (auto simp: updated_rows_def)

lemma report_updates_one_row:
  "updated_rows (cs_effects (snd (report_status env now u cs))) \<subseteq> updated_rows (cs_effects cs) \<union> {env_v5 env (su_job_id u)}"
proof -
  have clean: "updated_rows (cs_effects (clean_up_group env gid wid rp br sh st cs)) = updated_rows (cs_effects cs)"
    for gid wid rp br sh st cs
    by (simp add: clean_up_group_def dispatch_global_post_script_def split: option.split sum.split)
  have rel: "updated_rows (cs_effects (release_group env gid wid al cs)) = updated_rows (cs_effects cs)" for gid wid al cs
    by (simp add: release_group_def split: option.split)
  have settle: "updated_rows (cs_effects (settle_group env gid st wid g cs)) = updated_rows (cs_effects cs)" for gid st wid g cs
    by (simp add: settle_group_def Let_def clean rel split: option.split)
  have persist: "updated_rows (cs_effects (persist_report env u cs)) \<subseteq> updated_rows (cs_effects cs) \<union> {env_v5 env (su_job_id u)}" for cs
    by (auto simp: persist_report_def Let_def)
  have rec: "updated_rows (cs_effects (record_resources env now u cs)) = updated_rows (cs_effects cs)" for cs
    by (simp add: record_resources_def Let_def split: option.split)
  have compl: "updated_rows (cs_effects (complete_group env now gid u cs)) = updated_rows (cs_effects cs)" for gid cs
    by (simp add: complete_group_def settle split: prod.split option.split)
  show ?thesis using persist [of "map_metrics (count_report (su_state u)) (map_jobs (update_status now u) cs)"]
    by (auto simp: report_status_def Let_def compl rec split: option.splits)
qed

section \<open>Properties\<close>

lemma report_jobs: "cs_jobs (snd (report_status env now u cs)) = update_status now u (cs_jobs cs)"
proof -
  have persist: "cs_jobs (persist_report env u cs) = cs_jobs cs" for cs by (simp add: persist_report_def Let_def)
  have rec: "cs_jobs (record_resources env now u cs) = cs_jobs cs" for cs
    by (simp add: record_resources_def Let_def split: option.split)
  have clean: "cs_jobs (clean_up_group env gid wid rp br sh st cs) = cs_jobs cs" for gid wid rp br sh st cs
    by (simp add: clean_up_group_def dispatch_global_post_script_def split: option.split sum.split)
  have rel: "cs_jobs (release_group env gid wid al cs) = cs_jobs cs" for gid wid al cs
    by (simp add: release_group_def split: option.split)
  have settle: "cs_jobs (settle_group env gid st wid g cs) = cs_jobs cs" for gid st wid g cs
    by (simp add: settle_group_def Let_def clean rel split: option.split)
  show ?thesis
    by (simp add: report_status_def Let_def complete_group_def settle persist rec split: prod.split option.split)
qed

text \<open>C37: The life of an ad-hoc job.  A submitted job is found as queued; once its worker reports
  success, failure or cancellation under the job's id, its group ends in the state
  that matches the report, the status call answers with the reported state and exit code, and
  no worker's counters move.\<close>

theorem adhoc_job_completes:
  assumes "submit_job env now peer_addr req cs = (res, cs1)"
    and "gr_group_jobs (cs_groups cs) (env_v5 env (sj_job_id req)) = None"
    and "su_job_id u = sj_job_id req" "su_state u \<in> {4, 5, 6}"
    and "env_parse_uuid env (su_job_group_id u) = Some (env_v5 env (sj_job_id req))" "su_job_group_id u \<noteq> []"
    and "report_status env later u cs1 = (ack, cs2)"
  shows "js_state (get_job_status env (sj_job_id req) cs1) = job_state_to_proto JQueued
    \<and> map_option g_state (gr_groups (cs_groups cs2) (env_v5 env (sj_job_id req))) =
         Some (if su_state u = 4 then GSuccess else if su_state u = 5 then GFailed else GCancelled)
    \<and> js_state (get_job_status env (sj_job_id req) cs2) = su_state u
    \<and> js_exit_code (get_job_status env (sj_job_id req) cs2) = su_exit_code u
    \<and> cs_workers cs2 = cs_workers cs"
proof (intro conjI)
  note fr = submit_job_frame [OF assms(1)]
  let ?gid = "env_v5 env (sj_job_id req)"
  let ?g = "JobGroup_new_with_id now ?gid None (adhoc_branch req) None ''cli''"
  let ?j = "adhoc_job env now peer_addr req"
  have g: "gr_groups (cs_groups cs1) ?gid = Some ?g" by (simp add: fr(1))
  have js: "gr_group_jobs (cs_groups cs1) ?gid = Some [?j]" using fr(2) assms(2) by (simp add: get_jobs_for_group_def)
  have cs2: "cs2 = snd (report_status env later u cs1)" using assms(7) by simp
  show "js_state (get_job_status env (sj_job_id req) cs1) = job_state_to_proto JQueued"
    by (simp add: get_job_status_def fr(3) adhoc_job_def Job_new_def)
  show "map_option g_state (gr_groups (cs_groups cs2) ?gid) =
         Some (if su_state u = 4 then GSuccess else if su_state u = 5 then GFailed else GCancelled)"
    unfolding cs2 by (rule report_single_job [OF g _ _ js _ assms(5,6,4)])
      (simp_all add: JobGroup_new_with_id_def adhoc_job_def Job_new_def assms(3))
  have job: "cs_jobs cs2 = update_status later u (cs_jobs cs1)" by (simp add: cs2 report_jobs)
  show "js_state (get_job_status env (sj_job_id req) cs2) = su_state u"
    "js_exit_code (get_job_status env (sj_job_id req) cs2) = su_exit_code u"
    using assms(3,4) by (auto simp: get_job_status_def job fr(3) update_status_def Let_def job_state_of_proto_def unwrap_or_def)
  show "cs_workers cs2 = cs_workers cs"
    using report_status_outcome [of cs1 env later u] assms(5) g fr(4)
    by (auto simp: cs2 keeps_holdings_def settles_def JobGroup_new_with_id_def)
qed

definition sample_job_request :: SubmitJobRequest where
  "sample_job_request =
     \<lparr> sj_job_id = ''j1'', sj_command = ''make'', sj_job_type = ''common'', sj_required_cpu = 1, sj_required_memory_mb = 10,
       sj_required_disk_mb = 0, sj_isolation_required = False, sj_branch_id = [], sj_environment = Map.empty \<rparr>"

definition sample_job_report :: JobStatusUpdate where
  "sample_job_report = failed_report\<lparr> su_job_id := ''j1'', su_job_group_id := ''v5-j1'' \<rparr>"

theorem adhoc_job_completes_witness:
  "let cs1 = snd (submit_job sample_env 3 ''peer'' sample_job_request sample_cs);
       cs2 = snd (report_status sample_env 5 sample_job_report cs1)
   in js_state (get_job_status sample_env ''j1'' cs2) = 5 \<and> js_exit_code (get_job_status sample_env ''j1'' cs2) = 2
    \<and> map_option g_state (gr_groups (cs_groups cs2) ''v5-j1'') = Some GFailed"
proof -
  let ?s = "submit_job sample_env 3 ''peer'' sample_job_request sample_cs"
  let ?r = "report_status sample_env 5 sample_job_report (snd ?s)"
  have ids: "sj_job_id sample_job_request = ''j1''" "env_v5 sample_env ''j1'' = ''v5-j1''" "su_job_id sample_job_report = ''j1''"
    "su_state sample_job_report = 5" "su_exit_code sample_job_report = 2" "su_job_group_id sample_job_report = ''v5-j1''"
    by (simp_all add: sample_job_request_def sample_env_def sample_job_report_def failed_report_def)
  note w = adhoc_job_completes [where env = sample_env and now = 3 and peer_addr = "''peer''" and req = sample_job_request
      and cs = sample_cs and u = sample_job_report and later = 5, OF prod.collapse [symmetric] _ _ _ _ _ prod.collapse [symmetric], unfolded ids]
  show ?thesis using w by (simp add: Let_def JobGroupRegistry_new_def ids)
qed



end
