(* ===== verification/Startup.thy ===== *)
theory Startup
  imports Adhoc
begin

text \<open>
  The recovery of the controller's state at start (\<open>main.rs\<close>).  \<open>RecoveryStore\<close> holds the rows the
  queries of the recovery return, and the reservation keys found in Redis.  Unfinished groups and jobs are
  loaded, reservations that outlived their timeout expire, jobs that were
  running become Unknown, workers come back as disconnected, and the allocations of the groups
  are put back on them.
\<close>

section \<open>Rows\<close>

record WorkerToken =
  wt_token_hash :: string
  wt_active :: bool

record RecoveryStore =
  ry_worker_tokens :: "WorkerToken list query"
  ry_active_job_groups :: "JobGroup list query"
  ry_active_jobs :: "DbJob list query"
  ry_workers :: "WorkerRow list query"
  ry_reservations :: "(string \<times> string) list query"

definition ok_or_empty :: "'a list query \<Rightarrow> 'a list" where
  "ok_or_empty q = (case q of Inr xs \<Rightarrow> xs | Inl _ \<Rightarrow> [])"

definition load_token_hashes :: "RecoveryStore \<Rightarrow> string set" where
  "load_token_hashes ry =
     set (map wt_token_hash (filter wt_active (ok_or_empty (ry_worker_tokens ry))))
     \<union> set (List.map_filter wr_worker_token_hash (ok_or_empty (ry_workers ry)))"

definition db_job_to_job :: "datetime \<Rightarrow> DbJob \<Rightarrow> Job" where
  "db_job_to_job now db =
     (Job_new now (dj_id db) (dj_command db) TCommon 0 0 0)
     \<lparr> j_state := job_state_from_str (dj_state db), j_assigned_worker := dj_worker_id db,
       j_job_group_id := Some (dj_job_group_id db), j_stage_config_id := dj_stage_config_id db,
       j_stage_name := Some (dj_stage_name db), j_pre_script := dj_pre_script db, j_post_script := dj_post_script db,
       j_exit_code := dj_exit_code db, j_pre_exit_code := dj_pre_exit_code db, j_post_exit_code := dj_post_exit_code db,
       j_log_path := dj_log_path db, j_started_at := dj_started_at db, j_completed_at := dj_completed_at db,
       j_status_reason := dj_status_reason db, j_created_at := dj_created_at db, j_updated_at := dj_updated_at db \<rparr>"

definition worker_row_to_state :: "WorkerRow \<Rightarrow> WorkerState" where
  "worker_row_to_state row =
     \<lparr> ws_info =
         \<lparr> wi_worker_id = wr_worker_id row, wi_hostname = unwrap_or [] (wr_hostname row),
           wi_total_cpu = word_of_int (unwrap_or 0 (wr_total_cpu row)),
           wi_total_memory_mb = word_of_int (unwrap_or 0 (wr_total_memory_mb row)),
           wi_total_disk_mb = word_of_int (unwrap_or 0 (wr_total_disk_mb row)),
           wi_disk_type = (if wr_disk_type row = Some ''nvme'' then Nvme else Sata),
           wi_supported_job_types = unwrap_or [] (wr_supported_job_types row), wi_docker_enabled = wr_docker_enabled row,
           wi_labels = [], wi_disk_details = [], wi_priority = wr_priority row,
           wi_max_cpu = map_option word_of_int (wr_max_cpu row), wi_max_memory_mb = map_option word_of_int (wr_max_memory_mb row),
           wi_max_disk_mb = map_option word_of_int (wr_max_disk_mb row), wi_max_cpu_percent = wr_max_cpu_percent row,
           wi_max_memory_percent = wr_max_memory_percent row, wi_max_disk_percent = wr_max_disk_percent row \<rparr>,
       ws_status = Disconnected, ws_last_heartbeat = None, ws_registered_at = wr_registered_at row,
       ws_system_info = wr_system_info row, ws_allocated_cpu = 0, ws_allocated_memory_mb = 0, ws_allocated_disk_mb = 0 \<rparr>"

section \<open>Steps of the recovery\<close>

definition STARTUP_REASON :: string where
  "STARTUP_REASON = ''Reservation expired on startup (stale from previous run)''"

text \<open>A timeout beyond chrono's range is replaced by four hours.\<close>

definition chrono_timeout :: "u64 \<Rightarrow> int" where
  "chrono_timeout secs = (if uint secs > 9223372036854775 then 4 * 3600 * nanos_per_sec else uint secs * nanos_per_sec)"

definition recover_groups :: "RecoveryStore \<Rightarrow> ControllerState \<Rightarrow> ControllerState" where
  "recover_groups ry = map_groups (fold add_group (ok_or_empty (ry_active_job_groups ry)))"

definition expire_group :: "datetime \<Rightarrow> uuid \<Rightarrow> JobGroupRegistry \<Rightarrow> JobGroupRegistry" where
  "expire_group now gid r = set_status_reason gid STARTUP_REASON (snd (update_state now gid GExpired r))"

definition stale_reservations :: "Env \<Rightarrow> datetime \<Rightarrow> JobGroupRegistry \<Rightarrow> (uuid \<times> string option) list" where
  "stale_reservations env now r =
     map (\<lambda>g. (g_id g, g_reserved_worker_id g))
       (filter (\<lambda>g. g_state g = GReserved \<and> now - g_created_at g > chrono_timeout (env_reservation_timeout_secs env))
         (active_groups (env_group_order env (gr_groups r)) r))"

definition persist_expired :: "Env \<Rightarrow> uuid \<times> string option \<Rightarrow> ControllerState \<Rightarrow> ControllerState" where
  "persist_expired env = (\<lambda>(gid, worker_id) cs.
     (let cs = emit_db env (DbUpdateGroupState gid GExpired (Some STARTUP_REASON)) cs;
          cs = emit_db env (DbCancelJobsForGroup gid) cs
      in case worker_id of Some wid \<Rightarrow> emit_redis env (RedisRelease wid gid) cs | None \<Rightarrow> cs))"

definition expire_stale_reservations :: "Env \<Rightarrow> datetime \<Rightarrow> ControllerState \<Rightarrow> ControllerState" where
  "expire_stale_reservations env now cs =
     (let stale_ids = stale_reservations env now (cs_groups cs);
          cs = map_groups (fold (expire_group now) (map fst stale_ids)) cs
      in fold (persist_expired env) stale_ids cs)"

definition recover_jobs :: "Env \<Rightarrow> datetime \<Rightarrow> RecoveryStore \<Rightarrow> ControllerState \<Rightarrow> ControllerState" where
  "recover_jobs env now ry cs =
     (case ry_active_jobs ry of
        Inl _ \<Rightarrow> cs
      | Inr db_jobs \<Rightarrow>
          (let cs = map_jobs (fold (\<lambda>db. add_job (db_job_to_job now db)) db_jobs) cs;
               cs = map_jobs (\<lambda>jr. snd (jr_mark_stale_jobs_unknown (env_job_order env jr) now jr)) cs;
               cs = map_groups (fold (\<lambda>db. add_job_to_group (dj_job_group_id db) (db_job_to_job now db)) db_jobs) cs
           in map_groups (\<lambda>r. snd (gr_mark_stale_jobs_unknown (env_group_order env (gr_groups r)) now r)) cs))"

definition recover_workers :: "RecoveryStore \<Rightarrow> ControllerState \<Rightarrow> ControllerState" where
  "recover_workers ry = map_workers (fold (\<lambda>row. insert_worker_state (worker_row_to_state row)) (ok_or_empty (ry_workers ry)))"

definition restore_group :: "JobGroup \<Rightarrow> WorkerRegistry \<Rightarrow> WorkerRegistry" where
  "restore_group g wr = (case g_reserved_worker_id g of Some wid \<Rightarrow> restore_one wid g wr | None \<Rightarrow> wr)"

definition restore_all_allocations :: "Env \<Rightarrow> ControllerState \<Rightarrow> ControllerState" where
  "restore_all_allocations env cs =
     map_workers (fold restore_group (active_groups (env_group_order env (gr_groups (cs_groups cs))) (cs_groups cs))) cs"

text \<open>Reservation keys whose group is gone or finished are deleted; the TTL checks of the live
  ones only log.\<close>

definition still_active :: "Env \<Rightarrow> JobGroupRegistry \<Rightarrow> string \<Rightarrow> bool" where
  "still_active env r group_id_str =
     (case env_parse_uuid env group_id_str of
        None \<Rightarrow> False
      | Some gid \<Rightarrow> (case gr_groups r gid of Some g \<Rightarrow> \<not> group_is_terminal (g_state g) | None \<Rightarrow> False))"

definition reconcile_redis :: "Env \<Rightarrow> RecoveryStore \<Rightarrow> ControllerState \<Rightarrow> ControllerState" where
  "reconcile_redis env ry cs =
     (if env_redis env
      then fold (\<lambda>(wid, gid). emit (RedisRelease wid gid))
             (filter (\<lambda>(wid, gid). \<not> still_active env (cs_groups cs) gid) (ok_or_empty (ry_reservations ry))) cs
      else cs)"

definition recover :: "Env \<Rightarrow> datetime \<Rightarrow> RecoveryStore \<Rightarrow> ControllerState \<Rightarrow> ControllerState" where
  "recover env now ry cs =
     (if env_storage env = None then cs
      else
        let cs = recover_groups ry cs;
            cs = expire_stale_reservations env now cs;
            cs = recover_jobs env now ry cs;
            cs = recover_workers ry cs;
            cs = restore_all_allocations env cs;
            cs = reconcile_redis env ry cs
        in emit DbCleanupOrphanedJobs cs)"

definition initial_state :: ControllerState where
  "initial_state =
     \<lparr> cs_workers = Map.empty, cs_jobs = Map.empty, cs_groups = JobGroupRegistry_new, cs_logs = LogAggregator_new,
       cs_senders = Map.empty, cs_metrics = Metrics_new, cs_effects = [] \<rparr>"

section \<open>What the recovery leaves\<close>

lemma fold_restore_group:
  "fold restore_group gs wr k =
   map_option (fold (\<lambda>g. take_if_needed (request_of (g_allocated_resources g))) (filter (\<lambda>g. g_reserved_worker_id g = Some k) gs)) (wr k)"
proof (induction gs arbitrary: wr)
  case (Cons g gs)
  have "restore_group g wr k = (if g_reserved_worker_id g = Some k
      then map_option (take_if_needed (request_of (g_allocated_resources g))) (wr k) else wr k)"
    by (cases "g_reserved_worker_id g") (auto simp: restore_group_def restore_one_take hm_modify_apply)
  then show ?case by (cases "wr k") (simp_all add: Cons)
qed (simp add: option.map_id)

lemma fold_persist_frame [simp]:
  "cs_workers (fold (persist_expired env) xs cs) = cs_workers cs \<and> cs_groups (fold (persist_expired env) xs cs) = cs_groups cs
   \<and> cs_jobs (fold (persist_expired env) xs cs) = cs_jobs cs"
  by (induction xs arbitrary: cs) (auto simp: persist_expired_def Let_def split: option.split)

lemma fold_release_frame:
  "cs_workers (fold (\<lambda>(wid, gid). emit (RedisRelease wid gid)) xs cs) = cs_workers cs
   \<and> cs_groups (fold (\<lambda>(wid, gid). emit (RedisRelease wid gid)) xs cs) = cs_groups cs
   \<and> cs_jobs (fold (\<lambda>(wid, gid). emit (RedisRelease wid gid)) xs cs) = cs_jobs cs"
  by (induction xs arbitrary: cs) auto

definition well_formed :: "JobGroupRegistry \<Rightarrow> bool" where
  "well_formed r \<longleftrightarrow> finite (dom (gr_groups r)) \<and> groups.well_keyed r"

lemma well_formed_cong: "gr_groups r' = gr_groups r \<Longrightarrow> well_formed r' = well_formed r"
  by (simp add: well_formed_def groups.well_keyed_def)

lemma well_formed_add: "well_formed r \<Longrightarrow> well_formed (add_group g r)"
  by (simp add: well_formed_def groups.well_keyed_def add_group_def)

lemma well_formed_expire: "well_formed r \<Longrightarrow> well_formed (expire_group now gid r)"
proof -
  have "gr_groups (expire_group now gid r) k = map_option (\<lambda>g. if k = gid then
      (if valid_transition (g_state g) GExpired then enter_state now GExpired g else g)\<lparr> g_status_reason := Some STARTUP_REASON \<rparr> else g)
      (gr_groups r k)" for k
    by (cases "gr_groups r k") (auto simp: expire_group_def set_status_reason_def modify_group_def hm_modify_apply groups_update_state)
  then have "dom (gr_groups (expire_group now gid r)) = dom (gr_groups r)"
    and "\<And>k g. gr_groups (expire_group now gid r) k = Some g \<Longrightarrow> \<exists>g0. gr_groups r k = Some g0 \<and> g_id g = g_id g0"
    by (auto simp: dom_def split: if_splits)
  then show "well_formed r \<Longrightarrow> well_formed (expire_group now gid r)"
    by (fastforce simp: well_formed_def groups.well_keyed_def)
qed

lemma fold_well_formed: "(\<And>x r. well_formed r \<Longrightarrow> well_formed (f x r)) \<Longrightarrow> well_formed r \<Longrightarrow> well_formed (fold f xs r)"
  by (induction xs arbitrary: r) auto

lemma fold_add_jobs_groups: "gr_groups (fold (\<lambda>db. add_job_to_group (f db) (h db)) dbs r) = gr_groups r"
  by (induction dbs arbitrary: r) (simp_all add: add_job_to_group_def)

text \<open>A recovered worker counts nothing as allocated and stands under its own id.\<close>

definition blank :: "string \<Rightarrow> WorkerState \<Rightarrow> bool" where
  "blank k w \<longleftrightarrow> ws_allocated_cpu w = 0 \<and> ws_allocated_memory_mb w = 0 \<and> wi_worker_id (ws_info w) = k"

lemma fold_insert_blank:
  assumes "\<And>k w. wr k = Some w \<Longrightarrow> blank k w"
  shows "fold (\<lambda>row. insert_worker_state (worker_row_to_state row)) rows wr k = Some w \<Longrightarrow> blank k w"
  using assms
proof (induction rows arbitrary: wr)
  case (Cons row rows)
  show ?case
    by (rule Cons.IH [of "insert_worker_state (worker_row_to_state row) wr"])
      (use Cons.prems in \<open>auto simp: insert_worker_state_def worker_row_to_state_def blank_def split: if_splits\<close>)
qed simp

text \<open>The state just before the allocations are put back.\<close>

definition loaded :: "Env \<Rightarrow> datetime \<Rightarrow> RecoveryStore \<Rightarrow> ControllerState" where
  "loaded env now ry =
     recover_workers ry (recover_jobs env now ry (expire_stale_reservations env now (recover_groups ry initial_state)))"

lemma loaded_groups: "well_formed (cs_groups (loaded env now ry))"
proof -
  let ?cs = "expire_stale_reservations env now (recover_groups ry initial_state)"
  have "well_formed (cs_groups (recover_groups ry initial_state))"
    unfolding recover_groups_def map_state_frame
    by (rule fold_well_formed [OF well_formed_add]) (simp_all add: well_formed_def initial_state_def JobGroupRegistry_new_def groups.well_keyed_def)
  then have "well_formed (cs_groups ?cs)"
    by (simp add: expire_stale_reservations_def Let_def fold_well_formed well_formed_expire)
  moreover have eq: "gr_groups (cs_groups (loaded env now ry)) = gr_groups (cs_groups ?cs)"
    by (simp add: loaded_def recover_workers_def recover_jobs_def Let_def gr_mark_stale_jobs_unknown_def fold_add_jobs_groups split: sum.split)
  ultimately show ?thesis unfolding well_formed_cong [OF eq] by simp
qed

lemma loaded_workers: "cs_workers (loaded env now ry) k = Some w \<Longrightarrow> blank k w"
proof -
  have "cs_workers (recover_jobs env now ry (expire_stale_reservations env now (recover_groups ry initial_state))) = Map.empty"
    by (simp add: recover_jobs_def expire_stale_reservations_def recover_groups_def initial_state_def Let_def split: sum.split)
  then show "cs_workers (loaded env now ry) k = Some w \<Longrightarrow> blank k w"
    using fold_insert_blank [of Map.empty "ok_or_empty (ry_workers ry)" k w] by (simp add: loaded_def recover_workers_def)
qed

lemma recover_frame:
  assumes "env_storage env \<noteq> None"
  shows "cs_groups (recover env now ry initial_state) = cs_groups (loaded env now ry)"
    and "cs_workers (recover env now ry initial_state) =
         fold restore_group (active_groups (env_group_order env (gr_groups (cs_groups (loaded env now ry)))) (cs_groups (loaded env now ry)))
           (cs_workers (loaded env now ry))"
    and "cs_jobs (recover env now ry initial_state) = cs_jobs (loaded env now ry)"
proof -
  have "recover env now ry initial_state =
      emit DbCleanupOrphanedJobs (reconcile_redis env ry (restore_all_allocations env (loaded env now ry)))"
    using assms by (auto simp: recover_def Let_def loaded_def)
  then show "cs_groups (recover env now ry initial_state) = cs_groups (loaded env now ry)"
    "cs_workers (recover env now ry initial_state) =
         fold restore_group (active_groups (env_group_order env (gr_groups (cs_groups (loaded env now ry)))) (cs_groups (loaded env now ry)))
           (cs_workers (loaded env now ry))"
    "cs_jobs (recover env now ry initial_state) = cs_jobs (loaded env now ry)"
    by (simp_all add: reconcile_redis_def fold_release_frame restore_all_allocations_def)
qed

text \<open>A restart leaves the accounts balanced.  Whatever rows the database holds, if every
  recovered worker can carry what the unfinished groups reserved on it hold, then after the
  recovery each worker's counters are exactly that sum.\<close>

lemma recover_accounts:
  assumes "env_storage env \<noteq> None"
    and "hm_order (env_group_order env (gr_groups (cs_groups (recover env now ry initial_state))))
           (gr_groups (cs_groups (recover env now ry initial_state)))"
    and "\<forall>wid w. cs_workers (recover env now ry initial_state) wid = Some w \<longrightarrow>
           carries (gr_groups (cs_groups (recover env now ry initial_state))) wid w"
  shows "accounts_ok (recover env now ry initial_state)"
proof -
  let ?gr = "gr_groups (cs_groups (loaded env now ry))" and ?cs = "recover env now ry initial_state"
  note fr = recover_frame [OF assms(1), of now ry]
  have ord: "hm_order (env_group_order env ?gr) ?gr" using assms(2) by (simp add: fr(1))
  have held: "filter (\<lambda>g. g_reserved_worker_id g = Some k) (active_groups (env_group_order env ?gr) (cs_groups (loaded env now ry)))
      = filter (holds k) (hm_values (env_group_order env ?gr) ?gr)" for k
    by (auto simp: active_groups_def holds_def intro: filter_cong)
  have "unat (ws_allocated_cpu w) = cpu_account.due ?gr k \<and> unat (ws_allocated_memory_mb w) = memory_account.due ?gr k"
    if w: "cs_workers ?cs k = Some w" for k w
  proof -
    obtain w0 where w0: "cs_workers (loaded env now ry) k = Some w0"
      "w = fold (\<lambda>g. take_if_needed (request_of (g_allocated_resources g))) (filter (holds k) (hm_values (env_group_order env ?gr) ?gr)) w0"
      using w by (auto simp: fr(2) fold_restore_group held)
    have "carries ?gr k w" using assms(3) w by (simp add: fr(1))
    with restored_due [OF ord _ _ _ w0(2)] loaded_workers [OF w0(1)] show ?thesis by (simp add: blank_def)
  qed
  then show ?thesis
    using loaded_groups [of env now ry]
    by (simp add: accounts_ok_def fr(1) cpu_account.balanced_def memory_account.balanced_def well_formed_def)
qed

definition sample_row :: WorkerRow where
  "sample_row =
     \<lparr> wr_worker_id = ''w1'', wr_hostname = Some ''h1'', wr_total_cpu = Some 8, wr_total_memory_mb = Some 16000,
       wr_total_disk_mb = Some 1000, wr_disk_type = Some ''nvme'', wr_supported_job_types = Some [''common''],
       wr_docker_enabled = True, wr_status = ''connected'', wr_last_heartbeat_at = None, wr_registered_at = 0,
       wr_labels = None, wr_system_info = None, wr_worker_token_hash = Some ''h'', wr_registration_token_id = None,
       wr_approved = True, wr_description = None, wr_priority = 0, wr_max_cpu = None, wr_max_memory_mb = None,
       wr_max_disk_mb = None, wr_max_cpu_percent = None, wr_max_memory_percent = None, wr_max_disk_percent = None \<rparr>"

definition sample_db_job :: "string \<Rightarrow> string \<Rightarrow> DbJob" where
  "sample_db_job stage state =
     \<lparr> dj_id = ''v5-g1-'' @ stage, dj_job_group_id = ''g1'', dj_stage_config_id = None, dj_stage_name = stage,
       dj_command = ''make'', dj_pre_script = None, dj_post_script = None, dj_worker_id = Some ''w1'', dj_state = state,
       dj_exit_code = None, dj_pre_exit_code = None, dj_post_exit_code = None, dj_log_path = None, dj_started_at = None,
       dj_completed_at = None, dj_retry_count = 0, dj_status_reason = None, dj_created_at = 0, dj_updated_at = 0 \<rparr>"

definition sample_recovery :: RecoveryStore where
  "sample_recovery =
     \<lparr> ry_worker_tokens = Inr [],
       ry_active_job_groups = Inr [(sample_group GRunning)\<lparr> g_reserved_worker_id := Some ''w1'',
         g_allocated_resources := \<lparr> ar_cpu = 2, ar_memory_mb = 1000, ar_disk_mb = 0 \<rparr> \<rparr>],
       ry_active_jobs = Inr [sample_db_job ''build'' ''running'', sample_db_job ''test'' ''running''],
       ry_workers = Inr [sample_row], ry_reservations = Inr [] \<rparr>"

lemma sample_recovered:
  "gr_groups (cs_groups (recover sample_db_env 7 sample_recovery initial_state)) =
     [''g1'' \<mapsto> (sample_group GRunning)\<lparr> g_reserved_worker_id := Some ''w1'',
         g_allocated_resources := \<lparr> ar_cpu = 2, ar_memory_mb = 1000, ar_disk_mb = 0 \<rparr> \<rparr>]"
  unfolding recover_frame(1) [of sample_db_env, simplified]
  by (simp add: loaded_def recover_workers_def recover_jobs_def recover_groups_def sample_recovery_def
      ok_or_empty_def expire_stale_reservations_def stale_reservations_def initial_state_def JobGroupRegistry_new_def
      add_group_def active_groups_def Let_def sample_group_defs gr_mark_stale_jobs_unknown_def add_job_to_group_def)

lemma recover_workers_keyed:
  assumes "env_storage env \<noteq> None"
  shows "workers.well_keyed (cs_workers (recover env now ry initial_state))"
  unfolding workers.well_keyed_def
proof (intro allI impI)
  fix k w assume "cs_workers (recover env now ry initial_state) k = Some w"
  then obtain gs :: "JobGroup list" and w0 where w0: "cs_workers (loaded env now ry) k = Some w0"
    "w = fold (\<lambda>g. take_if_needed (request_of (g_allocated_resources g))) gs w0"
    by (auto simp: recover_frame(2) [OF assms] fold_restore_group)
  then show "wi_worker_id (ws_info w) = k"
    using loaded_workers [OF w0(1)] fold_take_same_machine [of w0 gs] by (simp add: blank_def same_machine_def)
qed

lemma sample_recovered_worker:
  "map_option (\<lambda>w. (ws_allocated_cpu w, cpu_cap w, memory_cap w, free_disk_mb w))
     (cs_workers (recover sample_db_env 7 sample_recovery initial_state) ''w1'') = Some (2, 8, 16000, 1000)"
  by code_simp

lemma sample_recovered_only:
  "cs_workers (recover sample_db_env 7 sample_recovery initial_state) wid = Some w \<Longrightarrow> wid = ''w1''"
  unfolding recover_frame(2) [of sample_db_env, simplified]
  by (simp add: fold_restore_group loaded_def recover_workers_def recover_jobs_def recover_groups_def
      sample_recovery_def ok_or_empty_def expire_stale_reservations_def initial_state_def insert_worker_state_def
      worker_row_to_state_def sample_row_def Let_def split: if_splits)

lemma sample_recovered_carries:
  "cs_workers (recover sample_db_env 7 sample_recovery initial_state) wid = Some w \<Longrightarrow>
   carries (gr_groups (cs_groups (recover sample_db_env 7 sample_recovery initial_state))) wid w"
  using sample_recovered_worker sample_recovered_only [of wid w]
  by (auto simp: carries_def sample_recovered cpu_account.due_def memory_account.due_def msum_def holds_def
      sample_group_def JobGroup_new_def group_is_terminal_def)

text \<open>A restart in the middle of a group: both stages were running, the worker reports the first
  one as successful, and the group ends as a success while the outcome of the second is unknown.\<close>

theorem restart_completes_unknown_stage:
  "let cs = recover sample_db_env 7 sample_recovery initial_state;
       cs' = snd (report_status sample_db_env 9 (failed_report\<lparr> su_job_id := ''g1-build'', su_state := 4, su_exit_code := 0 \<rparr>) cs)
   in map_option g_state (gr_groups (cs_groups cs') ''g1'') = Some GSuccess
    \<and> map (\<lambda>j. (j_stage_name j, j_state j)) (get_jobs_for_group ''g1'' (cs_groups cs'))
        = [(Some ''build'', JSuccess), (Some ''test'', JUnknown)]"
  by code_simp

end
