(* ===== verification/Book.thy ===== *)
theory Book
  imports Accounts
begin

text \<open>
  The contract of the controller as a bookkeeper.  A book holds the share of every
  unfinished group and the counters of every worker; each entry is one abstract
  operation on it.  Entries that give a share and return it keep the book exact, the two
  kinds of entry that lose a share only ever leave the counters too high.  A controller state
  is abstracted to a book, and \<open>books es cs cs'\<close> says that a change of state is the posting
  of the entries \<open>es\<close>.
\<close>

section \<open>Books and entries\<close>

type_synonym amounts = "nat \<times> nat"
type_synonym share = "string option \<times> amounts"

record Book =
  bk_held :: "uuid \<rightharpoonup> share"
  bk_used :: "string \<rightharpoonup> amounts"

datatype entry =
    Grant uuid string amounts
  | Settle uuid
  | Vacant uuid
  | Enter string
  | Balance
  | Leak string amounts
  | Abandon uuid

definition owed :: "(amounts \<Rightarrow> nat) \<Rightarrow> (uuid \<rightharpoonup> share) \<Rightarrow> string \<Rightarrow> nat" where
  "owed f held wid = msum (\<lambda>s. if fst s = Some wid then f (snd s) else 0) held"

definition owed_both :: "(uuid \<rightharpoonup> share) \<Rightarrow> string \<Rightarrow> amounts" where
  "owed_both held wid = (owed fst held wid, owed snd held wid)"

definition add_amounts :: "amounts \<Rightarrow> amounts \<Rightarrow> amounts" where
  "add_amounts a b = (fst a + fst b, snd a + snd b)"

definition sub_amounts :: "amounts \<Rightarrow> amounts \<Rightarrow> amounts" where
  "sub_amounts a b = (fst a - fst b, snd a - snd b)"

definition give_back :: "share \<Rightarrow> (string \<rightharpoonup> amounts) \<Rightarrow> (string \<rightharpoonup> amounts)" where
  "give_back s used =
     (case fst s of Some wid \<Rightarrow> hm_modify wid (\<lambda>u. sub_amounts u (snd s)) used | None \<Rightarrow> used)"

fun post :: "entry \<Rightarrow> Book \<Rightarrow> Book option" where
  "post (Grant gid wid a) b =
     (case (bk_held b gid, bk_used b wid) of
        (None, Some u) \<Rightarrow> Some \<lparr> bk_held = (bk_held b)(gid \<mapsto> (Some wid, a)), bk_used = (bk_used b)(wid \<mapsto> add_amounts u a) \<rparr>
      | _ \<Rightarrow> None)"
| "post (Settle gid) b =
     (case bk_held b gid of
        Some s \<Rightarrow> Some \<lparr> bk_held = (bk_held b)(gid := None), bk_used = give_back s (bk_used b) \<rparr>
      | None \<Rightarrow> None)"
| "post (Vacant gid) b =
     (case bk_held b gid of
        Some (Some _, _) \<Rightarrow> None
      | _ \<Rightarrow> Some (b\<lparr> bk_held := (bk_held b)(gid \<mapsto> (None, (0, 0))) \<rparr>))"
| "post (Enter wid) b = Some (b\<lparr> bk_used := (bk_used b)(wid \<mapsto> owed_both (bk_held b) wid) \<rparr>)"
| "post Balance b = Some (b\<lparr> bk_used := (\<lambda>k. map_option (\<lambda>_. owed_both (bk_held b) k) (bk_used b k)) \<rparr>)"
| "post (Leak wid a) b =
     (case bk_used b wid of
        Some u \<Rightarrow> Some (b\<lparr> bk_used := (bk_used b)(wid \<mapsto> add_amounts u a) \<rparr>)
      | None \<Rightarrow> None)"
| "post (Abandon gid) b =
     (case bk_held b gid of Some s \<Rightarrow> Some (b\<lparr> bk_held := (bk_held b)(gid := None) \<rparr>) | None \<Rightarrow> None)"

primrec post_all :: "entry list \<Rightarrow> Book \<Rightarrow> Book option" where
  "post_all [] b = Some b"
| "post_all (e # es) b = (case post e b of Some b' \<Rightarrow> post_all es b' | None \<Rightarrow> None)"

primrec loses :: "entry \<Rightarrow> bool" where
  "loses (Grant _ _ _) = False"
| "loses (Settle _) = False"
| "loses (Vacant _) = False"
| "loses (Enter _) = False"
| "loses Balance = False"
| "loses (Leak _ _) = True"
| "loses (Abandon _) = True"

definition solvent :: "Book \<Rightarrow> bool" where
  "solvent b \<longleftrightarrow> finite (dom (bk_held b)) \<and> (\<forall>wid u. bk_used b wid = Some u \<longrightarrow>
     owed fst (bk_held b) wid \<le> fst u \<and> owed snd (bk_held b) wid \<le> snd u)"

definition exact :: "Book \<Rightarrow> bool" where
  "exact b \<longleftrightarrow> finite (dom (bk_held b)) \<and> (\<forall>wid u. bk_used b wid = Some u \<longrightarrow> u = owed_both (bk_held b) wid)"

section \<open>Entries keep books solvent\<close>

lemma post_all_append:
  "post_all (es @ fs) b = (case post_all es b of Some b' \<Rightarrow> post_all fs b' | None \<Rightarrow> None)"
  by (induction es arbitrary: b) (auto split: option.split)

lemma exact_solvent: "exact b \<Longrightarrow> solvent b"
  by (auto simp: exact_def solvent_def owed_both_def)

lemma owed_grant:
  "finite (dom h) \<Longrightarrow> h gid = None \<Longrightarrow> owed f (h(gid \<mapsto> s)) wid = owed f h wid + (if fst s = Some wid then f (snd s) else 0)"
  by (simp add: owed_def msum_upd_new)

lemma owed_drop:
  assumes "finite (dom h)" "h gid = Some s"
  shows "owed f (h(gid := None)) wid + (if fst s = Some wid then f (snd s) else 0) = owed f h wid"
proof -
  have "owed f ((h(gid := None))(gid \<mapsto> s)) wid = owed f (h(gid := None)) wid + (if fst s = Some wid then f (snd s) else 0)"
    by (rule owed_grant) (use assms(1) in \<open>auto intro: finite_subset\<close>)
  moreover have "(h(gid := None))(gid \<mapsto> s) = h" using assms(2) by (auto simp: fun_eq_iff)
  ultimately show ?thesis by simp
qed

lemma owed_drop_le:
  assumes "finite (dom h)" "h gid = Some s"
  shows "owed f (h(gid := None)) wid \<le> owed f h wid"
  using owed_drop [OF assms, of f wid] by linarith

lemma owed_vacant:
  assumes "finite (dom h)" "\<And>w a. h gid \<noteq> Some (Some w, a)"
  shows "owed f (h(gid \<mapsto> (None, a))) wid = owed f h wid"
proof (cases "h gid")
  case None
  then show ?thesis using owed_grant [OF assms(1) None, of f "(None, a)" wid] by simp
next
  case (Some s)
  then have s: "fst s = None" using assms(2) by (cases s; cases "fst s") auto
  have "owed f (h(gid \<mapsto> (None, a))) wid + 0 = owed f h wid + 0"
    using msum_upd [OF assms(1) Some, of "\<lambda>s. if fst s = Some wid then f (snd s) else 0" "(None, a)"] s
    by (simp add: owed_def)
  then show ?thesis by simp
qed

lemma give_back_apply:
  "give_back s used k = (if fst s = Some k then map_option (\<lambda>u. sub_amounts u (snd s)) (used k) else used k)"
  by (auto simp: give_back_def hm_modify_apply split: option.split)

lemmas amounts_simps = add_amounts_def sub_amounts_def owed_both_def

text \<open>One entry, with the counters compared to the holdings by \<open>R\<close>: equality for exact books,
  at most for solvent ones.\<close>

lemma post_compare:
  assumes "post e b = Some b'" "finite (dom (bk_held b))" "f = fst \<or> f = snd"
    and "\<And>wid u. bk_used b wid = Some u \<Longrightarrow> R (owed f (bk_held b) wid) (f u)"
    and R: "\<And>x. R x x" "\<And>x y z. R x y \<Longrightarrow> R (x + z) (y + z)" "\<And>x y z. R (x + z) y \<Longrightarrow> R x (y - z)"
    and lost: "loses e \<Longrightarrow> R = (\<le>)"
  shows "\<And>wid u. bk_used b' wid = Some u \<Longrightarrow> R (owed f (bk_held b') wid) (f u)"
proof -
  fix wid u assume u: "bk_used b' wid = Some u"
  have fa: "f (add_amounts x y) = f x + f y" "f (sub_amounts x y) = f x - f y" "f (owed_both h k) = owed f h k" for x y h k
    using assms(3) by (auto simp: amounts_simps)
  show "R (owed f (bk_held b') wid) (f u)"
  proof (cases e)
    case (Grant gid w a)
    then obtain v where v: "bk_held b gid = None" "bk_used b w = Some v"
      and b': "b' = \<lparr> bk_held = (bk_held b)(gid \<mapsto> (Some w, a)), bk_used = (bk_used b)(w \<mapsto> add_amounts v a) \<rparr>"
      using assms(1) by (auto split: option.splits)
    have "owed f (bk_held b') wid = owed f (bk_held b) wid + (if w = wid then f a else 0)"
      by (simp add: b' owed_grant [OF assms(2) v(1)])
    then show ?thesis using u assms(4) [of wid u] R(2) [OF assms(4) [OF v(2)], of "f a"] by (auto simp: b' fa split: if_splits)
  next
    case (Settle gid)
    then obtain s where s: "bk_held b gid = Some s"
      and b': "b' = \<lparr> bk_held = (bk_held b)(gid := None), bk_used = give_back s (bk_used b) \<rparr>"
      using assms(1) by (auto split: option.splits)
    have o: "owed f (bk_held b') wid + (if fst s = Some wid then f (snd s) else 0) = owed f (bk_held b) wid"
      by (simp add: b' owed_drop [OF assms(2) s])
    show ?thesis
    proof (cases "fst s = Some wid")
      case True
      then obtain v where "bk_used b wid = Some v" "u = sub_amounts v (snd s)" using u by (auto simp: b' give_back_apply)
      then show ?thesis using R(3) [of "owed f (bk_held b') wid" "f (snd s)" "f v"] o assms(4) [of wid v] True by (simp add: fa)
    next
      case False
      then show ?thesis using u o assms(4) [of wid u] by (simp add: b' give_back_apply)
    qed
  next
    case (Vacant gid)
    then have b': "b' = b\<lparr> bk_held := (bk_held b)(gid \<mapsto> (None, (0, 0))) \<rparr>" and "\<And>w a. bk_held b gid \<noteq> Some (Some w, a)"
      using assms(1) by (auto split: option.splits prod.splits)
    then have "owed f (bk_held b') wid = owed f (bk_held b) wid" by (simp add: b' owed_vacant [OF assms(2)])
    then show ?thesis using u assms(4) by (simp add: b')
  next
    case (Enter w)
    then show ?thesis using assms(1) assms(4) [of wid u] u R(1) by (auto simp: fa split: if_splits)
  next
    case Balance
    then show ?thesis using assms(1) u R(1) by (auto simp: fa)
  next
    case (Leak w a)
    then obtain v where v: "bk_used b w = Some v" and b': "b' = b\<lparr> bk_used := (bk_used b)(w \<mapsto> add_amounts v a) \<rparr>"
      using assms(1) by (auto split: option.splits)
    then show ?thesis using u assms(4) [OF v] assms(4) [of wid u] lost Leak by (auto simp: b' fa split: if_splits)
  next
    case (Abandon gid)
    then obtain s where s: "bk_held b gid = Some s" and b': "b' = b\<lparr> bk_held := (bk_held b)(gid := None) \<rparr>"
      using assms(1) by (auto split: option.splits)
    then show ?thesis using u assms(4) [of wid u] lost Abandon owed_drop_le [OF assms(2) s, of f wid] by simp
  qed
qed

lemma post_finite:
  assumes "post e b = Some b'" "finite (dom (bk_held b))"
  shows "finite (dom (bk_held b'))"
  using assms by (cases e) (auto split: option.splits prod.splits intro: finite_subset [of _ "dom (bk_held b)"])

lemma post_solvent:
  assumes "post e b = Some b'" "solvent b"
  shows "solvent b'"
proof -
  have "owed f (bk_held b') wid \<le> f u" if "bk_used b' wid = Some u" "f = fst \<or> f = snd" for wid u f
    by (rule post_compare [OF assms(1) _ that(2) _ _ _ _ _ that(1), where R = "(\<le>)"])
      (use assms(2) that(2) in \<open>auto simp: solvent_def\<close>)
  then show ?thesis using post_finite [OF assms(1)] assms(2) by (auto simp: solvent_def)
qed

lemma post_exact:
  assumes "post e b = Some b'" "exact b" "\<not> loses e"
  shows "exact b'"
proof -
  have "owed f (bk_held b') wid = f u" if "bk_used b' wid = Some u" "f = fst \<or> f = snd" for wid u f
    by (rule post_compare [OF assms(1) _ that(2) _ _ _ _ _ that(1), where R = "(=)"])
      (use assms(2,3) that(2) in \<open>auto simp: exact_def owed_both_def\<close>)
  then show ?thesis using post_finite [OF assms(1)] assms(2) by (auto simp: exact_def owed_both_def prod_eq_iff)
qed

lemma post_balance_exact: "post Balance b = Some b' \<Longrightarrow> finite (dom (bk_held b)) \<Longrightarrow> exact b'"
  by (auto simp: exact_def)

lemma post_all_solvent: "post_all es b = Some b' \<Longrightarrow> solvent b \<Longrightarrow> solvent b'"
  by (induction es arbitrary: b) (auto split: option.splits dest: post_solvent)

lemma post_all_exact: "post_all es b = Some b' \<Longrightarrow> exact b \<Longrightarrow> \<forall>e \<in> set es. \<not> loses e \<Longrightarrow> exact b'"
  by (induction es arbitrary: b) (auto split: option.splits dest: post_exact)

section \<open>The book of a controller state\<close>

definition share_of :: "JobGroup \<Rightarrow> share" where
  "share_of g = (g_reserved_worker_id g, (unat (ar_cpu (g_allocated_resources g)), unat (ar_memory_mb (g_allocated_resources g))))"

definition held_of :: "(uuid \<rightharpoonup> JobGroup) \<Rightarrow> (uuid \<rightharpoonup> share)" where
  "held_of gr k =
     (case gr k of Some g \<Rightarrow> if group_is_terminal (g_state g) then None else Some (share_of g) | None \<Rightarrow> None)"

definition counters :: "WorkerState \<Rightarrow> amounts" where
  "counters w = (unat (ws_allocated_cpu w), unat (ws_allocated_memory_mb w))"

definition used_of :: "WorkerRegistry \<Rightarrow> (string \<rightharpoonup> amounts)" where
  "used_of wr k = map_option counters (wr k)"

definition book :: "ControllerState \<Rightarrow> Book" where
  "book cs = \<lparr> bk_held = held_of (gr_groups (cs_groups cs)), bk_used = used_of (cs_workers cs) \<rparr>"

definition well_kept :: "ControllerState \<Rightarrow> bool" where
  "well_kept cs \<longleftrightarrow> finite (dom (gr_groups (cs_groups cs))) \<and> groups.well_keyed (cs_groups cs)
     \<and> workers.well_keyed (cs_workers cs) \<and> solvent (book cs)"

definition books :: "entry list \<Rightarrow> ControllerState \<Rightarrow> ControllerState \<Rightarrow> bool" where
  "books es cs cs' \<longleftrightarrow> (well_kept cs \<longrightarrow> well_kept cs' \<and> post_all es (book cs) = Some (book cs'))"

lemma book_simps [simp]:
  "bk_held (book cs) = held_of (gr_groups (cs_groups cs))" "bk_used (book cs) = used_of (cs_workers cs)"
  by (simp_all add: book_def)

lemma owed_held_of:
  assumes "finite (dom gr)"
  shows "owed fst (held_of gr) wid = cpu_account.due gr wid" "owed snd (held_of gr) wid = memory_account.due gr wid"
proof -
  have "owed f (held_of gr) wid = (\<Sum>k \<in> dom gr. if holds wid (the (gr k)) then f (snd (share_of (the (gr k)))) else 0)" for f
    unfolding owed_def msum_def
  proof (rule sum.mono_neutral_cong_left)
    show "dom (held_of gr) \<subseteq> dom gr" by (auto simp: held_of_def split: option.splits)
    show "\<forall>k \<in> dom gr - dom (held_of gr). (if holds wid (the (gr k)) then f (snd (share_of (the (gr k)))) else 0) = 0"
      by (auto simp: held_of_def holds_def split: if_splits)
    show "(if fst (the (held_of gr k)) = Some wid then f (snd (the (held_of gr k))) else 0)
        = (if holds wid (the (gr k)) then f (snd (share_of (the (gr k)))) else 0)" if "k \<in> dom (held_of gr)" for k
      using that by (auto simp: held_of_def holds_def share_of_def split: option.splits if_splits)
  qed (use assms in simp)
  then show "owed fst (held_of gr) wid = cpu_account.due gr wid" "owed snd (held_of gr) wid = memory_account.due gr wid"
    by (simp_all add: cpu_account.due_def memory_account.due_def msum_def share_of_def if_distrib cong: if_cong)
qed

lemma book_exact: "accounts_ok cs \<longleftrightarrow> finite (dom (gr_groups (cs_groups cs))) \<and> groups.well_keyed (cs_groups cs) \<and> exact (book cs)"
proof -
  have "finite (dom (held_of gr))" if "finite (dom gr)" for gr
    by (rule finite_subset [OF _ that]) (auto simp: held_of_def split: option.splits)
  then show ?thesis
    by (auto simp: accounts_ok_def exact_def cpu_account.balanced_def memory_account.balanced_def used_of_def counters_def
        owed_both_def owed_held_of)
qed

lemma well_kept_exact: "accounts_ok cs \<Longrightarrow> workers.well_keyed (cs_workers cs) \<Longrightarrow> well_kept cs"
  using book_exact [of cs] exact_solvent by (auto simp: well_kept_def)

lemma well_keptD:
  assumes "well_kept cs"
  shows "finite (dom (gr_groups (cs_groups cs)))" "groups.well_keyed (cs_groups cs)" "workers.well_keyed (cs_workers cs)"
    "solvent (book cs)"
  using assms by (simp_all add: well_kept_def)

lemma well_kept_due:
  assumes "well_kept cs" "cs_workers cs wid = Some w"
  shows "cpu_account.due (gr_groups (cs_groups cs)) wid \<le> unat (ws_allocated_cpu w)"
    "memory_account.due (gr_groups (cs_groups cs)) wid \<le> unat (ws_allocated_memory_mb w)"
  using assms well_keptD(4) [OF assms(1)] owed_held_of [OF well_keptD(1) [OF assms(1)]]
  by (auto simp: solvent_def used_of_def counters_def)

lemma booksI:
  assumes "well_kept cs \<Longrightarrow> post_all es (book cs) = Some (book cs')"
    and "well_kept cs \<Longrightarrow> finite (dom (gr_groups (cs_groups cs'))) \<and> groups.well_keyed (cs_groups cs') \<and> workers.well_keyed (cs_workers cs')"
  shows "books es cs cs'"
  using assms post_all_solvent [of es "book cs" "book cs'"] by (auto simp: books_def well_kept_def)

lemma books_trans: "books es cs cs1 \<Longrightarrow> books fs cs1 cs2 \<Longrightarrow> books (es @ fs) cs cs2"
  by (simp add: books_def post_all_append)

lemma books_refl [simp]: "books [] cs cs"
  by (simp add: books_def)

section \<open>Moves of the handlers as entries\<close>

text \<open>Equal books, with the same groups up to finished ones.\<close>

lemma books_idle:
  assumes "\<And>k. held_of (gr_groups (cs_groups cs')) k = held_of (gr_groups (cs_groups cs)) k"
    and "\<And>k w'. cs_workers cs' k = Some w' \<Longrightarrow> \<exists>w. cs_workers cs k = Some w \<and> counters w' = counters w
           \<and> wi_worker_id (ws_info w') = wi_worker_id (ws_info w)"
    and "\<And>k w. cs_workers cs k = Some w \<Longrightarrow> cs_workers cs' k \<noteq> None"
    and "\<And>k g'. gr_groups (cs_groups cs') k = Some g' \<Longrightarrow> \<exists>g. gr_groups (cs_groups cs) k = Some g \<and> g_id g' = g_id g"
  shows "books [] cs cs'"
proof (rule booksI)
  have "used_of (cs_workers cs') k = used_of (cs_workers cs) k" for k
    using assms(2) [of k] assms(3) [of k] by (cases "cs_workers cs k"; cases "cs_workers cs' k") (auto simp: used_of_def)
  then show "post_all [] (book cs) = Some (book cs')"
    using assms(1) by (simp add: book_def fun_eq_iff)
next
  assume wk: "well_kept cs"
  have "dom (gr_groups (cs_groups cs')) \<subseteq> dom (gr_groups (cs_groups cs))" using assms(4) by blast
  moreover have "g_id g = k" if "gr_groups (cs_groups cs') k = Some g" for k g
    using assms(4) [OF that] well_keptD(2) [OF wk] by (auto simp: groups.well_keyed_def)
  moreover have "wi_worker_id (ws_info w) = k" if "cs_workers cs' k = Some w" for k w
    using assms(2) [OF that] well_keptD(3) [OF wk] by (auto simp: workers.well_keyed_def)
  ultimately show "finite (dom (gr_groups (cs_groups cs'))) \<and> groups.well_keyed (cs_groups cs') \<and> workers.well_keyed (cs_workers cs')"
    using finite_subset well_keptD(1) [OF wk] by (simp add: groups.well_keyed_def workers.well_keyed_def)
qed

lemma books_keeps:
  assumes "keeps_holdings cs cs'"
  shows "books [] cs cs'"
proof (rule booksI)
  show "post_all [] (book cs) = Some (book cs')"
  proof -
    have "held_of (gr_groups (cs_groups cs')) k = held_of (gr_groups (cs_groups cs)) k" for k
      using assms [unfolded keeps_holdings_def, THEN conjunct2, THEN spec, of k]
      by (cases "gr_groups (cs_groups cs) k") (auto simp: held_of_def [of _ k] same_holding_def share_of_def)
    then have "held_of (gr_groups (cs_groups cs')) = held_of (gr_groups (cs_groups cs))" by blast
    then show ?thesis using assms by (simp add: book_def keeps_holdings_def)
  qed
  assume wk: "well_kept cs"
  have "g_id v = k" if v: "gr_groups (cs_groups cs') k = Some v" for k v
    using assms [unfolded keeps_holdings_def, THEN conjunct2, THEN spec, of k] v well_keptD(2) [OF wk]
    by (auto simp: groups.well_keyed_def split: option.splits)
  then show "finite (dom (gr_groups (cs_groups cs'))) \<and> groups.well_keyed (cs_groups cs') \<and> workers.well_keyed (cs_workers cs')"
    using wk assms keeps_holdings_dom [OF assms] by (simp add: well_kept_def keeps_holdings_def groups.well_keyed_def)
qed

lemma books_frame:
  "cs_workers cs' = cs_workers cs \<Longrightarrow> gr_groups (cs_groups cs') = gr_groups (cs_groups cs) \<Longrightarrow> books [] cs cs'"
  by (rule books_keeps) simp

lemma used_release:
  "used_of (release_worker wid a wr) = hm_modify wid (\<lambda>u. sub_amounts u (unat (ar_cpu a), unat (ar_memory_mb a))) (used_of wr)"
proof
  show "used_of (release_worker wid a wr) k =
    hm_modify wid (\<lambda>u. sub_amounts u (unat (ar_cpu a), unat (ar_memory_mb a))) (used_of wr) k" for k
    by (cases "wr wid") (auto simp: used_of_def release_worker_apply hm_modify_apply counters_def sub_amounts_def release_def sat_simps)
qed

lemma held_of_upd:
  "held_of (gr(gid \<mapsto> g)) = (if group_is_terminal (g_state g) then (held_of gr)(gid := None) else (held_of gr)(gid \<mapsto> share_of g))"
  by (auto simp: held_of_def fun_eq_iff)

lemma well_keyed_release: "workers.well_keyed wr \<Longrightarrow> workers.well_keyed (release_worker wid a wr)"
  by (auto simp: workers.well_keyed_def release_worker_apply release_def split: if_splits)

lemma books_settles:
  assumes "settles cs gid g cs'"
  shows "books [Settle gid] cs cs'"
proof (rule booksI)
  obtain g' where g: "gr_groups (cs_groups cs) gid = Some g" "\<not> group_is_terminal (g_state g)"
    and g': "gr_groups (cs_groups cs') = (gr_groups (cs_groups cs))(gid \<mapsto> g')" "group_is_terminal (g_state g')" "g_id g' = g_id g"
    and w: "cs_workers cs' = (case g_reserved_worker_id g of
           Some wid \<Rightarrow> release_worker wid (g_allocated_resources g) (cs_workers cs) | None \<Rightarrow> cs_workers cs)"
    using assms by (auto simp: settles_def)
  have "held_of (gr_groups (cs_groups cs)) gid = Some (share_of g)" using g by (simp add: held_of_def)
  moreover have "used_of (cs_workers cs') = give_back (share_of g) (used_of (cs_workers cs))"
    by (auto simp: w give_back_def share_of_def used_release split: option.split)
  ultimately show "post_all [Settle gid] (book cs) = Some (book cs')"
    using g' by (simp add: held_of_upd book_def)
  assume "well_kept cs"
  then show "finite (dom (gr_groups (cs_groups cs'))) \<and> groups.well_keyed (cs_groups cs') \<and> workers.well_keyed (cs_workers cs')"
    using g g' by (auto simp: well_kept_def groups.well_keyed_def w intro: well_keyed_release split: option.split)
qed

section \<open>Many groups at once\<close>

lemma post_settle_many:
  assumes "distinct ks" "set ks \<subseteq> dom (bk_held b)"
  shows "post_all (map Settle ks) b =
     Some \<lparr> bk_held = (\<lambda>k. if k \<in> set ks then None else bk_held b k),
            bk_used = fold (\<lambda>k. give_back (the (bk_held b k))) ks (bk_used b) \<rparr>"
  using assms
proof (induction ks arbitrary: b)
  case Nil
  then show ?case by (simp add: fun_eq_iff)
next
  case (Cons k ks)
  then obtain s where s: "bk_held b k = Some s" by auto
  let ?b = "\<lparr> bk_held = (bk_held b)(k := None), bk_used = give_back s (bk_used b) \<rparr>"
  have f: "fold (\<lambda>k. give_back (the (bk_held ?b k))) ks (bk_used ?b) = fold (\<lambda>k. give_back (the (bk_held b k))) ks (bk_used ?b)"
    using Cons.prems(1) by (intro fold_cong) auto
  have h: "(\<lambda>x. if x \<in> set ks then None else bk_held ?b x) = (\<lambda>x. if x \<in> set (k # ks) then None else bk_held b x)"
    by (simp add: fun_eq_iff)
  have "distinct ks" "set ks \<subseteq> dom (bk_held ?b)" using Cons.prems by auto
  from Cons.IH [OF this] have "post_all (map Settle ks) ?b =
     Some \<lparr> bk_held = (\<lambda>x. if x \<in> set (k # ks) then None else bk_held b x),
            bk_used = fold (\<lambda>k. give_back (the (bk_held b k))) ks (bk_used ?b) \<rparr>"
    unfolding f h .
  then show ?case using s by simp
qed

lemma post_abandon_many:
  assumes "distinct ks" "set ks \<subseteq> dom (bk_held b)"
  shows "post_all (map Abandon ks) b = Some (b\<lparr> bk_held := (\<lambda>k. if k \<in> set ks then None else bk_held b k) \<rparr>)"
  using assms
proof (induction ks arbitrary: b)
  case Nil
  then show ?case by simp
next
  case (Cons k ks)
  then obtain s where s: "bk_held b k = Some s" by auto
  let ?b = "b\<lparr> bk_held := (bk_held b)(k := None) \<rparr>"
  have "set ks \<subseteq> dom (bk_held ?b)" using Cons.prems by auto
  moreover have "(\<lambda>x. if x \<in> set ks then None else bk_held ?b x) = (\<lambda>x. if x \<in> set (k # ks) then None else bk_held b x)"
    by (simp add: fun_eq_iff)
  ultimately have "post_all (map Abandon ks) ?b = Some (?b\<lparr> bk_held := (\<lambda>x. if x \<in> set (k # ks) then None else bk_held b x) \<rparr>)"
    using Cons.IH [of ?b] Cons.prems(1) by (metis distinct.simps(2))
  then show ?case using s by simp
qed

lemma give_back_many:
  assumes "\<And>k. k \<in> set ks \<Longrightarrow> fst (sh k) = Some wid" "distinct ks"
  shows "fold (\<lambda>k. give_back (sh k)) ks used x =
     (if x = wid then map_option (\<lambda>u. sub_amounts u (\<Sum>k \<in> set ks. fst (snd (sh k)), \<Sum>k \<in> set ks. snd (snd (sh k)))) (used x) else used x)"
  using assms
proof (induction ks arbitrary: used)
  case Nil
  then show ?case by (simp add: sub_amounts_def option.map_ident)
next
  case (Cons k ks)
  then show ?case by (auto simp: give_back_apply option.map_comp comp_def sub_amounts_def)
qed

lemma owed_ge_sum:
  assumes "finite (dom h)" "S \<subseteq> dom h" "\<And>k. k \<in> S \<Longrightarrow> fst (the (h k)) = Some wid"
  shows "(\<Sum>k \<in> S. f (snd (the (h k)))) \<le> owed f h wid"
proof -
  have "(\<Sum>k \<in> S. f (snd (the (h k)))) = (\<Sum>k \<in> S. if fst (the (h k)) = Some wid then f (snd (the (h k))) else 0)"
    using assms(3) by (intro sum.cong) auto
  also have "\<dots> \<le> owed f h wid" unfolding owed_def msum_def by (rule sum_mono2) (use assms(1,2) in auto)
  finally show ?thesis .
qed

text \<open>Groups that end without their share being returned.\<close>

lemma books_abandons:
  assumes "distinct ks" "\<And>k. k \<in> set ks \<Longrightarrow> \<exists>g. gr_groups (cs_groups cs) k = Some g \<and> \<not> group_is_terminal (g_state g)"
    and "\<And>k. gr_groups (cs_groups cs') k = (if k \<in> set ks then map_option f (gr_groups (cs_groups cs) k) else gr_groups (cs_groups cs) k)"
    and "\<And>g. group_is_terminal (g_state (f g)) \<and> g_id (f g) = g_id g" "cs_workers cs' = cs_workers cs"
  shows "books (map Abandon ks) cs cs'"
proof (rule booksI)
  have "set ks \<subseteq> dom (bk_held (book cs))" using assms(2) by (fastforce simp: held_of_def)
  moreover have "held_of (gr_groups (cs_groups cs')) = (\<lambda>k. if k \<in> set ks then None else held_of (gr_groups (cs_groups cs)) k)"
    using assms(4) by (auto simp: held_of_def assms(3) fun_eq_iff split: option.split)
  ultimately show "post_all (map Abandon ks) (book cs) = Some (book cs')"
    using post_abandon_many [OF assms(1)] assms(5) by (simp add: book_def cong: if_cong)
  assume wk: "well_kept cs"
  have "dom (gr_groups (cs_groups cs')) = dom (gr_groups (cs_groups cs))" by (auto simp: assms(3) split: if_splits)
  then show "finite (dom (gr_groups (cs_groups cs'))) \<and> groups.well_keyed (cs_groups cs') \<and> workers.well_keyed (cs_workers cs')"
    using wk assms(4,5) by (auto simp: well_kept_def groups.well_keyed_def assms(3) split: if_splits)
qed

text \<open>The groups of one worker that end together, their shares returned in one release.\<close>

lemma books_drops:
  assumes "distinct ks" "\<And>k. k \<in> set ks \<Longrightarrow> holds wid (the (gr_groups (cs_groups cs) k))" "set ks \<subseteq> dom (gr_groups (cs_groups cs))"
    and "\<And>k. gr_groups (cs_groups cs') k = (if k \<in> set ks then map_option f (gr_groups (cs_groups cs) k) else gr_groups (cs_groups cs) k)"
    and "\<And>g. group_is_terminal (g_state (f g)) \<and> g_id (f g) = g_id g"
    and "\<And>k. cs_workers cs' k = (if k = wid then map_option (release c m d) (cs_workers cs k) else cs_workers cs k)"
    and "c = (\<Sum>k \<leftarrow> ks. ar_cpu (g_allocated_resources (the (gr_groups (cs_groups cs) k))))"
    and "m = (\<Sum>k \<leftarrow> ks. ar_memory_mb (g_allocated_resources (the (gr_groups (cs_groups cs) k))))"
  shows "books (map Settle ks) cs cs'"
proof (rule booksI)
  let ?gr = "gr_groups (cs_groups cs)" and ?h = "held_of (gr_groups (cs_groups cs))"
  have held: "?h k = Some (share_of (the (?gr k)))" "fst (share_of (the (?gr k))) = Some wid" if "k \<in> set ks" for k
    using assms(2) [OF that] assms(3) that by (auto simp: held_of_def holds_def share_of_def)
  have sub: "set ks \<subseteq> dom ?h" using held(1) by auto
  assume wk: "well_kept cs"
  have fin: "finite (dom ?h)" using wk by (simp add: well_kept_def solvent_def)
  have le: "(\<Sum>k \<in> set ks. unat (ar_cpu (g_allocated_resources (the (?gr k))))) \<le> unat (ws_allocated_cpu w)"
    "(\<Sum>k \<in> set ks. unat (ar_memory_mb (g_allocated_resources (the (?gr k))))) \<le> unat (ws_allocated_memory_mb w)"
    if "cs_workers cs wid = Some w" for w
    using owed_ge_sum [OF fin sub, of wid fst] owed_ge_sum [OF fin sub, of wid snd] held well_kept_due [OF wk that]
      owed_held_of [OF well_keptD(1) [OF wk], of wid] by (simp_all add: share_of_def)
  have "fold (\<lambda>k. give_back (the (?h k))) ks (used_of (cs_workers cs)) = fold (\<lambda>k. give_back (share_of (the (?gr k)))) ks (used_of (cs_workers cs))"
    by (rule fold_cong) (simp_all add: held(1))
  moreover note give_back_many [where sh = "\<lambda>k. share_of (the (?gr k))" and used = "used_of (cs_workers cs)", OF held(2) assms(1)]
  moreover have "unat c = (\<Sum>k \<in> set ks. fst (snd (share_of (the (?gr k)))))" "unat m = (\<Sum>k \<in> set ks. snd (snd (share_of (the (?gr k)))))"
    if "cs_workers cs wid = Some w" for w
    unfolding assms(7,8) using unat_sum_over [OF assms(1) le(1) [OF that]] unat_sum_over [OF assms(1) le(2) [OF that]]
    by (simp_all add: share_of_def)
  ultimately have "fold (\<lambda>k. give_back (the (?h k))) ks (used_of (cs_workers cs)) x = used_of (cs_workers cs') x" for x
    by (cases "cs_workers cs x") (auto simp: used_of_def assms(6) counters_def sub_amounts_def release_def sat_simps)
  moreover have "held_of (gr_groups (cs_groups cs')) = (\<lambda>k. if k \<in> set ks then None else ?h k)"
    using assms(5) by (auto simp: held_of_def assms(4) fun_eq_iff split: option.split)
  ultimately show "post_all (map Settle ks) (book cs) = Some (book cs')"
    using post_settle_many [OF assms(1), of "book cs"] sub by (simp add: book_def fun_eq_iff cong: if_cong)
  have "dom (gr_groups (cs_groups cs')) = dom ?gr" by (auto simp: assms(4) split: if_splits)
  moreover have "workers.well_keyed (cs_workers cs')"
    using well_keptD(3) [OF wk] by (auto simp: workers.well_keyed_def assms(6) release_def split: if_splits)
  ultimately show "finite (dom (gr_groups (cs_groups cs'))) \<and> groups.well_keyed (cs_groups cs') \<and> workers.well_keyed (cs_workers cs')"
    using wk assms(5) by (auto simp: well_kept_def groups.well_keyed_def assms(4) split: if_splits)
qed

end
