(* ===== verification/System.thy ===== *)
theory System
  imports Startup Book
begin

text \<open>
  The controller as one machine: every handler and every background tick is a step of one
  state.  Each step is shown to be the posting of entries in the book of
  \<open>Book\<close>, so that the invariants of the book are invariants of every run of the controller
  from a restart on.  Each handler is one step; the two places where a
  handler works on what it read under an earlier lock are treated in \<open>Recovery\<close> and
  \<open>Registration\<close>.
\<close>

section \<open>The machine\<close>

text \<open>The flag of a step says whether it is one of the two that can lose a share: a
  reservation that answers with an error, and a tick of the reaper of stuck groups.\<close>

inductive ctl_step :: "Env \<Rightarrow> bool \<Rightarrow> ControllerState \<Rightarrow> ControllerState \<Rightarrow> bool" for env where
  reserve: "do_reserve_worker env now gid fresh_repo req cs = (res, cs') \<Longrightarrow> gr_groups (cs_groups cs) gid = None
    \<Longrightarrow> counters_fit (compute_resource_needs env req) (cs_workers cs) \<Longrightarrow> ctl_step env (isl res) cs cs'"
| submit_stage: "do_submit_stage env now req cs = (res, cs') \<Longrightarrow> ctl_step env False cs cs'"
| report: "report_status env now u cs = (ack, cs') \<Longrightarrow> ctl_step env False cs cs'"
| cancel: "cancel_job_rpc env now req cs = (res, cs') \<Longrightarrow> ctl_step env False cs cs'"
| adhoc: "submit_job env now peer_addr req cs = (res, cs')
    \<Longrightarrow> \<forall>wid. \<forall>g. gr_groups (cs_groups cs) (env_v5 env (sj_job_id req)) = Some g \<longrightarrow> \<not> holds wid g
    \<Longrightarrow> ctl_step env False cs cs'"
| register: "register_rpc sha config env storage now hb_interval new_token req (cs, hashes) = (Inr resp, (cs', hashes'))
    \<Longrightarrow> hm_order (env_group_order env (gr_groups (cs_groups cs))) (gr_groups (cs_groups cs))
    \<Longrightarrow> \<forall>w. cs_workers cs' (re_assigned_worker_id resp) = Some w \<longrightarrow> carries (gr_groups (cs_groups cs)) (re_assigned_worker_id resp) w
    \<Longrightarrow> ctl_step env False cs cs'"
| heartbeat: "cs' = heartbeat_rpc now msg cs \<Longrightarrow> ctl_step env False cs cs'"
| stream_open: "job_stream_open wid cs = (res, cs') \<Longrightarrow> ctl_step env False cs cs'"
| stream_round: "job_stream_round env now wid tx_open cs = (continue, cs') \<Longrightarrow> ctl_step env False cs cs'"
| reconnecting: "reconnect sha storage hdr rq cs = (res, cs') \<Longrightarrow> ctl_step env False cs cs'"
| deaths: "cs' = heartbeat_tick env now hb_timeout cs
    \<Longrightarrow> \<forall>m. dom m = dom (gr_groups (cs_groups cs)) \<longrightarrow> hm_order (env_group_order env m) m
    \<Longrightarrow> ctl_step env False cs cs'"
| orphans: "cs' = orphan_tick env now orphan_timeout cs \<Longrightarrow> ctl_step env False cs cs'"
| reconcile: "cs' = reconcile_worker_allocations env cs
    \<Longrightarrow> hm_order (env_worker_order env (cs_workers cs)) (cs_workers cs)
    \<Longrightarrow> hm_order (env_group_order env (gr_groups (cs_groups cs))) (gr_groups (cs_groups cs))
    \<Longrightarrow> ctl_step env False cs cs'"
| stuck: "cs' = reap_stuck_groups env now cs
    \<Longrightarrow> hm_order (env_group_order env (gr_groups (cs_groups cs))) (gr_groups (cs_groups cs))
    \<Longrightarrow> ctl_step env True cs cs'"
| stale: "cs' = reap_stale_reservations env now idle_timeout stall_timeout cs
    \<Longrightarrow> hm_order (env_group_order env (gr_groups (cs_groups cs))) (gr_groups (cs_groups cs))
    \<Longrightarrow> ctl_step env False cs cs'"
| log_cleanup: "cs' = log_cleanup_tick now cs \<Longrightarrow> ctl_step env False cs cs'"
| evict: "cs' = evict_tick env now cs \<Longrightarrow> ctl_step env False cs cs'"

text \<open>The runs: a restart from what the stores hold, then steps.  The flag says whether a step
  that can lose a share has been taken.\<close>

inductive ctl_run :: "Env \<Rightarrow> bool \<Rightarrow> ControllerState \<Rightarrow> bool" for env where
  boot: "cs = recover env now ry initial_state \<Longrightarrow> env_storage env \<noteq> None
    \<Longrightarrow> hm_order (env_group_order env (gr_groups (cs_groups cs))) (gr_groups (cs_groups cs))
    \<Longrightarrow> \<forall>wid w. cs_workers cs wid = Some w \<longrightarrow> carries (gr_groups (cs_groups cs)) wid w
    \<Longrightarrow> ctl_run env False cs"
| step: "ctl_run env l cs \<Longrightarrow> ctl_step env l' cs cs' \<Longrightarrow> ctl_run env (l \<or> l') cs'"

section \<open>Requests\<close>

text \<open>\<open>lossless es\<close>: no entry loses a share.\<close>

abbreviation lossless :: "entry list \<Rightarrow> bool" where
  "lossless es \<equiv> (\<forall>e \<in> set es. \<not> loses e)"

lemma counters_take:
  assumes "grants needs wr wid" "wr wid = Some w" "counters_fit needs wr"
  shows "counters (take_if_needed needs w) = add_amounts (counters w) (unat (fst needs), unat (fst (snd needs)))"
  using take_if_needed_used [OF assms] by (simp add: counters_def add_amounts_def)

lemma take_worker_id: "wi_worker_id (ws_info (take_if_needed needs w)) = wi_worker_id (ws_info w)"
  using take_same_machine [of w "fst needs" "fst (snd needs)" "snd (snd needs)"] by (simp add: same_machine_def)

lemma reserve_books:
  assumes "do_reserve_worker env now gid fresh_repo req cs = (res, cs')" "gr_groups (cs_groups cs) gid = None"
    and "counters_fit (compute_resource_needs env req) (cs_workers cs)"
  shows "\<exists>es. books es cs cs' \<and> (\<not> isl res \<longrightarrow> lossless es)"
  using assms(1)
proof (cases rule: do_reserve_cases)
  case (selected repo_id mx sp eff dropped wid wr)
  let ?needs = "compute_resource_needs env req"
  let ?a = "(unat (fst ?needs), unat (fst (snd ?needs)))"
  obtain w where w: "cs_workers cs wid = Some w" "grants ?needs (cs_workers cs) wid" "wr = (cs_workers cs)(wid \<mapsto> take_if_needed ?needs w)"
    using select_and_allocate_shape [OF selected(3)] by blast
  note out = finish_reservation_outcome [OF selected(4)]
  have cw: "cs_workers cs' = (cs_workers cs)(wid \<mapsto> take_if_needed ?needs w)" unfolding out(1) by (simp add: w(3) fun_upd_def)
  have used: "used_of (cs_workers cs) wid = Some (counters w)"
    "used_of (cs_workers cs') = (used_of (cs_workers cs))(wid \<mapsto> add_amounts (counters w) ?a)"
    using w(1) counters_take [OF w(2,1) assms(3)] by (auto simp: used_of_def cw)
  have keyed: "workers.well_keyed (cs_workers cs')" if "workers.well_keyed (cs_workers cs)"
    using that w(1) take_worker_id by (auto simp: workers.well_keyed_def cw)
  show ?thesis
  proof (cases res)
    case (Inl e)
    then have "gr_groups (cs_groups cs') = gr_groups (cs_groups cs)" using out(2) by simp
    then have "books [Leak wid ?a] cs cs'"
      by (intro booksI) (auto simp: book_def used groups.well_keyed_def keyed dest: well_keptD)
    then show ?thesis using Inl by auto
  next
    case (Inr r)
    then have g: "gr_groups (cs_groups cs') = (gr_groups (cs_groups cs))(gid \<mapsto> reserved_group now gid repo_id wid ?needs eff req)"
      using out(2) by (auto split: prod.splits)
    have "books [Grant gid wid ?a] cs cs'"
    proof (rule booksI)
      have "held_of (gr_groups (cs_groups cs)) gid = None" using assms(2) by (simp add: held_of_def)
      then show "post_all [Grant gid wid ?a] (book cs) = Some (book cs')"
        by (simp add: book_def used g held_of_upd share_of_def reserved_group_def group_is_terminal_def split: prod.split)
    qed (use g keyed in \<open>auto simp: groups.well_keyed_def reserved_group_def dest: well_keptD split: if_splits\<close>)
    then show ?thesis by force
  qed
qed (force intro!: exI [of _ "[]"])

lemma submit_stage_books: "do_submit_stage env now req cs = (res, cs') \<Longrightarrow> books [] cs cs'"
proof (cases res)
  case (Inl e)
  moreover assume "do_submit_stage env now req cs = (res, cs')"
  ultimately have "cs' = cs"
    by (auto simp: do_submit_stage_def Let_def simp del: append.simps split: sum.splits prod.splits)
  then show ?thesis by simp
next
  case (Inr resp)
  moreover assume "do_submit_stage env now req cs = (res, cs')"
  ultimately have d: "do_submit_stage env now req cs = (Inr resp, cs')" by simp
  obtain gid wid g sc cmd e keys sx job where c: "submit_checks env req cs = Inr (gid, wid, g, sc, cmd)"
    and cs': "cs' = record_stage env now gid wid g (unwrap_or 0 (map_option sc_max_duration_secs sc)) keys sx job cs"
    by (rule do_submit_accepted [OF d])
  note g = submit_checks_accepted(1) [OF c]
  have "keeps_holdings cs cs'"
    using g by (auto simp: keeps_holdings_def cs' enter_group_group [OF g] same_holding_def group_is_terminal_def split: option.split)
  then show ?thesis by (rule books_keeps)
qed

lemma report_books: "report_status env now u cs = (ack, cs') \<Longrightarrow> \<exists>es. books es cs cs' \<and> lossless es"
  using report_status_outcome [of cs env now u] books_keeps books_settles
  by (metis empty_iff list.set(1,2) loses.simps(2) singletonD snd_conv)

lemma cancel_books:
  assumes "cancel_job_rpc env now req cs = (res, cs')"
  shows "\<exists>es. books es cs cs' \<and> lossless es"
proof (cases "cr_job_group_id req \<noteq> [] \<and> cr_job_id req = []")
  case True
  then have "cancel_group_rpc env now req cs = (res, cs')" using assms by (simp add: cancel_job_rpc_def)
  from cancel_group_outcome [OF this] consider "cs' = cs" | gid g where "settles cs gid g cs'" by blast
  then show ?thesis
  proof cases
    case 1
    then show ?thesis by (intro exI [of _ "[]"]) simp
  next
    case 2
    then show ?thesis using books_settles [OF 2] by (intro exI [of _ "[Settle gid]"]) simp
  qed
next
  case False
  then have "cs_workers cs' = cs_workers cs \<and> cs_groups cs' = cs_groups cs"
    using assms by (auto simp: cancel_job_rpc_def Let_def simp del: append.simps split: prod.splits option.splits if_splits)
  then show ?thesis by (intro exI [of _ "[]"]) (simp add: books_frame)
qed

lemma adhoc_books:
  assumes "submit_job env now peer_addr req cs = (res, cs')"
    and "\<forall>wid. \<forall>g. gr_groups (cs_groups cs) (env_v5 env (sj_job_id req)) = Some g \<longrightarrow> \<not> holds wid g"
  shows "books [Vacant (env_v5 env (sj_job_id req))] cs cs'"
proof (rule booksI)
  let ?gid = "env_v5 env (sj_job_id req)"
  note fr = submit_job_frame [OF assms(1)]
  have "held_of (gr_groups (cs_groups cs)) ?gid \<noteq> Some (Some wid, a)" for wid a
    using assms(2) by (auto simp: held_of_def holds_def share_of_def split: option.splits)
  then show "post_all [Vacant ?gid] (book cs) = Some (book cs')"
    by (auto simp: book_def fr(1,4) held_of_upd share_of_def JobGroup_new_with_id_def group_is_terminal_def
        AllocatedResources_default_def split: option.split prod.split)
  assume "well_kept cs"
  then show "finite (dom (gr_groups (cs_groups cs'))) \<and> groups.well_keyed (cs_groups cs') \<and> workers.well_keyed (cs_workers cs')"
    by (auto simp: well_kept_def fr(1,4) groups.well_keyed_def JobGroup_new_with_id_def)
qed

section \<open>Workers\<close>

lemma register_books:
  assumes "register_rpc sha config env storage now hb_interval new_token req (cs, hashes) = (Inr resp, (cs', hashes'))"
    and ord: "hm_order (env_group_order env (gr_groups (cs_groups cs))) (gr_groups (cs_groups cs))"
    and fits: "\<forall>w. cs_workers cs' (re_assigned_worker_id resp) = Some w \<longrightarrow> carries (gr_groups (cs_groups cs)) (re_assigned_worker_id resp) w"
  shows "books [Enter (re_assigned_worker_id resp)] cs cs'"
proof -
  let ?wid = "re_assigned_worker_id resp"
  obtain row cs0 where cs': "cs' = enrol env now ?wid req row cs0" and cs0: "cs_workers cs0 = cs_workers cs" "cs_groups cs0 = cs_groups cs"
    using assms(1)
  proof (cases rule: register_rpc_cases)
    case (worker_token st row)
    then show ?thesis by (intro that [of row cs]) simp_all
  next
    case (registration_token st token_id row)
    then show ?thesis by (intro that [of "Some row" "emit (DbIncrementTokenUses token_id)
         (emit (DbUpsertWorker (row_of_request now (sha new_token) token_id req)) cs)"]) simp_all
  next
    case no_token
    then show ?thesis by (intro that [of None cs]) simp_all
  qed
  have groups: "gr_groups (cs_groups cs') = gr_groups (cs_groups cs)" by (simp add: cs' cs0)
  obtain w0 where w0: "fresh ?wid w0"
    and w: "cs_workers cs' ?wid = Some (fold (\<lambda>g. take_if_needed (request_of (g_allocated_resources g)))
       (get_groups_for_worker (env_group_order env (gr_groups (cs_groups cs))) ?wid (cs_groups cs)) w0)"
    using enrol_worker [of ?wid env now req row cs0] by (auto simp: cs' cs0)
  have due: "counters (the (cs_workers cs' ?wid)) = (cpu_account.due (gr_groups (cs_groups cs)) ?wid, memory_account.due (gr_groups (cs_groups cs)) ?wid)"
    using enrol_restores [of env cs0 now ?wid req row] ord fits w by (simp add: cs' cs0 counters_def)
  have other: "k \<noteq> ?wid \<Longrightarrow> cs_workers cs' k = cs_workers cs k" for k by (simp add: cs' enrol_other cs0)
  have key: "wi_worker_id (ws_info (the (cs_workers cs' ?wid))) = ?wid"
    using w w0 fold_take_same_machine [of w0 "get_groups_for_worker (env_group_order env (gr_groups (cs_groups cs))) ?wid (cs_groups cs)"]
    by (simp add: fresh_def same_machine_def)
  show ?thesis
  proof (rule booksI)
    assume wk: "well_kept cs"
    have "used_of (cs_workers cs') = (used_of (cs_workers cs))(?wid \<mapsto> owed_both (held_of (gr_groups (cs_groups cs))) ?wid)"
      using w other due owed_held_of [OF well_keptD(1) [OF wk], of ?wid] by (auto simp: used_of_def owed_both_def fun_eq_iff)
    then show "post_all [Enter ?wid] (book cs) = Some (book cs')" by (simp add: book_def groups)
    have "wi_worker_id (ws_info x) = k" if "cs_workers cs' k = Some x" for k x
      using that key other [of k] well_keptD(3) [OF wk] by (cases "k = ?wid") (auto simp: workers.well_keyed_def)
    then show "finite (dom (gr_groups (cs_groups cs'))) \<and> groups.well_keyed (cs_groups cs') \<and> workers.well_keyed (cs_workers cs')"
      using well_keptD [OF wk] by (simp add: groups groups.well_keyed_def workers.well_keyed_def)
  qed
qed

lemma books_modify:
  assumes "\<And>w. counters (f w) = counters w \<and> wi_worker_id (ws_info (f w)) = wi_worker_id (ws_info w)"
    and "cs_workers cs' = hm_modify wid f (cs_workers cs)" "gr_groups (cs_groups cs') = gr_groups (cs_groups cs)"
  shows "books [] cs cs'"
  by (rule books_idle) (use assms(1) in \<open>auto simp: assms(2,3) hm_modify_apply split: if_splits\<close>)

lemma heartbeat_books: "books [] cs (heartbeat_rpc now msg cs)"
  by (rule books_modify [where wid = "hm_worker_id msg" and f = "\<lambda>w. w\<lparr> ws_status := Connected, ws_last_heartbeat := Some (heartbeat_of now msg) \<rparr>"])
    (simp_all add: heartbeat_rpc_def update_heartbeat_def counters_def)

lemma reconnect_books: "reconnect sha storage hdr rq cs = (res, cs') \<Longrightarrow> books [] cs cs'"
proof -
  assume "reconnect sha storage hdr rq cs = (res, cs')"
  then consider "cs' = cs" | "cs' = map_workers (mark_reconnected (rq_worker_id rq)) cs"
    by (auto simp: reconnect_def Let_def simp del: append.simps split: sum.splits)
  then show ?thesis
    by cases (auto simp: mark_reconnected_def counters_def intro!: books_modify [where wid = "rq_worker_id rq" and f = "\<lambda>w. w\<lparr> ws_status := Connected \<rparr>"])
qed

lemma stream_books:
  "job_stream_open wid cs = (res, cs') \<Longrightarrow> books [] cs cs'"
  "job_stream_round env now wid tx_open cs = (continue, cs') \<Longrightarrow> books [] cs cs'"
proof -
  show "job_stream_open wid cs = (res, cs') \<Longrightarrow> books [] cs cs'"
    by (auto simp: job_stream_open_def simp del: append.simps split: if_splits intro!: books_frame)
  assume r: "job_stream_round env now wid tx_open cs = (continue, cs')"
  have "cs_workers (snd (dispatch_job_for_worker env now wid tx_open cs)) = cs_workers cs
      \<and> cs_groups (snd (dispatch_job_for_worker env now wid tx_open cs)) = cs_groups cs"
    by (auto simp: dispatch_job_for_worker_def Let_def split: option.split prod.split list.split)
  then show "books [] cs cs'"
    using r by (auto simp: job_stream_round_def split: if_splits prod.splits intro!: books_frame)
qed

lemma worker_death_books:
  assumes "hm_order (env_group_order env (gr_groups (cs_groups cs))) (gr_groups (cs_groups cs))" "groups.well_keyed (cs_groups cs)"
  shows "\<exists>es. books es cs (worker_death env now wid cs) \<and> lossless es
     \<and> dom (gr_groups (cs_groups (worker_death env now wid cs))) = dom (gr_groups (cs_groups cs))"
proof -
  obtain fl c m d where p: "distinct fl" "set fl \<subseteq> dom (gr_groups (cs_groups cs))"
    "\<And>k. k \<in> set fl \<Longrightarrow> holds wid (the (gr_groups (cs_groups cs) k))"
    "gr_groups (cs_groups (worker_death env now wid cs)) =
       (\<lambda>k. if k \<in> set fl then map_option (failed_by now (death_reason wid)) (gr_groups (cs_groups cs) k) else gr_groups (cs_groups cs) k)"
    "\<And>k. cs_workers (worker_death env now wid cs) k = (if k = wid then map_option (release c m d) (cs_workers cs k) else cs_workers cs k)"
    "c = (\<Sum>k \<leftarrow> fl. ar_cpu (g_allocated_resources (the (gr_groups (cs_groups cs) k))))"
    "m = (\<Sum>k \<leftarrow> fl. ar_memory_mb (g_allocated_resources (the (gr_groups (cs_groups cs) k))))"
    by (rule worker_death_parts [OF assms(2,1), where wid = wid and now = now]) (rule that)
  have "books (map Settle fl) cs (worker_death env now wid cs)"
    by (rule books_drops [OF p(1,3,2) _ _ p(5,6,7), where f = "failed_by now (death_reason wid)"]) (simp_all add: p(4) failed_by_def group_is_terminal_def)
  moreover have "dom (gr_groups (cs_groups (worker_death env now wid cs))) = dom (gr_groups (cs_groups cs))"
    by (auto simp: p(4) split: if_splits)
  ultimately show ?thesis by (intro exI [of _ "map Settle fl"]) auto
qed

lemma deaths_books:
  assumes "\<forall>m. dom m = dom (gr_groups (cs_groups cs)) \<longrightarrow> hm_order (env_group_order env m) m" "well_kept cs"
  shows "\<exists>es. books es cs (heartbeat_tick env now hb_timeout cs) \<and> lossless es"
proof -
  have forget: "cs_workers (fold (forget_running env now) ws x) = cs_workers x \<and> cs_groups (fold (forget_running env now) ws x) = cs_groups x" for ws x
    by (induction ws arbitrary: x) (simp_all add: forget_running_def split: prod.split)
  have death: "\<exists>es. books es x (fold (worker_death env now) ws x) \<and> lossless es"
    if "well_kept x" "dom (gr_groups (cs_groups x)) = dom (gr_groups (cs_groups cs))" for ws x
    using that
  proof (induction ws arbitrary: x)
    case (Cons wid ws)
    obtain es where es: "books es x (worker_death env now wid x)" "lossless es"
      "dom (gr_groups (cs_groups (worker_death env now wid x))) = dom (gr_groups (cs_groups x))"
      using worker_death_books [of env x now wid] assms(1) Cons.prems well_keptD(2) by blast
    have "well_kept (worker_death env now wid x)" using es(1) Cons.prems(1) by (simp add: books_def)
    with Cons.IH es(3) Cons.prems(2) obtain fs where "books fs (worker_death env now wid x) (fold (worker_death env now) ws (worker_death env now wid x))" "lossless fs"
      by metis
    then show ?case using books_trans [OF es(1)] es(2) by (intro exI [of _ "es @ fs"]) auto
  qed (intro exI [of _ "[]"], simp)
  obtain timed_out wr where t: "check_heartbeat_timeouts (env_worker_order env (cs_workers cs)) now hb_timeout (cs_workers cs) = (timed_out, wr)"
    by (cases "check_heartbeat_timeouts (env_worker_order env (cs_workers cs)) now hb_timeout (cs_workers cs)")
  have wr: "wr = fold mark_disconnected timed_out (cs_workers cs)"
    using t by (auto simp: check_heartbeat_timeouts_def Let_def)
  have marked: "books [] cs x" if "cs_workers x = wr" "cs_groups x = cs_groups cs" for x
    by (rule books_idle) (auto simp: that wr fold_mark_disconnected_apply counters_def split: if_splits)
  show ?thesis
  proof (cases "timed_out = []")
    case True
    then show ?thesis by (intro exI [of _ "[]"]) (simp add: heartbeat_tick_def t marked)
  next
    case False
    define x where "x = fold (forget_running env now) timed_out (map_metrics (set_connected_workers
        (int (length (connected_workers (env_worker_order env wr) wr)))) (map_workers (\<lambda>_. wr) cs))"
    have x: "cs_workers x = wr" "cs_groups x = cs_groups cs" by (simp_all add: x_def forget)
    have "well_kept x" using marked [OF x] assms(2) by (simp add: books_def)
    then obtain es where "books es x (fold (worker_death env now) timed_out x)" "lossless es" using death x(2) by fastforce
    moreover have "heartbeat_tick env now hb_timeout cs = fold (worker_death env now) timed_out x"
      using False by (simp add: heartbeat_tick_def t x_def Let_def)
    ultimately show ?thesis using books_trans [OF marked [OF x]] by (intro exI [of _ es]) force
  qed
qed

section \<open>Background tasks\<close>

lemma reconcile_books:
  assumes "hm_order (env_worker_order env (cs_workers cs)) (cs_workers cs)"
    and "hm_order (env_group_order env (gr_groups (cs_groups cs))) (gr_groups (cs_groups cs))"
  shows "books [Balance] cs (reconcile_worker_allocations env cs)"
proof (rule booksI)
  let ?cs' = "reconcile_worker_allocations env cs" and ?gr = "gr_groups (cs_groups cs)"
  assume wk: "well_kept cs"
  have g: "cs_groups ?cs' = cs_groups cs" by (simp add: reconcile_worker_allocations_def Let_def)
  note w = reconcile_workers [OF well_keptD(3) [OF wk] assms(1)]
  have "unat (fst (expected_sum env (cs_groups cs) k)) = cpu_account.due ?gr k
      \<and> unat (fst (snd (expected_sum env (cs_groups cs) k))) = memory_account.due ?gr k" if "cs_workers cs k = Some x" for k x
    using expected_sum_due [OF assms(2), of k] well_kept_due [OF wk that]
      order_le_less_trans [OF _ unsigned_less [of "ws_allocated_cpu x", where 'a = nat]]
      order_le_less_trans [OF _ unsigned_less [of "ws_allocated_memory_mb x", where 'a = nat]] by simp
  then have "used_of (cs_workers ?cs') k = map_option (\<lambda>_. owed_both (held_of ?gr) k) (used_of (cs_workers cs) k)" for k
    using owed_held_of [OF well_keptD(1) [OF wk]]
    by (cases "cs_workers cs k") (simp_all add: used_of_def w counters_def owed_both_def)
  then show "post_all [Balance] (book cs) = Some (book ?cs')" by (simp add: book_def g fun_eq_iff)
  show "finite (dom (gr_groups (cs_groups ?cs'))) \<and> groups.well_keyed (cs_groups ?cs') \<and> workers.well_keyed (cs_workers ?cs')"
    using well_keptD [OF wk] by (auto simp: g workers.well_keyed_def w correct_drift_def)
qed

lemma stuck_books:
  assumes "hm_order (env_group_order env (gr_groups (cs_groups cs))) (gr_groups (cs_groups cs))" "groups.well_keyed (cs_groups cs)"
  shows "books (map Abandon (stuck_groups env now (cs_groups cs))) cs (reap_stuck_groups env now cs)"
proof (rule books_abandons [where f = "stuck_failed now"])
  note mem = stuck_groups_mem [OF assms, where now = now]
  show "distinct (stuck_groups env now (cs_groups cs))" by (rule mem(1))
  show "\<exists>g. gr_groups (cs_groups cs) k = Some g \<and> \<not> group_is_terminal (g_state g)" if "k \<in> set (stuck_groups env now (cs_groups cs))" for k
    using that mem(2) by (auto simp: group_is_terminal_def)
  show "gr_groups (cs_groups (reap_stuck_groups env now cs)) k = (if k \<in> set (stuck_groups env now (cs_groups cs))
      then map_option (stuck_failed now) (gr_groups (cs_groups cs) k) else gr_groups (cs_groups cs) k)" for k
    using fold_fail_stuck [OF mem(1)] by (simp add: reap_stuck_groups_def Let_def)
qed (auto simp: reap_stuck_groups_def Let_def stuck_failed_def group_is_terminal_def)

lemma stale_books:
  assumes "hm_order (env_group_order env (gr_groups (cs_groups cs))) (gr_groups (cs_groups cs))" "groups.well_keyed (cs_groups cs)"
  shows "\<exists>es. books es cs (reap_stale_reservations env now i st cs) \<and> lossless es"
proof -
  have "books (map (\<lambda>g. Settle (g_id g)) gs) cs (fold (reap_one env now i st) gs cs)"
    if "distinct (map g_id gs)" "\<And>g. g \<in> set gs \<Longrightarrow> gr_groups (cs_groups cs) (g_id g) = Some g \<and> \<not> group_is_terminal (g_state g)" for gs
    using that
  proof (induction gs arbitrary: cs)
    case (Cons g gs)
    let ?cs = "reap_one env now i st g cs"
    have set: "settles cs (g_id g) g ?cs" using Cons.prems(2) by (intro reap_one_settles) auto
    have rest: "gr_groups (cs_groups ?cs) (g_id x) = Some x \<and> \<not> group_is_terminal (g_state x)" if "x \<in> set gs" for x
    proof -
      have "g_id x \<noteq> g_id g" using that Cons.prems(1) by (auto simp: image_iff)
      then show ?thesis using set Cons.prems(2) [of x] that by (auto simp: settles_def)
    qed
    show ?case using books_trans [OF books_settles [OF set] Cons.IH [OF _ rest]] Cons.prems(1) by simp
  qed simp
  from this [OF stale_groups_mem [OF assms, where now = now and i = i and st = st]] show ?thesis
    unfolding reap_stale_reservations_def by (intro exI [of _ "map (\<lambda>g. Settle (g_id g)) (stale_groups env now i st (cs_groups cs))"]) auto
qed

lemma evict_books: "books [] cs (evict_tick env now cs)"
proof -
  obtain S where S: "\<And>k. gr_groups (cs_groups (evict_tick env now cs)) k = (if k \<in> S then None else gr_groups (cs_groups cs) k)"
    "\<And>k g. k \<in> S \<Longrightarrow> gr_groups (cs_groups cs) k = Some g \<Longrightarrow> group_is_terminal (g_state g)"
    by (rule evicted_groups) (rule that)
  have "cs_workers (evict_tick env now cs) = cs_workers cs" by (simp add: evict_tick_def Let_def)
  then show ?thesis
    by (intro books_idle) (auto simp: held_of_def S(1) S(2) split: if_splits option.splits)
qed

section \<open>Steps and runs\<close>

lemma ctl_step_books:
  assumes "ctl_step env l cs cs'" "well_kept cs"
  shows "\<exists>es. books es cs cs' \<and> (\<not> l \<longrightarrow> lossless es)"
proof -
  have idle: "\<exists>es. books es cs cs' \<and> (\<not> l \<longrightarrow> lossless es)" if "books [] cs cs'"
    using that by (intro exI [of _ "[]"]) simp
  show ?thesis
    using assms(1)
  proof cases
    case (reserve now gid fresh_repo req res)
    then show ?thesis using reserve_books by blast
  next
    case submit_stage
    then show ?thesis using submit_stage_books idle by blast
  next
    case report
    then show ?thesis using report_books by blast
  next
    case cancel
    then show ?thesis using cancel_books by blast
  next
    case (adhoc now peer_addr req res)
    then show ?thesis using adhoc_books [OF adhoc(2,3)] by (intro exI [of _ "[Vacant (env_v5 env (sj_job_id req))]"]) simp
  next
    case (register sha config storage now hb_interval new_token req hashes resp hashes')
    then show ?thesis using register_books [OF register(2,3,4)] by (intro exI [of _ "[Enter (re_assigned_worker_id resp)]"]) simp
  next
    case heartbeat
    then show ?thesis using heartbeat_books idle by blast
  next
    case stream_open
    then show ?thesis using stream_books(1) idle by blast
  next
    case stream_round
    then show ?thesis using stream_books(2) idle by blast
  next
    case reconnecting
    then show ?thesis using reconnect_books idle by blast
  next
    case deaths
    then show ?thesis using deaths_books assms(2) by blast
  next
    case reconcile
    then show ?thesis using reconcile_books by (intro exI [of _ "[Balance]"]) simp
  next
    case stuck
    then show ?thesis using stuck_books well_keptD(2) [OF assms(2)] by blast
  next
    case stale
    then show ?thesis using stale_books well_keptD(2) [OF assms(2)] by blast
  next
    case evict
    then show ?thesis using evict_books idle by blast
  qed (use idle in \<open>simp_all add: orphan_tick_def log_cleanup_tick_def books_frame\<close>)
qed

lemma ctl_run_kept: "ctl_run env l cs \<Longrightarrow> well_kept cs \<and> (\<not> l \<longrightarrow> exact (book cs))"
proof (induction rule: ctl_run.induct)
  case (boot cs now ry)
  have "accounts_ok cs" using recover_accounts [of env now ry] boot by simp
  then show ?case using well_kept_exact recover_workers_keyed [OF boot(2), of now ry] boot(1) book_exact [of cs] by simp
next
  case (step l cs l' cs')
  then obtain es where "books es cs cs'" "\<not> l' \<longrightarrow> lossless es" using ctl_step_books by blast
  then show ?case using step.IH post_all_exact [of es "book cs" "book cs'"] by (auto simp: books_def)
qed

section \<open>Properties\<close>

text \<open>An example run: the controller restarts with one running group that holds two CPUs and 1000 MB,
  and five hours later the reaper of stuck groups ends it without giving them back.\<close>

abbreviation sample_boot :: ControllerState where
  "sample_boot \<equiv> recover sample_db_env 7 sample_recovery initial_state"

abbreviation sample_stuck :: ControllerState where
  "sample_stuck \<equiv> reap_stuck_groups sample_db_env 18000000000000 sample_boot"

lemma sample_boot_order:
  "hm_order (env_group_order sample_db_env (gr_groups (cs_groups sample_boot))) (gr_groups (cs_groups sample_boot))"
  by (simp add: sample_recovered hm_order_def)

lemma sample_boot_run: "ctl_run sample_db_env False sample_boot"
  by (rule ctl_run.boot [OF refl _ sample_boot_order]) (simp_all add: sample_recovered_carries)

lemma sample_stuck_step: "ctl_step sample_db_env True sample_boot sample_stuck"
  by (rule ctl_step.stuck [OF refl sample_boot_order])

lemma sample_stuck_dom: "dom (gr_groups (cs_groups sample_stuck)) = {''g1''}"
proof -
  have "groups.well_keyed (cs_groups sample_boot)"
    using ctl_run_kept [OF sample_boot_run] by (simp add: well_kept_def)
  note mem = stuck_groups_mem(1) [OF sample_boot_order this, of 18000000000000]
  have "gr_groups (cs_groups sample_stuck) k = None \<longleftrightarrow> gr_groups (cs_groups sample_boot) k = None" for k
    using fold_fail_stuck [OF mem] by (simp add: reap_stuck_groups_def Let_def)
  then show ?thesis by (auto simp: dom_def sample_recovered)
qed

lemma sample_stuck_workers: "cs_workers sample_stuck = cs_workers sample_boot"
  by (simp add: reap_stuck_groups_def Let_def)







end
