(* ===== verification/Secrets.thy ===== *)
theory Secrets
  imports Prelude "HOL-Library.Sublist"
begin

text \<open>
  Masking of secret values in log lines (\<open>ci-worker/src/executor.rs\<close>, the pattern masking
  of commands and \<open>mask_secret_values\<close>).  A Rust string is its UTF-8 byte string; matching
  bytes and matching characters agree there.
\<close>

section \<open>Definitions\<close>

text \<open>\<open>str::replace\<close> for a nonempty pattern: leftmost matches that do not overlap.  The
  callers never pass the empty pattern.\<close>

function str_replace :: "string \<Rightarrow> string \<Rightarrow> string \<Rightarrow> string" where
  "str_replace pat rep s =
     (if pat = [] \<or> s = [] then s
      else if prefix pat s then rep @ str_replace pat rep (drop (length pat) s)
      else hd s # str_replace pat rep (tl s))"
  by pat_completeness auto
termination
  by (relation "measure (\<lambda>(pat, rep, s). length s)") auto

declare str_replace.simps [simp del]

lemma str_replace_Nil [simp]: "str_replace pat rep [] = []"
  by (subst str_replace.simps) simp

lemma str_replace_Cons:
  "pat \<noteq> [] \<Longrightarrow> str_replace pat rep (c # cs) =
     (if prefix pat (c # cs) then rep @ str_replace pat rep (drop (length pat) (c # cs))
      else c # str_replace pat rep cs)"
  by (subst str_replace.simps) simp

definition mask_secret_values :: "string \<Rightarrow> string list \<Rightarrow> string" where
  "mask_secret_values s secrets =
     foldl (\<lambda>masked secret. if secret \<noteq> [] then str_replace secret ''***'' masked else masked) s secrets"

text \<open>\<open>str::find\<close>: the position of the first occurrence.\<close>

fun str_find :: "string \<Rightarrow> string \<Rightarrow> nat option" where
  "str_find pat [] = (if pat = [] then Some 0 else None)"
| "str_find pat (c # cs) = (if prefix pat (c # cs) then Some 0 else map_option Suc (str_find pat cs))"

text \<open>The terminator test on an ASCII character; \<open>char::is_whitespace\<close> also accepts the
  space characters outside ASCII, which the argument \<open>ws\<close> supplies.\<close>

definition secret_patterns :: "string list" where
  "secret_patterns = [''password='', ''token='', ''secret='', ''api_key='', ''Bearer '', ''Authorization:'']"

definition mask_pattern :: "(char \<Rightarrow> bool) \<Rightarrow> string \<Rightarrow> string \<Rightarrow> string" where
  "mask_pattern ws masked pat =
     (case str_find pat masked of
        None \<Rightarrow> masked
      | Some idx \<Rightarrow>
          (let start = idx + length pat;
               rest = drop start masked;
               n = length (takeWhile (\<lambda>c. \<not> (ws c \<or> c = CHR 0x27 \<or> c = CHR 0x22)) rest)
           in take start masked @ ''***'' @ drop n rest))"

definition mask_secrets :: "(char \<Rightarrow> bool) \<Rightarrow> string \<Rightarrow> string" where
  "mask_secrets ws s = foldl (mask_pattern ws) s secret_patterns"

section \<open>Occurrences after masking\<close>

lemma sublist_append_sep:
  assumes "sublist p (u @ v @ w)" "v \<noteq> []" "p \<noteq> []" "set p \<inter> set v = {}"
  shows "sublist p u \<or> sublist p w"
proof -
  obtain a b where eq: "u @ v @ w = a @ p @ b" using assms(1) by (auto simp: sublist_def)
  show ?thesis
  proof (cases "length a + length p \<le> length u")
    case True
    have "take (length a + length p) (u @ v @ w) = a @ p" by (simp add: eq)
    then have "a @ p = take (length a + length p) u" using True by simp
    then have "u = a @ p @ drop (length a + length p) u" by (metis append.assoc append_take_drop_id)
    then show ?thesis unfolding sublist_def by blast
  next
    case no_left: False
    show ?thesis
    proof (cases "length u + length v \<le> length a")
      case True
      have "drop (length u + length v) (u @ v @ w) = drop (length u + length v) a @ p @ b"
        using True by (simp add: eq)
      then have "w = drop (length u + length v) a @ p @ b" by simp
      then show ?thesis unfolding sublist_def by blast
    next
      case False
      define k where "k = max (length a) (length u)"
      have k: "length a \<le> k" "k < length a + length p" "length u \<le> k" "k < length u + length v"
        using no_left False assms(2,3) by (auto simp: k_def)
      have i: "k - length a < length p" "k - length u < length v" using k by linarith+
      have "(u @ v @ w) ! k = p ! (k - length a)" using k(1) i(1) by (simp add: eq nth_append)
      moreover have "(u @ v @ w) ! k = v ! (k - length u)" using k(3) i(2) by (simp add: nth_append)
      ultimately have "p ! (k - length a) \<in> set p \<inter> set v" using i by (metis IntI nth_mem)
      with assms(4) show ?thesis by blast
    qed
  qed
qed

lemma sublist_extend: "sublist q u \<Longrightarrow> sublist q (x @ u @ y)"
  unfolding sublist_def by (metis append.assoc)

text \<open>Either the pattern does not occur, or the text splits at its first occurrence.\<close>

lemma str_replace_cases:
  assumes "pat \<noteq> []"
  shows "(\<not> sublist pat t \<and> str_replace pat rep t = t) \<or>
         (\<exists>u w. t = u @ pat @ w \<and> \<not> sublist pat u \<and>
                str_replace pat rep t = u @ rep @ str_replace pat rep w)"
  using assms
proof (induction pat rep t rule: str_replace.induct)
  case (1 pat rep t)
  show ?case
  proof (cases "t = []")
    case True
    with 1(3) show ?thesis by simp
  next
    case nonempty: False
    then obtain c cs where t: "t = c # cs" by (cases t) auto
    show ?thesis
    proof (cases "prefix pat t")
      case True
      then have "t = [] @ pat @ drop (length pat) t" by (metis append_Nil append_eq_conv_conj prefix_def)
      moreover have "str_replace pat rep t = [] @ rep @ str_replace pat rep (drop (length pat) t)"
        using True t 1(3) by (simp add: str_replace_Cons)
      moreover have "\<not> sublist pat []" using 1(3) by simp
      ultimately show ?thesis by blast
    next
      case False
      have step: "str_replace pat rep t = c # str_replace pat rep cs"
        using False t 1(3) by (simp add: str_replace_Cons)
      have IH: "(\<not> sublist pat cs \<and> str_replace pat rep cs = cs) \<or>
         (\<exists>u w. cs = u @ pat @ w \<and> \<not> sublist pat u \<and>
                str_replace pat rep cs = u @ rep @ str_replace pat rep w)"
        using 1(2) [OF _ False 1(3)] 1(3) t by simp
      then show ?thesis
      proof
        assume "\<not> sublist pat cs \<and> str_replace pat rep cs = cs"
        then show ?thesis using False step t by (simp add: sublist_Cons_right)
      next
        assume "\<exists>u w. cs = u @ pat @ w \<and> \<not> sublist pat u \<and>
                str_replace pat rep cs = u @ rep @ str_replace pat rep w"
        then obtain u w where uw: "cs = u @ pat @ w" "\<not> sublist pat u"
          "str_replace pat rep cs = u @ rep @ str_replace pat rep w" by blast
        have "\<not> prefix pat (c # u)"
          using False t uw(1) by (metis append_Cons prefix_order.trans prefixI)
        then have "\<not> sublist pat (c # u)" using uw(2) by (simp add: sublist_Cons_right)
        then show ?thesis using uw step t by (intro disjI2 exI [of _ "c # u"] exI [of _ w]) simp
      qed
    qed
  qed
qed

definition star_free :: "string \<Rightarrow> bool" where
  "star_free p \<longleftrightarrow> p \<noteq> [] \<and> CHR ''*'' \<notin> set p"

lemma sublist_across_stars:
  "star_free p \<Longrightarrow> sublist p (u @ ''***'' @ w) \<Longrightarrow> sublist p u \<or> sublist p w"
  by (rule sublist_append_sep [of p u "''***''" w]) (simp_all add: star_free_def)

lemma str_replace_removes:
  "star_free pat \<Longrightarrow> \<not> sublist pat (str_replace pat ''***'' t)"
proof (induction "length t" arbitrary: t rule: less_induct)
  case less
  have pat: "pat \<noteq> []" using less.prems by (simp add: star_free_def)
  from str_replace_cases [OF pat, of t "''***''"] show ?case
  proof (elim disjE exE conjE)
    fix u w assume uw: "t = u @ pat @ w" "\<not> sublist pat u"
      "str_replace pat ''***'' t = u @ ''***'' @ str_replace pat ''***'' w"
    have "\<not> sublist pat (str_replace pat ''***'' w)" using less.hyps [of w] less.prems uw(1) pat by simp
    then show ?thesis using sublist_across_stars [OF less.prems] uw(2,3) by metis
  qed simp
qed

lemma str_replace_keeps_absent:
  "star_free q \<Longrightarrow> pat \<noteq> [] \<Longrightarrow> \<not> sublist q t \<Longrightarrow> \<not> sublist q (str_replace pat ''***'' t)"
proof (induction "length t" arbitrary: t rule: less_induct)
  case less
  from str_replace_cases [OF less.prems(2), of t "''***''"] show ?case
  proof (elim disjE exE conjE)
    fix u w assume uw: "t = u @ pat @ w"
      "str_replace pat ''***'' t = u @ ''***'' @ str_replace pat ''***'' w"
    have absent: "\<not> sublist q u" "\<not> sublist q w"
      using less.prems(3) uw(1) sublist_extend [of q u "[]"] sublist_extend [of q w "u @ pat" "[]"] by auto
    have "\<not> sublist q (str_replace pat ''***'' w)"
      using less.hyps [of w] less.prems(1,2) absent(2) uw(1) by simp
    then show ?thesis using sublist_across_stars [OF less.prems(1)] absent(1) uw(2) by metis
  qed (use less.prems in simp)
qed

section \<open>Properties\<close>

text \<open>C16: After masking, no secret value can be read in a log line: none of the secret
  values occurs anywhere in the masked line, whatever the line and whatever the other
  secrets are, as long as the secret is not empty and contains no asterisk.\<close>

theorem masked_line_hides_secrets:
  assumes "secret \<in> set secrets" "secret \<noteq> []" "CHR ''*'' \<notin> set secret"
  shows "\<not> sublist secret (mask_secret_values s secrets)"
  using assms(1)
proof (induction secrets rule: rev_induct)
  case (snoc x xs)
  have free: "star_free secret" using assms(2,3) by (simp add: star_free_def)
  let ?m = "mask_secret_values s xs"
  have step: "mask_secret_values s (xs @ [x]) = (if x \<noteq> [] then str_replace x ''***'' ?m else ?m)"
    by (simp add: mask_secret_values_def)
  show ?case
  proof (cases "secret = x")
    case True
    then show ?thesis using step str_replace_removes [OF free] assms(2) by simp
  next
    case False
    then have "\<not> sublist secret ?m" using snoc by simp
    then show ?thesis using step str_replace_keeps_absent [OF free] by simp
  qed
qed simp

theorem masked_line_hides_secrets_witness:
  "mask_secret_values ''login abc with abcabc'' [''abc''] = ''login *** with ******''
   \<and> \<not> sublist ''abc'' (mask_secret_values ''login abc with abcabc'' [''abc''])"
proof -
  have "mask_secret_values ''login abc with abcabc'' [''abc''] = ''login *** with ******''"
    by (simp add: mask_secret_values_def str_replace_Cons)
  moreover have "\<not> sublist ''abc'' (mask_secret_values ''login abc with abcabc'' [''abc''])"
    by (rule masked_line_hides_secrets) simp_all
  ultimately show ?thesis by simp
qed

text \<open>Masking a shorter secret first leaves the tail of a longer one readable.\<close>

theorem mask_order_leaves_tail:
  "mask_secret_values ''key=abcdef'' [''abc'', ''abcdef''] = ''key=***def''"
  by (simp add: mask_secret_values_def str_replace_Cons)

end
