(* ===== verification/Log_Streamer.thy ===== *)
theory Log_Streamer
  imports Log_Aggregator Secrets
begin

text \<open>
  The worker's log streamer (\<open>ci-worker/src/log_streamer.rs\<close>): lines from the executor are
  masked, batched by size or time, and sent as chunks with running offsets.  The run of
  the \<open>select!\<close> loop is a list of events, a line received or a timer tick, each with the
  clock reading; the end of the list is the closing of the executor's channel.
  \<open>send_ok n\<close> says whether sending the \<open>n\<close>th chunk succeeds; after a failed send the loop
  stops.
\<close>

section \<open>Definitions\<close>

record LogStreamerConfig =
  cfg_batch_size_limit :: nat
  cfg_batch_time_limit_ms :: nat

definition LogStreamerConfig_default :: LogStreamerConfig where
  "LogStreamerConfig_default = \<lparr> cfg_batch_size_limit = 8 * 1024, cfg_batch_time_limit_ms = 500 \<rparr>"

datatype stream_event = Line int string | Tick int

definition make_chunk :: "string \<Rightarrow> string \<Rightarrow> int \<Rightarrow> u64 \<Rightarrow> bytes \<Rightarrow> LogChunk" where
  "make_chunk wid jid now off buf =
     \<lparr> lc_worker_id = wid, lc_job_id = jid, lc_offset = off, lc_data = buf, lc_timestamp_unix = now \<rparr>"

definition masked_line :: "string list \<Rightarrow> string \<Rightarrow> bytes" where
  "masked_line secrets l = mask_secret_values l secrets @ [CHR 0x0A]"

fun stream_loop ::
  "LogStreamerConfig \<Rightarrow> string \<Rightarrow> string \<Rightarrow> string list \<Rightarrow> (nat \<Rightarrow> bool) \<Rightarrow> int
   \<Rightarrow> stream_event list \<Rightarrow> bytes \<Rightarrow> u64 \<Rightarrow> nat \<Rightarrow> LogChunk list \<times> u64" where
  "stream_loop cfg wid jid secrets send_ok t_end [] buf off n =
     (if buf \<noteq> []
      then ((if send_ok n then [make_chunk wid jid t_end off buf] else []), next_offset off buf)
      else ([], off))"
| "stream_loop cfg wid jid secrets send_ok t_end (Line now l # evs) buf off n =
     (let buf = buf @ masked_line secrets l
      in if length buf \<ge> cfg_batch_size_limit cfg
         then let c = make_chunk wid jid now off buf; off' = next_offset off buf
              in if send_ok n
                 then let (cs, final) = stream_loop cfg wid jid secrets send_ok t_end evs [] off' (Suc n)
                      in (c # cs, final)
                 else ([], off')
         else stream_loop cfg wid jid secrets send_ok t_end evs buf off n)"
| "stream_loop cfg wid jid secrets send_ok t_end (Tick now # evs) buf off n =
     (if buf \<noteq> []
      then let c = make_chunk wid jid now off buf; off' = next_offset off buf
           in if send_ok n
              then let (cs, final) = stream_loop cfg wid jid secrets send_ok t_end evs [] off' (Suc n)
                   in (c # cs, final)
              else ([], off')
      else stream_loop cfg wid jid secrets send_ok t_end evs buf off n)"

text \<open>The whole call: the chunks handed to the gRPC stream and the returned offset.\<close>

definition stream ::
  "LogStreamerConfig \<Rightarrow> string \<Rightarrow> string \<Rightarrow> string list \<Rightarrow> (nat \<Rightarrow> bool) \<Rightarrow> int
   \<Rightarrow> stream_event list \<Rightarrow> LogChunk list \<times> u64" where
  "stream cfg wid jid secrets send_ok t_end evs = stream_loop cfg wid jid secrets send_ok t_end evs [] 0 0"

section \<open>The stream of chunks\<close>

fun event_text :: "string list \<Rightarrow> stream_event \<Rightarrow> bytes" where
  "event_text secrets (Line now l) = masked_line secrets l"
| "event_text secrets (Tick now) = []"

definition log_text :: "string list \<Rightarrow> stream_event list \<Rightarrow> bytes" where
  "log_text secrets evs = concat (map (event_text secrets) evs)"

lemma make_chunk_simps [simp]:
  "lc_offset (make_chunk wid jid now off buf) = off" "lc_data (make_chunk wid jid now off buf) = buf"
  "lc_job_id (make_chunk wid jid now off buf) = jid"
  by (simp_all add: make_chunk_def)

lemma stream_loop_contiguous:
  "contiguous off (fst (stream_loop cfg wid jid secrets send_ok t_end evs buf off n))
   \<and> (\<forall>c \<in> set (fst (stream_loop cfg wid jid secrets send_ok t_end evs buf off n)). lc_job_id c = jid \<and> lc_data c \<noteq> [])"
  by (induction cfg wid jid secrets send_ok t_end evs buf off n rule: stream_loop.induct)
    (auto simp: Let_def masked_line_def split: prod.splits)

lemma stream_loop_all_sent:
  assumes "\<And>n. send_ok n"
  shows "chunks_data (fst (stream_loop cfg wid jid secrets send_ok t_end evs buf off n)) = buf @ log_text secrets evs
       \<and> snd (stream_loop cfg wid jid secrets send_ok t_end evs buf off n) = next_offset off (buf @ log_text secrets evs)"
  using assms
  by (induction cfg wid jid secrets send_ok t_end evs buf off n rule: stream_loop.induct)
    (auto simp: Let_def log_text_def split: prod.splits)

section \<open>Properties\<close>

text \<open>Whatever the interleaving of lines and timer ticks and wherever sending breaks
  off, the chunks form one gapless stream from offset 0: each starts where the previous
  one ended, belongs to the job, and is not empty.\<close>

theorem stream_is_contiguous:
  "contiguous 0 (fst (stream cfg wid jid secrets send_ok t_end evs))
   \<and> (\<forall>c \<in> set (fst (stream cfg wid jid secrets send_ok t_end evs)). lc_job_id c = jid \<and> lc_data c \<noteq> [])"
  unfolding stream_def by (rule stream_loop_contiguous)

theorem stream_is_contiguous_witness:
  "let chunks = fst (stream \<lparr> cfg_batch_size_limit = 6, cfg_batch_time_limit_ms = 500 \<rparr> ''w1'' ''j1'' [] (\<lambda>_. True) 9
                       [Line 0 ''ab'', Tick 1, Line 2 ''cdefgh'', Line 3 ''i''])
   in length chunks = 3 \<and> contiguous 0 chunks \<and> (\<forall>c \<in> set chunks. lc_job_id c = ''j1'' \<and> lc_data c \<noteq> [])"
proof -
  let ?cfg = "\<lparr> cfg_batch_size_limit = 6, cfg_batch_time_limit_ms = 500 \<rparr>"
  let ?evs = "[Line 0 ''ab'', Tick 1, Line 2 ''cdefgh'', Line 3 ''i'']"
  have "length (fst (stream ?cfg ''w1'' ''j1'' [] (\<lambda>_. True) 9 ?evs)) = 3"
    by (simp add: stream_def masked_line_def mask_secret_values_def next_offset_def)
  then show ?thesis
    using stream_is_contiguous [of ?cfg "''w1''" "''j1''" "[]" "\<lambda>_. True" 9 ?evs] by (simp only: Let_def) blast
qed

lemma accept_chunk_fold:
  assumes "\<forall>c \<in> set cs. lc_job_id c = jid"
  shows "fold (\<lambda>c s. snd (append_chunk can_write c s)) cs s = fold (accept_chunk can_write jid) cs s"
  using assms by (induction cs arbitrary: s) (auto simp: accept_chunk_def)

text \<open>C14: End to end, batching is invisible: when every chunk is sent and delivered in
  order to an aggregator that has no log of the job yet, the log it holds is exactly the
  executor's lines, masked and newline-terminated, in order; and the offset the worker
  returns is the length of that log.  The log fits the 50 MiB buffer.\<close>

theorem stream_end_to_end:
  assumes "\<forall>n. send_ok n" "la_jobs a jid = None"
    and "length (log_text secrets evs) \<le> MAX_BUFFERED_BYTES_PER_JOB"
    and "stream cfg wid jid secrets send_ok t_end evs = (chunks, final)"
  shows "job_log jid (fst (fold (\<lambda>c s. snd (append_chunk can_write c s)) chunks (a, d))) = log_text secrets evs
       \<and> final = of_nat (length (log_text secrets evs))"
proof -
  have chunks: "chunks = fst (stream cfg wid jid secrets send_ok t_end evs)"
    and final: "final = snd (stream cfg wid jid secrets send_ok t_end evs)" using assms(4) by simp_all
  have data: "chunks_data chunks = log_text secrets evs" "final = next_offset 0 (log_text secrets evs)"
    unfolding chunks final stream_def using stream_loop_all_sent [of send_ok] assms(1) by auto
  have fold: "fold (\<lambda>c s. snd (append_chunk can_write c s)) chunks (a, d) =
              fold (accept_chunk can_write jid) chunks (a, d)"
    by (rule accept_chunk_fold) (use stream_loop_contiguous chunks in \<open>unfold stream_def, blast\<close>)
  have start: "in_step jid a" "job_log jid a = []" using assms(2) by (simp_all add: in_step_def job_log_def)
  have "contiguous (of_nat (length (job_log jid (fst (a, d))))) chunks"
    using stream_loop_contiguous chunks start(2) by (simp add: stream_def)
  then have "job_log jid (fst (fold (accept_chunk can_write jid) chunks (a, d))) = log_text secrets evs"
    using aggregator.accept_all [of jid "(a, d)" chunks can_write] start data(1) assms(3) by simp
  then show ?thesis using fold data(2) by (simp add: next_offset_def)
qed

theorem stream_end_to_end_witness:
  "let cfg = \<lparr> cfg_batch_size_limit = 6, cfg_batch_time_limit_ms = 500 \<rparr>;
       evs = [Line 0 ''ab'', Tick 1, Line 2 ''tok=xyz'', Line 3 ''c''];
       (chunks, final) = stream cfg ''w1'' ''j1'' [''xyz''] (\<lambda>_. True) 9 evs
   in length chunks = 3 \<and> final = 13
    \<and> job_log ''j1'' (fst (fold (\<lambda>c s. snd (append_chunk (\<lambda>_. True) c s)) chunks (LogAggregator_new, Map.empty)))
        = ''ab'' @ [CHR 0x0A] @ ''tok=***'' @ [CHR 0x0A] @ ''c'' @ [CHR 0x0A]"
proof -
  let ?cfg = "\<lparr> cfg_batch_size_limit = 6, cfg_batch_time_limit_ms = 500 \<rparr>"
  let ?evs = "[Line 0 ''ab'', Tick 1, Line 2 ''tok=xyz'', Line 3 ''c'']"
  obtain chunks final where run: "stream ?cfg ''w1'' ''j1'' [''xyz''] (\<lambda>_. True) 9 ?evs = (chunks, final)"
    by (cases "stream ?cfg ''w1'' ''j1'' [''xyz''] (\<lambda>_. True) 9 ?evs")
  have len: "length chunks = 3" "final = 13"
    using run by (auto simp: stream_def masked_line_def mask_secret_values_def str_replace_Cons next_offset_def)
  have shown: "log_text [''xyz''] ?evs = ''ab'' @ [CHR 0x0A] @ ''tok=***'' @ [CHR 0x0A] @ ''c'' @ [CHR 0x0A]"
    by (simp add: log_text_def masked_line_def mask_secret_values_def str_replace_Cons)
  have "length (log_text [''xyz''] ?evs) \<le> MAX_BUFFERED_BYTES_PER_JOB"
    unfolding shown by (simp add: MAX_BUFFERED_BYTES_PER_JOB_def)
  moreover have "la_jobs LogAggregator_new ''j1'' = None" by (simp add: LogAggregator_new_def)
  ultimately show ?thesis
    using stream_end_to_end [of "\<lambda>_. True" LogAggregator_new "''j1''" "[''xyz'']" ?evs ?cfg "''w1''" 9 chunks final
        "\<lambda>_. True" Map.empty] run len shown by (simp add: Let_def)
qed

end
