(* ===== verification/Chql_Lexer.thy ===== *)
theory Chql_Lexer
  imports F64 Rust_Str "HOL-Library.Sublist"
begin

text \<open>
  The lexer of ChQL, the query language of the build list (\<open>query/lexer.rs\<close>,
  \<open>query/error.rs\<close>).  Strings are UTF-8 byte strings.  The token rules are the
  attributes of the \<open>Token\<close> enum: the longest match wins, on equal length the higher
  priority.  A word is matched once by its maximal munch, since keywords and numbers
  are words of identifier characters.  Number literals are rounded to binary64.
\<close>

section \<open>Errors\<close>

record ChqlError =
  ce_message :: string
  ce_position :: "nat option"
  ce_hint :: "string option"

definition ChqlError_new :: "string \<Rightarrow> ChqlError" where
  "ChqlError_new message = \<lparr> ce_message = message, ce_position = None, ce_hint = None \<rparr>"

definition err_at :: "string \<Rightarrow> nat \<Rightarrow> ChqlError" where
  "err_at message position = \<lparr> ce_message = message, ce_position = Some position, ce_hint = None \<rparr>"

definition with_hint :: "string \<Rightarrow> ChqlError \<Rightarrow> ChqlError" where
  "with_hint hint e = e\<lparr> ce_hint := Some hint \<rparr>"

definition display_error :: "ChqlError \<Rightarrow> string" where
  "display_error e =
     (case ce_position e of
        Some pos \<Rightarrow> ''ChQL error at position '' @ nat_to_dec pos @ '': '' @ ce_message e
      | None \<Rightarrow> ''ChQL error: '' @ ce_message e)
     @ (case ce_hint e of Some hint \<Rightarrow> '' (hint: '' @ hint @ '')'' | None \<Rightarrow> [])"

definition bad_request_message :: "ChqlError \<Rightarrow> string" where
  "bad_request_message e =
     (let msg = ce_message e;
          msg = (case ce_position e of Some pos \<Rightarrow> msg @ '' (position '' @ nat_to_dec pos @ '')'' | None \<Rightarrow> msg)
      in case ce_hint e of Some hint \<Rightarrow> msg @ '': '' @ hint | None \<Rightarrow> msg)"

section \<open>Tokens\<close>

record StrLit =
  sl_value :: string
  sl_terminated :: bool

datatype Token =
    TkBangEq | TkGte | TkLte | TkBang | TkGt | TkLt | TkColon | TkComma
  | TkLBracket | TkRBracket | TkLParen | TkRParen | TkAnd | TkOr | TkNot
  | TkString StrLit | TkNumber f64 | TkIdent string

type_synonym span = "nat \<times> nat"
type_synonym toks = "(Token \<times> span) list"

section \<open>Character classes\<close>

definition is_alpha :: "char \<Rightarrow> bool" where
  "is_alpha c \<longleftrightarrow> (65 \<le> code c \<and> code c \<le> 90) \<or> (97 \<le> code c \<and> code c \<le> 122)"

definition ident_start :: "char \<Rightarrow> bool" where
  "ident_start c \<longleftrightarrow> is_alpha c \<or> is_digit c \<or> c = CHR ''_'' \<or> c = CHR ''-''"

definition ident_char :: "char \<Rightarrow> bool" where
  "ident_char c \<longleftrightarrow> ident_start c \<or> c = CHR ''.'' \<or> c = CHR ''/'' \<or> c = CHR ''+'' \<or> c = CHR ''*''"

definition skipped :: "char \<Rightarrow> bool" where
  "skipped c \<longleftrightarrow> code c \<in> {32, 9, 13, 10}"

definition continuation :: "char \<Rightarrow> bool" where
  "continuation c \<longleftrightarrow> 128 \<le> code c \<and> code c < 192"

section \<open>Numbers\<close>

text \<open>\<open>-?[0-9]+(\.[0-9]+)?\<close> matched against a whole word.\<close>

definition unsigned_number :: "string \<Rightarrow> rat option" where
  "unsigned_number w =
     (let whole = takeWhile is_digit w; rest = dropWhile is_digit w
      in if whole = [] then None
         else case rest of
                [] \<Rightarrow> Some (of_nat (digits_value whole))
              | c # fr \<Rightarrow>
                  if c = CHR ''.'' \<and> fr \<noteq> [] \<and> list_all is_digit fr
                  then Some (of_nat (digits_value (whole @ fr)) / 10 ^ length fr) else None)"

definition number_literal :: "string \<Rightarrow> f64 option" where
  "number_literal w =
     (case w of
        [] \<Rightarrow> None
      | c # r \<Rightarrow> if c = CHR ''-'' then map_option (\<lambda>q. f64_round (- q)) (unsigned_number r)
                 else map_option f64_round (unsigned_number w))"

section \<open>String literals\<close>

text \<open>The bytes the pattern of a literal matches after its opening quote: plain bytes and
  escaped ones, then the closing quote if there is one.\<close>

fun lit_len :: "string \<Rightarrow> nat" where
  "lit_len [] = 0"
| "lit_len (c # cs) =
     (if c = CHR 0x22 then 1
      else if c = CHR 0x5C then
        (case cs of [] \<Rightarrow> 0 | d # ds \<Rightarrow> if d = CHR 0x0A then 0 else 2 + lit_len ds)
      else 1 + lit_len cs)"

fun unescape :: "string \<Rightarrow> string" where
  "unescape [] = []"
| "unescape (c # cs) =
     (if c = CHR 0x5C then
        (case cs of
           [] \<Rightarrow> [CHR 0x5C]
         | d # ds \<Rightarrow> (if d = CHR ''n'' then CHR 0x0A else if d = CHR ''t'' then CHR 0x09 else d) # unescape ds)
      else c # unescape cs)"

text \<open>\<open>lex_string\<close> on the matched slice, opening quote included.\<close>

definition lex_string :: "string \<Rightarrow> StrLit" where
  "lex_string lit =
     (let terminated = length lit \<ge> 2 \<and> last lit = CHR 0x22;
          inner = drop 1 (if terminated then butlast lit else lit)
      in \<lparr> sl_value = unescape inner, sl_terminated = terminated \<rparr>)"

section \<open>Tokenising\<close>

definition word_token :: "string \<Rightarrow> Token" where
  "word_token w =
     (if map lower w = ''and'' then TkAnd
      else if map lower w = ''or'' then TkOr
      else if map lower w = ''not'' then TkNot
      else case number_literal w of Some n \<Rightarrow> TkNumber n | None \<Rightarrow> TkIdent w)"

definition punct_token :: "string \<Rightarrow> (Token \<times> nat) option" where
  "punct_token s =
     (if prefix ''!='' s then Some (TkBangEq, 2) else if prefix ''>='' s then Some (TkGte, 2)
      else if prefix ''<='' s then Some (TkLte, 2) else if prefix ''!'' s then Some (TkBang, 1)
      else if prefix ''>'' s then Some (TkGt, 1) else if prefix ''<'' s then Some (TkLt, 1)
      else if prefix '':'' s then Some (TkColon, 1) else if prefix '','' s then Some (TkComma, 1)
      else if prefix ''['' s then Some (TkLBracket, 1) else if prefix '']'' s then Some (TkRBracket, 1)
      else if prefix ''('' s then Some (TkLParen, 1) else if prefix '')'' s then Some (TkRParen, 1)
      else None)"

text \<open>One token at the start of a non-empty, non-blank input, and its length; or no token.\<close>

definition next_token :: "string \<Rightarrow> (Token \<times> nat) option" where
  "next_token s =
     (case s of
        [] \<Rightarrow> None
      | c # cs \<Rightarrow>
          if c = CHR 0x22 then let n = 1 + lit_len cs in Some (TkString (lex_string (take n s)), n)
          else if ident_start c then let w = takeWhile ident_char s in Some (word_token w, length w)
          else punct_token s)"

definition bad_slice :: "string \<Rightarrow> string" where
  "bad_slice s = (case s of [] \<Rightarrow> [] | c # cs \<Rightarrow> c # takeWhile continuation cs)"

lemma next_token_pos: "next_token s = Some (t, n) \<Longrightarrow> 0 < n"
  by (auto simp: next_token_def punct_token_def Let_def ident_char_def split: list.splits if_splits)

function tokenize_from :: "nat \<Rightarrow> string \<Rightarrow> ChqlError + toks" where
  "tokenize_from pos s =
     (case s of
        [] \<Rightarrow> Inr []
      | c # cs \<Rightarrow>
          if skipped c then tokenize_from (pos + 1) cs
          else case next_token s of
                 None \<Rightarrow> Inl (err_at (''Unexpected character '' @ [CHR 0x27] @ bad_slice s @ [CHR 0x27]) pos)
               | Some (t, n) \<Rightarrow>
                   (case tokenize_from (pos + n) (drop n s) of
                      Inl e \<Rightarrow> Inl e
                    | Inr ts \<Rightarrow> Inr ((t, pos, pos + n) # ts)))"
  by pat_completeness auto

termination tokenize_from
  by (relation "measure (\<lambda>(pos, s). length s)") (auto dest: next_token_pos)

declare tokenize_from.simps [simp del]

definition tokenize :: "string \<Rightarrow> ChqlError + toks" where
  "tokenize input = tokenize_from 0 input"

end
