(* ===== verification/Chql_Parser.thy ===== *)
theory Chql_Parser
  imports Chql_Lexer
begin

text \<open>
  The ChQL parser (\<open>query/ast.rs\<close>, \<open>query/parser.rs\<close>): recursive descent over the tokens,
  the position kept as the list of tokens still to read.  The four mutually recursive
  methods and the loops of two of them are one mutual recursion that terminates because
  every successful call consumes tokens.
\<close>

section \<open>Syntax trees\<close>

datatype CmpOp = OpEq | OpNeq | OpGt | OpGte | OpLt | OpLte | OpIlikeContains | OpRegex | OpWildcard

datatype chql_value = VStr string | VNum f64 | VDate string

datatype Ast =
    AAnd Ast Ast
  | AOr Ast Ast
  | ANot Ast
  | ACmp string CmpOp chql_value
  | AInRange string chql_value chql_value

definition VALID_FIELDS :: "string list" where
  "VALID_FIELDS = [''state'', ''branch'', ''repo'', ''repo_id'', ''stage'', ''exit_code'', ''created_at'', ''completed_at'']"

definition is_date_field :: "string \<Rightarrow> bool" where
  "is_date_field name \<longleftrightarrow> name = ''created_at'' \<or> name = ''completed_at''"

section \<open>Messages\<close>

fun tok_display :: "Token \<Rightarrow> string" where
  "tok_display TkBangEq = quoted ''!=''"
| "tok_display TkGte = quoted ''>=''"
| "tok_display TkLte = quoted ''<=''"
| "tok_display TkBang = quoted ''!''"
| "tok_display TkGt = quoted ''>''"
| "tok_display TkLt = quoted ''<''"
| "tok_display TkColon = quoted '':''"
| "tok_display TkComma = quoted '',''"
| "tok_display TkLBracket = quoted ''[''"
| "tok_display TkRBracket = quoted '']''"
| "tok_display TkLParen = quoted ''(''"
| "tok_display TkRParen = quoted '')''"
| "tok_display TkAnd = quoted ''AND''"
| "tok_display TkOr = quoted ''OR''"
| "tok_display TkNot = quoted ''NOT''"
| "tok_display (TkIdent s) = quoted s"
| "tok_display (TkString s) = [CHR 0x22] @ sl_value s @ [CHR 0x22]"
| "tok_display (TkNumber n) = f64_display n"

definition unexpected :: "Token \<times> span \<Rightarrow> ChqlError" where
  "unexpected t = err_at (''Unexpected token '' @ tok_display (fst t)) (fst (snd t))"

definition unterminated_string :: "span \<Rightarrow> ChqlError" where
  "unterminated_string sp = err_at ''Unterminated string literal'' (fst sp)"

definition unterminated_call :: "nat \<Rightarrow> ChqlError" where
  "unterminated_call = err_at (''Unterminated function call: expected string literal then '' @ quoted '')'')"

definition unterminated_range :: "nat \<Rightarrow> ChqlError" where
  "unterminated_range = err_at (''Unterminated range: expected number or string then '' @ quoted '']'')"

section \<open>Values\<close>

type_synonym 'a parsed = "ChqlError + 'a \<times> toks"

definition peek_tok :: "toks \<Rightarrow> Token option" where
  "peek_tok ts = (case ts of [] \<Rightarrow> None | (t, _) # _ \<Rightarrow> Some t)"

definition parse_range_endpoint :: "string \<Rightarrow> nat \<Rightarrow> toks \<Rightarrow> chql_value parsed" where
  "parse_range_endpoint field_name fallback_pos ts =
     (case ts of
        [] \<Rightarrow> Inl (unterminated_range fallback_pos)
      | (tok, sp) # r \<Rightarrow>
          (case tok of
             TkNumber n \<Rightarrow> Inr (VNum n, r)
           | TkString s \<Rightarrow>
               if \<not> sl_terminated s then Inl (unterminated_string sp)
               else Inr (if is_date_field field_name then VDate (sl_value s) else VStr (sl_value s), r)
           | _ \<Rightarrow> Inl (unterminated_range (fst sp))))"

definition starts_endpoint :: "Token \<Rightarrow> bool" where
  "starts_endpoint t \<longleftrightarrow> (case t of TkNumber _ \<Rightarrow> True | TkString _ \<Rightarrow> True | _ \<Rightarrow> False)"

definition parse_range :: "string \<Rightarrow> span \<Rightarrow> toks \<Rightarrow> Ast parsed" where
  "parse_range field_name open_span ts =
     and_then (parse_range_endpoint field_name (snd open_span) ts) (\<lambda>(lo, r).
       if peek_tok r \<noteq> Some TkComma then Inl (unterminated_range (snd open_span + 1))
       else if tl r = [] then Inl (unterminated_range (snd open_span + 4))
       else let next_tok = fst (hd (tl r)); next_span = snd (hd (tl r))
            in if \<not> starts_endpoint next_tok then Inl (unterminated_range (fst next_span))
               else and_then (parse_range_endpoint field_name (fst next_span) (tl r)) (\<lambda>(hi, r').
                      if peek_tok r' = Some TkRBracket then Inr (AInRange field_name lo hi, tl r')
                      else Inl (unterminated_range (snd open_span))))"

definition parse_call :: "string \<Rightarrow> string \<Rightarrow> span \<Rightarrow> toks \<Rightarrow> Ast parsed" where
  "parse_call field_name fn_name call_open_span ts =
     (case ts of
        [] \<Rightarrow> Inl (unterminated_call (snd call_open_span + 1))
      | (tok, sp) # r \<Rightarrow>
          (case tok of
             TkString s \<Rightarrow>
               if \<not> sl_terminated s then Inl (unterminated_string sp)
               else if peek_tok r \<noteq> Some TkRParen then Inl (unterminated_call (snd call_open_span + 1))
               else Inr (ACmp field_name (if fn_name = ''i'' then OpIlikeContains else OpRegex) (VStr (sl_value s)), tl r)
           | _ \<Rightarrow> Inl (unterminated_call (fst sp))))"

definition parse_neq :: "string \<Rightarrow> span \<Rightarrow> toks \<Rightarrow> Ast parsed" where
  "parse_neq field_name sp ts =
     (case ts of
        [] \<Rightarrow> Inl (err_at (''Expected value after '' @ quoted ''!'') (snd sp))
      | (next_tok, next_span) # r \<Rightarrow>
          (case next_tok of
             TkString s \<Rightarrow>
               if \<not> sl_terminated s then Inl (unterminated_string next_span)
               else Inr (ACmp field_name OpNeq (VStr (sl_value s)), r)
           | TkIdent w \<Rightarrow> Inr (ACmp field_name OpNeq (VStr w), r)
           | TkNumber n \<Rightarrow> Inr (ACmp field_name OpNeq (VNum n), r)
           | other \<Rightarrow> Inl (err_at (''Expected value after '' @ quoted ''!'' @ '', got '' @ tok_display other) (fst next_span))))"

definition parse_order :: "string \<Rightarrow> CmpOp \<Rightarrow> span \<Rightarrow> toks \<Rightarrow> Ast parsed" where
  "parse_order field_name op sp ts =
     (case ts of
        [] \<Rightarrow> Inl (err_at ''Expected number or string after comparison operator'' (snd sp))
      | (n_tok, n_span) # r \<Rightarrow>
          (case n_tok of
             TkNumber n \<Rightarrow> Inr (ACmp field_name op (VNum n), r)
           | TkString s \<Rightarrow>
               if \<not> sl_terminated s then Inl (unterminated_string n_span)
               else Inr (ACmp field_name op (if is_date_field field_name then VDate (sl_value s) else VStr (sl_value s)), r)
           | other \<Rightarrow> Inl (err_at (''Expected number or string after comparison operator, got '' @ tok_display other)
                           (fst n_span))))"

definition eq_or_wildcard :: "string \<Rightarrow> CmpOp" where
  "eq_or_wildcard v = (if CHR ''*'' \<in> set v then OpWildcard else OpEq)"

definition parse_value :: "string \<Rightarrow> span \<Rightarrow> toks \<Rightarrow> Ast parsed" where
  "parse_value field_name field_span ts =
     (case ts of
        [] \<Rightarrow> Inl (err_at (''Expected value after '' @ quoted '':'') (snd field_span + 1))
      | (tok, sp) # r \<Rightarrow>
          (case tok of
             TkBang \<Rightarrow> parse_neq field_name sp r
           | TkBangEq \<Rightarrow> parse_neq field_name sp r
           | TkLBracket \<Rightarrow> parse_range field_name sp r
           | TkGte \<Rightarrow> parse_order field_name OpGte sp r
           | TkGt \<Rightarrow> parse_order field_name OpGt sp r
           | TkLte \<Rightarrow> parse_order field_name OpLte sp r
           | TkLt \<Rightarrow> parse_order field_name OpLt sp r
           | TkIdent w \<Rightarrow>
               if (w = ''i'' \<or> w = ''re'') \<and> peek_tok r = Some TkLParen then parse_call field_name w sp (tl r)
               else Inr (ACmp field_name (eq_or_wildcard w) (VStr w), r)
           | TkString s \<Rightarrow>
               if \<not> sl_terminated s then Inl (unterminated_string sp)
               else let v = sl_value s; op = eq_or_wildcard v
                    in Inr (ACmp field_name op (if is_date_field field_name \<and> op = OpEq then VDate v else VStr v), r)
           | TkNumber n \<Rightarrow> Inr (ACmp field_name OpEq (VNum n), r)
           | other \<Rightarrow> Inl (unexpected (other, sp))))"

definition expect_field_term :: "string \<Rightarrow> span \<Rightarrow> toks \<Rightarrow> Ast parsed" where
  "expect_field_term field_name field_span ts =
     (if field_name \<notin> set VALID_FIELDS
      then Inl (err_at (''Unknown field '' @ quoted field_name @ ''. Valid fields: '' @ str_join '', '' VALID_FIELDS)
                  (fst field_span))
      else case ts of
             [] \<Rightarrow> Inl (err_at (''Expected '' @ quoted '':'' @ '' after field '' @ quoted field_name) (snd field_span))
           | (tok, sp) # r \<Rightarrow>
               if tok = TkColon then parse_value field_name field_span r
               else Inl (err_at (''Expected '' @ quoted '':'' @ '' after field '' @ quoted field_name @ '', got '' @ tok_display tok)
                           (fst sp)))"

section \<open>Expressions\<close>

definition check_leading :: "toks \<Rightarrow> ChqlError + unit" where
  "check_leading ts =
     (case ts of
        [] \<Rightarrow> Inr ()
      | (tok, sp) # _ \<Rightarrow>
          if tok = TkOr then Inl (err_at (''Unexpected '' @ quoted ''OR'' @ '': expected expression'') (fst sp))
          else if tok = TkAnd then Inl (err_at (''Unexpected '' @ quoted ''AND'' @ '': expected expression'') (fst sp))
          else if tok = TkRParen then Inl (err_at (''Unexpected token '' @ quoted '')'') (fst sp))
          else Inr ())"

definition can_start_atom :: "Token \<Rightarrow> bool" where
  "can_start_atom t \<longleftrightarrow>
     (case t of TkIdent _ \<Rightarrow> True | TkLParen \<Rightarrow> True | TkNot \<Rightarrow> True | TkString _ \<Rightarrow> True | _ \<Rightarrow> False)"

function (sequential)
  parse_or :: "toks \<Rightarrow> Ast parsed"
  and or_loop :: "Ast \<Rightarrow> toks \<Rightarrow> Ast parsed"
  and parse_and :: "toks \<Rightarrow> Ast parsed"
  and and_loop :: "Ast \<Rightarrow> toks \<Rightarrow> Ast parsed"
  and parse_not :: "toks \<Rightarrow> Ast parsed"
  and parse_atom :: "toks \<Rightarrow> Ast parsed"
where
  "parse_or ts =
     and_then (check_leading ts) (\<lambda>_. and_then (parse_and ts) (\<lambda>(left, r). or_loop left r))"
| "or_loop left ts =
     (if peek_tok ts = Some TkOr then
        (if tl ts = [] then Inl (err_at (''Expected expression after '' @ quoted ''OR'') (snd (snd (hd ts))))
         else and_then (parse_and (tl ts)) (\<lambda>(right, r). or_loop (AOr left right) r))
      else Inr (left, ts))"
| "parse_and ts = and_then (parse_not ts) (\<lambda>(left, r). and_loop left r)"
| "and_loop left ts =
     (if peek_tok ts = Some TkAnd then
        (if tl ts = [] then Inl (err_at (''Expected expression after '' @ quoted ''AND'') (snd (snd (hd ts))))
         else and_then (parse_not (tl ts)) (\<lambda>(right, r). and_loop (AAnd left right) r))
      else if ts \<noteq> [] \<and> can_start_atom (fst (hd ts)) then
        and_then (parse_not ts) (\<lambda>(right, r). and_loop (AAnd left right) r)
      else Inr (left, ts))"
| "parse_not ts =
     (if peek_tok ts = Some TkNot then and_then (parse_atom (tl ts)) (\<lambda>(inner, r). Inr (ANot inner, r))
      else parse_atom ts)"
| "parse_atom ts =
     (if ts = [] then Inl (err_at ''Expected expression'' 0)
      else if fst (hd ts) = TkLParen then
        and_then (parse_or (tl ts)) (\<lambda>(inner, r).
          if peek_tok r = Some TkRParen then Inr (inner, tl r)
          else Inl (err_at (''Unclosed parenthesis: expected '' @ quoted '')'') (fst (snd (hd ts)))))
      else case fst (hd ts) of
             TkIdent name \<Rightarrow> expect_field_term name (snd (hd ts)) (tl ts)
           | _ \<Rightarrow> Inl (unexpected (hd ts)))"
  by pat_completeness auto

lemma peek_tok_Some [simp]: "peek_tok ts = Some t \<Longrightarrow> length (tl ts) < length ts"
  by (auto simp: peek_tok_def split: list.splits)

lemma parse_range_endpoint_consumes: "parse_range_endpoint f n ts = Inr (v, r) \<Longrightarrow> length r < length ts"
  by (auto simp: parse_range_endpoint_def split: list.splits Token.splits if_splits)

lemma parse_range_consumes:
  assumes "parse_range f sp ts = Inr (v, r)"
  shows "length r < length ts"
proof -
  obtain lo r1 hi r2 where "parse_range_endpoint f (snd sp) ts = Inr (lo, r1)" "r = tl r2"
    and "\<exists>n. parse_range_endpoint f n (tl r1) = Inr (hi, r2)"
    using assms by (auto simp: parse_range_def and_then_Inr_iff Let_def split: if_splits)
  then show ?thesis by (auto dest!: parse_range_endpoint_consumes)
qed

lemma parse_value_consumes: "parse_value f sp ts = Inr (v, r) \<Longrightarrow> length r < length ts"
  by (auto simp: parse_value_def parse_neq_def parse_order_def parse_call_def Let_def split: list.splits Token.splits if_splits
      dest!: parse_range_consumes peek_tok_Some)

lemma expect_field_term_consumes: "expect_field_term f sp ts = Inr (v, r) \<Longrightarrow> length r < length ts"
  by (auto simp: expect_field_term_def split: list.splits if_splits dest!: parse_value_consumes)


lemma parse_consumes_dom:
  "parse_or_or_loop_parse_and_and_loop_parse_not_parse_atom_dom (Inl (Inl ts)) \<Longrightarrow>
     (\<forall>a r. parse_or ts = Inr (a, r) \<longrightarrow> length r < length ts)"
  "parse_or_or_loop_parse_and_and_loop_parse_not_parse_atom_dom (Inl (Inr (Inl (left, ts)))) \<Longrightarrow>
     (\<forall>a r. or_loop left ts = Inr (a, r) \<longrightarrow> length r \<le> length ts)"
  "parse_or_or_loop_parse_and_and_loop_parse_not_parse_atom_dom (Inl (Inr (Inr ts))) \<Longrightarrow>
     (\<forall>a r. parse_and ts = Inr (a, r) \<longrightarrow> length r < length ts)"
  "parse_or_or_loop_parse_and_and_loop_parse_not_parse_atom_dom (Inr (Inl (left, ts))) \<Longrightarrow>
     (\<forall>a r. and_loop left ts = Inr (a, r) \<longrightarrow> length r \<le> length ts)"
  "parse_or_or_loop_parse_and_and_loop_parse_not_parse_atom_dom (Inr (Inr (Inl ts))) \<Longrightarrow>
     (\<forall>a r. parse_not ts = Inr (a, r) \<longrightarrow> length r < length ts)"
  "parse_or_or_loop_parse_and_and_loop_parse_not_parse_atom_dom (Inr (Inr (Inr ts))) \<Longrightarrow>
     (\<forall>a r. parse_atom ts = Inr (a, r) \<longrightarrow> length r < length ts)"
proof (induction ts and left ts and ts and left ts and ts and ts rule: parse_or_or_loop_parse_and_and_loop_parse_not_parse_atom.pinduct)
  case (1 ts)
  then show ?case by (fastforce simp: parse_or.psimps and_then_Inr_iff)
next
  case (2 left ts)
  then show ?case by (fastforce simp: or_loop.psimps and_then_Inr_iff split: if_splits dest: peek_tok_Some)
next
  case (3 ts)
  then show ?case by (fastforce simp: parse_and.psimps and_then_Inr_iff)
next
  case (4 left ts)
  then show ?case by (fastforce simp: and_loop.psimps and_then_Inr_iff split: if_splits dest: peek_tok_Some)
next
  case (5 ts)
  then show ?case by (fastforce simp: parse_not.psimps and_then_Inr_iff split: if_splits dest: peek_tok_Some)
next
  case (6 ts)
  then show ?case
    by (fastforce simp: parse_atom.psimps and_then_Inr_iff split: if_splits Token.splits
        dest: peek_tok_Some expect_field_term_consumes)
qed

lemma tail_measure: "ts \<noteq> [] \<Longrightarrow> 3 + 5 * (length ts - Suc 0) < 5 * length ts"
  by (cases ts) simp_all

termination parse_or
  by (relation "measure (\<lambda>x. case x of
    Inl (Inl ts) \<Rightarrow> 5 * length ts + 4 | Inl (Inr (Inl (_, ts))) \<Rightarrow> 5 * length ts
  | Inl (Inr (Inr ts)) \<Rightarrow> 5 * length ts + 3 | Inr (Inl (_, ts)) \<Rightarrow> 5 * length ts + 3
  | Inr (Inr (Inl ts)) \<Rightarrow> 5 * length ts + 2 | Inr (Inr (Inr ts)) \<Rightarrow> 5 * length ts + 1)")
    (auto simp: tail_measure dest: peek_tok_Some parse_consumes_dom)

declare parse_or.simps [simp del] or_loop.simps [simp del] parse_and.simps [simp del]
  and_loop.simps [simp del] parse_not.simps [simp del] parse_atom.simps [simp del]

text \<open>\<open>str::trim\<close> of a UTF-8 string is empty: every character is Unicode white space.\<close>

fun blank :: "nat list \<Rightarrow> bool" where
  "blank [] = True"
| "blank (a # cs) =
     ((a = 32 \<or> (9 \<le> a \<and> a \<le> 13)) \<and> blank cs
      \<or> (case cs of
           b # cs' \<Rightarrow>
             a = 0xC2 \<and> (b = 0x85 \<or> b = 0xA0) \<and> blank cs'
             \<or> (case cs' of
                  c # cs'' \<Rightarrow>
                    (a = 0xE1 \<and> b = 0x9A \<and> c = 0x80
                     \<or> a = 0xE2 \<and> b = 0x80 \<and> (0x80 \<le> c \<and> c \<le> 0x8A \<or> c = 0xA8 \<or> c = 0xA9 \<or> c = 0xAF)
                     \<or> a = 0xE2 \<and> b = 0x81 \<and> c = 0x9F \<or> a = 0xE3 \<and> b = 0x80 \<and> c = 0x80) \<and> blank cs''
                | [] \<Rightarrow> False)
         | [] \<Rightarrow> False))"

definition parse :: "string \<Rightarrow> ChqlError + Ast option" where
  "parse input =
     (if blank (map code input) then Inr None
      else and_then (tokenize input) (\<lambda>tokens.
        if tokens = [] then Inr None
        else and_then (parse_or tokens) (\<lambda>(ast, r).
          if r \<noteq> [] then Inl (unexpected (hd r)) else Inr (Some ast))))"

lemma parse_Some_iff:
  "parse s = Inr (Some a) \<longleftrightarrow>
     \<not> blank (map code s) \<and> (\<exists>ts. tokenize s = Inr ts \<and> ts \<noteq> [] \<and> parse_or ts = Inr (a, []))"
  by (auto simp: parse_def and_then_Inr_iff split: if_splits)

end
