(* ===== verification/Chql_Print.thy ===== *)
theory Chql_Print
  imports Chql_Parser
begin

text \<open>
  A printer for ChQL and the round trip through lexer and parser.  The printer is the
  specification of the grammar: \<open>or\<close> binds weakest, then \<open>and\<close>, then \<open>not\<close>; chains
  associate to the left; parentheses are written only where the grammar needs them.
\<close>

section \<open>Printing\<close>

definition str_tok :: "string \<Rightarrow> Token" where
  "str_tok s = TkString \<lparr> sl_value = s, sl_terminated = True \<rparr>"

fun value_tok :: "chql_value \<Rightarrow> Token" where
  "value_tok (VStr s) = str_tok s"
| "value_tok (VDate s) = str_tok s"
| "value_tok (VNum n) = TkNumber n"

fun op_toks :: "CmpOp \<Rightarrow> Token list \<Rightarrow> Token list" where
  "op_toks OpNeq v = TkBang # v"
| "op_toks OpGt v = TkGt # v"
| "op_toks OpGte v = TkGte # v"
| "op_toks OpLt v = TkLt # v"
| "op_toks OpLte v = TkLte # v"
| "op_toks OpIlikeContains v = [TkIdent ''i'', TkLParen] @ v @ [TkRParen]"
| "op_toks OpRegex v = [TkIdent ''re'', TkLParen] @ v @ [TkRParen]"
| "op_toks _ v = v"

fun level :: "Ast \<Rightarrow> nat" where
  "level (AOr _ _) = 0"
| "level (AAnd _ _) = 1"
| "level (ANot _) = 2"
| "level _ = 3"

definition paren :: "bool \<Rightarrow> Token list \<Rightarrow> Token list" where
  "paren b ts = (if b then TkLParen # ts @ [TkRParen] else ts)"

primrec show_toks :: "Ast \<Rightarrow> nat \<Rightarrow> Token list" where
  "show_toks (AOr l r) k = paren (k > 0) (show_toks l 0 @ TkOr # show_toks r 1)"
| "show_toks (AAnd l r) k = paren (k > 1) (show_toks l 1 @ TkAnd # show_toks r 2)"
| "show_toks (ANot e) k = paren (k > 2) (TkNot # show_toks e 3)"
| "show_toks (ACmp f op v) k = TkIdent f # TkColon # op_toks op [value_tok v]"
| "show_toks (AInRange f lo hi) k = [TkIdent f, TkColon, TkLBracket, value_tok lo, TkComma, value_tok hi, TkRBracket]"

fun escape :: "string \<Rightarrow> string" where
  "escape [] = []"
| "escape (c # cs) = (if c = CHR 0x22 \<or> c = CHR 0x5C then CHR 0x5C # c # escape cs else c # escape cs)"

fun tok_text :: "Token \<Rightarrow> string" where
  "tok_text TkBangEq = ''!=''"
| "tok_text TkGte = ''>=''"
| "tok_text TkLte = ''<=''"
| "tok_text TkBang = ''!''"
| "tok_text TkGt = ''>''"
| "tok_text TkLt = ''<''"
| "tok_text TkColon = '':''"
| "tok_text TkComma = '',''"
| "tok_text TkLBracket = ''[''"
| "tok_text TkRBracket = '']''"
| "tok_text TkLParen = ''(''"
| "tok_text TkRParen = '')''"
| "tok_text TkAnd = ''and''"
| "tok_text TkOr = ''or''"
| "tok_text TkNot = ''not''"
| "tok_text (TkString s) = [CHR 0x22] @ escape (sl_value s) @ [CHR 0x22]"
| "tok_text (TkNumber n) = f64_display n"
| "tok_text (TkIdent s) = s"

definition print_query :: "Ast \<Rightarrow> string" where
  "print_query a = concat (map (\<lambda>t. tok_text t @ '' '') (show_toks a 0))"

section \<open>Queries the grammar can express\<close>

definition number_ok :: "f64 \<Rightarrow> bool" where
  "number_ok n \<longleftrightarrow> number_literal (f64_display n) = Some n"

fun endpoint_ok :: "string \<Rightarrow> chql_value \<Rightarrow> bool" where
  "endpoint_ok f (VNum n) = number_ok n"
| "endpoint_ok f (VStr s) \<longleftrightarrow> \<not> is_date_field f"
| "endpoint_ok f (VDate s) \<longleftrightarrow> is_date_field f"

fun cmp_ok :: "string \<Rightarrow> CmpOp \<Rightarrow> chql_value \<Rightarrow> bool" where
  "cmp_ok f OpEq (VNum n) = number_ok n"
| "cmp_ok f OpEq (VStr s) \<longleftrightarrow> CHR ''*'' \<notin> set s \<and> \<not> is_date_field f"
| "cmp_ok f OpEq (VDate s) \<longleftrightarrow> CHR ''*'' \<notin> set s \<and> is_date_field f"
| "cmp_ok f OpWildcard v \<longleftrightarrow> (case v of VStr s \<Rightarrow> CHR ''*'' \<in> set s | _ \<Rightarrow> False)"
| "cmp_ok f OpNeq v \<longleftrightarrow> (case v of VStr s \<Rightarrow> True | VNum n \<Rightarrow> number_ok n | _ \<Rightarrow> False)"
| "cmp_ok f OpIlikeContains v \<longleftrightarrow> (case v of VStr s \<Rightarrow> True | _ \<Rightarrow> False)"
| "cmp_ok f OpRegex v \<longleftrightarrow> (case v of VStr s \<Rightarrow> True | _ \<Rightarrow> False)"
| "cmp_ok f op v = endpoint_ok f v"

primrec expressible :: "Ast \<Rightarrow> bool" where
  "expressible (AAnd l r) \<longleftrightarrow> expressible l \<and> expressible r"
| "expressible (AOr l r) \<longleftrightarrow> expressible l \<and> expressible r"
| "expressible (ANot e) \<longleftrightarrow> expressible e"
| "expressible (ACmp f op v) \<longleftrightarrow> f \<in> set VALID_FIELDS \<and> cmp_ok f op v"
| "expressible (AInRange f lo hi) \<longleftrightarrow> f \<in> set VALID_FIELDS \<and> endpoint_ok f lo \<and> endpoint_ok f hi"

section \<open>Parsing printed tokens\<close>

lemma show_toks_nonempty [simp]: "show_toks a k \<noteq> []"
  by (cases a) (simp_all add: paren_def)

definition toks_of :: "toks \<Rightarrow> Token list" where
  "toks_of ts = map fst ts"

lemma toks_of_Cons [simp]: "toks_of ts = t # us \<longleftrightarrow> (\<exists>sp ts'. ts = (t, sp) # ts' \<and> toks_of ts' = us)"
  by (cases ts) (auto simp: toks_of_def)

lemma toks_of_append: "toks_of ts = us @ vs \<longleftrightarrow> (\<exists>a b. ts = a @ b \<and> toks_of a = us \<and> toks_of b = vs)"
  by (auto simp: toks_of_def map_eq_append_conv)

lemma toks_of_Nil [simp]: "toks_of ts = [] \<longleftrightarrow> ts = []"
  by (simp add: toks_of_def)

lemma endpoint_parses:
  "endpoint_ok f v \<Longrightarrow> parse_range_endpoint f n ((value_tok v, sp) # r) = Inr (v, r)"
  by (cases v) (auto simp: parse_range_endpoint_def str_tok_def)

lemma starts_endpoint_value [simp]: "starts_endpoint (value_tok v)"
  by (cases v) (auto simp: starts_endpoint_def str_tok_def)

lemma range_parses:
  assumes "endpoint_ok f lo" "endpoint_ok f hi"
  shows "parse_range f osp ((value_tok lo, s1) # (TkComma, s2) # (value_tok hi, s3) # (TkRBracket, s4) # r) = Inr (AInRange f lo hi, r)"
  using assms by (simp add: parse_range_def endpoint_parses peek_tok_def)

lemma cmp_parses:
  assumes "cmp_ok f op v" "toks_of ts = op_toks op [value_tok v]"
  shows "parse_value f fsp (ts @ r) = Inr (ACmp f op v, r)"
  using assms
  by (cases op; cases v)
    (auto simp: parse_value_def parse_neq_def parse_call_def parse_order_def str_tok_def eq_or_wildcard_def peek_tok_def)

definition no_atom :: "toks \<Rightarrow> bool" where
  "no_atom ts \<longleftrightarrow> (case ts of [] \<Rightarrow> True | (t, _) # _ \<Rightarrow> t \<noteq> TkAnd \<and> \<not> can_start_atom t)"

lemma and_loop_stops: "no_atom ts \<Longrightarrow> and_loop left ts = Inr (left, ts)"
  by (subst and_loop.simps) (auto simp: no_atom_def peek_tok_def neq_Nil_conv split: list.splits)

lemma or_loop_stops: "peek_tok ts \<noteq> Some TkOr \<Longrightarrow> or_loop left ts = Inr (left, ts)"
  by (simp add: or_loop.simps [of left ts])

lemma show_toks_hd: "hd (show_toks a k) \<in> {TkLParen, TkNot} \<union> range TkIdent"
  by (induction a arbitrary: k) (auto simp: paren_def)

definition parses_atom :: "Ast \<Rightarrow> bool" where
  "parses_atom a \<longleftrightarrow> (\<forall>ts r. toks_of ts = show_toks a 3 \<longrightarrow> parse_atom (ts @ r) = Inr (a, r))"

definition parses_not :: "Ast \<Rightarrow> bool" where
  "parses_not a \<longleftrightarrow> (\<forall>ts r. toks_of ts = show_toks a 2 \<longrightarrow> parse_not (ts @ r) = Inr (a, r))"

definition parses_and :: "Ast \<Rightarrow> bool" where
  "parses_and a \<longleftrightarrow> (\<forall>ts r. toks_of ts = show_toks a 1 \<longrightarrow> parse_and (ts @ r) = and_loop a r)"

definition parses_or :: "Ast \<Rightarrow> bool" where
  "parses_or a \<longleftrightarrow> (\<forall>ts r. toks_of ts = show_toks a 0 \<longrightarrow> no_atom r \<longrightarrow> parse_or (ts @ r) = or_loop a r)"

lemma toks_of_hd: "toks_of ts = us \<Longrightarrow> us \<noteq> [] \<Longrightarrow> \<exists>sp ts'. ts = (hd us, sp) # ts'"
  by (cases us) auto

lemma not_of_atom:
  assumes "parses_atom a" "show_toks a 2 = show_toks a 3" "hd (show_toks a 3) \<noteq> TkNot"
  shows "parses_not a"
  unfolding parses_not_def
proof (intro allI impI)
  fix ts r assume ts: "toks_of ts = show_toks a 2"
  then obtain sp ts' where "ts = (hd (show_toks a 3), sp) # ts'" using toks_of_hd [OF ts] assms(2) by auto
  then have "peek_tok (ts @ r) \<noteq> Some TkNot" using assms(3) by (simp add: peek_tok_def)
  then show "parse_not (ts @ r) = Inr (a, r)"
    using ts assms(1,2) by (simp add: parse_not.simps parses_atom_def)
qed

lemma and_of_not: "parses_not a \<Longrightarrow> show_toks a 1 = show_toks a 2 \<Longrightarrow> parses_and a"
  by (simp add: parses_and_def parses_not_def parse_and.simps)

lemma or_of_and:
  assumes "parses_and a" "show_toks a 0 = show_toks a 1"
  shows "parses_or a"
  unfolding parses_or_def
proof (intro allI impI)
  fix ts r assume ts: "toks_of ts = show_toks a 0" and stop: "no_atom r"
  obtain sp ts' where hd: "ts = (hd (show_toks a 0), sp) # ts'" using toks_of_hd [OF ts] by auto
  have "check_leading (ts @ r) = Inr ()" using hd show_toks_hd [of a 0] by (auto simp: check_leading_def)
  then show "parse_or (ts @ r) = or_loop a r"
    using ts assms stop by (simp add: parse_or.simps parses_and_def and_loop_stops)
qed

lemma atom_of_or:
  assumes "parses_or a" "show_toks a 3 = TkLParen # show_toks a 0 @ [TkRParen]"
  shows "parses_atom a"
  unfolding parses_atom_def
proof (intro allI impI)
  fix ts r assume "toks_of ts = show_toks a 3"
  then obtain s1 us s2 where ts: "ts = (TkLParen, s1) # us @ [(TkRParen, s2)]" and us: "toks_of us = show_toks a 0"
    using assms(2) by (auto simp: toks_of_append)
  have "no_atom ((TkRParen, s2) # r)" by (simp add: no_atom_def can_start_atom_def)
  then have "parse_or (us @ (TkRParen, s2) # r) = Inr (a, (TkRParen, s2) # r)"
    using assms(1) us by (simp add: parses_or_def or_loop_stops peek_tok_def)
  then show "parse_atom (ts @ r) = Inr (a, r)" by (simp add: ts parse_atom.simps peek_tok_def)
qed

lemma parses_AOr:
  assumes "parses_or l" "parses_and r"
  shows "parses_or (AOr l r)"
  unfolding parses_or_def
proof (intro allI impI)
  fix ts rest assume "toks_of ts = show_toks (AOr l r) 0" and stop: "no_atom rest"
  then obtain us sp vs where ts: "ts = us @ (TkOr, sp) # vs" and us: "toks_of us = show_toks l 0"
    and vs: "toks_of vs = show_toks r 1" by (auto simp: paren_def toks_of_append)
  have "no_atom ((TkOr, sp) # vs @ rest)" by (simp add: no_atom_def can_start_atom_def)
  moreover have "vs \<noteq> []" using vs toks_of_Nil [of vs] show_toks_nonempty [of r 1] by metis
  ultimately show "parse_or (ts @ rest) = or_loop (AOr l r) rest"
    using assms us vs stop by (simp add: ts parses_or_def parses_and_def or_loop.simps [of l] peek_tok_def and_loop_stops)
qed

lemma parses_AAnd:
  assumes "parses_and l" "parses_not r"
  shows "parses_and (AAnd l r)"
  unfolding parses_and_def
proof (intro allI impI)
  fix ts rest assume "toks_of ts = show_toks (AAnd l r) 1"
  then obtain us sp vs where ts: "ts = us @ (TkAnd, sp) # vs" and us: "toks_of us = show_toks l 1"
    and vs: "toks_of vs = show_toks r 2" by (auto simp: paren_def toks_of_append)
  have "vs \<noteq> []" using vs toks_of_Nil [of vs] show_toks_nonempty [of r 2] by metis
  then show "parse_and (ts @ rest) = and_loop (AAnd l r) rest"
    using assms us vs by (simp add: ts parses_and_def parses_not_def and_loop.simps [of l] peek_tok_def)
qed

lemma parses_ANot: "parses_atom e \<Longrightarrow> parses_not (ANot e)"
  by (auto simp: parses_not_def parses_atom_def paren_def parse_not.simps peek_tok_def)

lemma parses_leaf:
  assumes "expressible a" "level a = 3"
  shows "parses_atom a"
proof (cases a)
  case (ACmp f op v)
  with assms(1) have ok: "f \<in> set VALID_FIELDS" "cmp_ok f op v" by simp_all
  show ?thesis unfolding ACmp parses_atom_def
    using ok(1) cmp_parses [OF ok(2)] by (auto simp: parse_atom.simps expect_field_term_def)
next
  case (AInRange f lo hi)
  with assms(1) have ok: "f \<in> set VALID_FIELDS" "endpoint_ok f lo" "endpoint_ok f hi" by simp_all
  show ?thesis unfolding AInRange parses_atom_def
    using ok(1) range_parses [OF ok(2,3)] by (auto simp: parse_atom.simps expect_field_term_def parse_value_def)
qed (use assms(2) in simp_all)

lemma show_parses: "expressible a \<Longrightarrow> parses_atom a \<and> parses_not a \<and> parses_and a \<and> parses_or a"
proof (induction a)
  case (AAnd l r)
  then have "parses_and (AAnd l r)" by (simp add: parses_AAnd)
  then show ?case using or_of_and [of "AAnd l r"] atom_of_or [of "AAnd l r"] not_of_atom [of "AAnd l r"]
    by (simp add: paren_def)
next
  case (AOr l r)
  then have "parses_or (AOr l r)" by (simp add: parses_AOr)
  then show ?case using atom_of_or [of "AOr l r"] not_of_atom [of "AOr l r"] and_of_not [of "AOr l r"]
    by (simp add: paren_def)
next
  case (ANot e)
  then have "parses_not (ANot e)" by (simp add: parses_ANot)
  then show ?case using and_of_not [of "ANot e"] or_of_and [of "ANot e"] atom_of_or [of "ANot e"]
    by (simp add: paren_def)
next
  case (ACmp f op v)
  then have "parses_atom (ACmp f op v)" by (simp add: parses_leaf)
  then show ?case using not_of_atom [of "ACmp f op v"] and_of_not [of "ACmp f op v"] or_of_and [of "ACmp f op v"] by simp
next
  case (AInRange f lo hi)
  then have "parses_atom (AInRange f lo hi)" by (simp add: parses_leaf)
  then show ?case using not_of_atom [of "AInRange f lo hi"] and_of_not [of "AInRange f lo hi"]
      or_of_and [of "AInRange f lo hi"] by simp
qed

section \<open>Lexing printed tokens\<close>

definition lexes :: "Token \<Rightarrow> bool" where
  "lexes t \<longleftrightarrow> tok_text t \<noteq> [] \<and> \<not> skipped (hd (tok_text t))
            \<and> (\<forall>s. next_token (tok_text t @ CHR '' '' # s) = Some (t, length (tok_text t)))"

lemma tokenize_one:
  assumes "lexes t" "tokenize_from (pos + length (tok_text t) + 1) s = Inr ts"
  shows "tokenize_from pos (tok_text t @ CHR '' '' # s) = Inr ((t, pos, pos + length (tok_text t)) # ts)"
proof -
  obtain c w where w: "tok_text t = c # w" "\<not> skipped c" using assms(1) by (cases "tok_text t") (auto simp: lexes_def)
  have "tokenize_from (pos + length (tok_text t)) (CHR '' '' # s) = Inr ts"
    using assms(2) by (subst tokenize_from.simps) (simp add: skipped_def code_def)
  moreover have "next_token (tok_text t @ CHR '' '' # s) = Some (t, length (tok_text t))" using assms(1) by (simp add: lexes_def)
  ultimately show ?thesis using w by (subst tokenize_from.simps) simp
qed

lemma tokenize_all:
  "\<forall>t \<in> set us. lexes t \<Longrightarrow> \<exists>ts. tokenize_from pos (concat (map (\<lambda>t. tok_text t @ '' '') us)) = Inr ts \<and> toks_of ts = us"
proof (induction us arbitrary: pos)
  case Nil
  then show ?case by (simp add: tokenize_from.simps)
next
  case (Cons t us)
  then obtain ts where "tokenize_from (pos + length (tok_text t) + 1) (concat (map (\<lambda>t. tok_text t @ '' '') us)) = Inr ts"
    "toks_of ts = us" by fastforce
  with tokenize_one [of t pos] Cons.prems show ?case by simp
qed

lemma lit_len_escape: "lit_len (escape s @ CHR 0x22 # r) = length (escape s) + 1"
  by (induction s) auto

lemma unescape_escape [simp]: "unescape (escape s) = s"
  by (induction s) auto

lemma lexes_string: "lexes (str_tok s)"
proof -
  have "lex_string (CHR 0x22 # escape s @ [CHR 0x22]) = \<lparr> sl_value = s, sl_terminated = True \<rparr>"
    by (simp add: lex_string_def Let_def butlast_append)
  then show ?thesis
    by (simp add: lexes_def str_tok_def next_token_def lit_len_escape skipped_def code_def Let_def)
qed

lemma word_lexes:
  assumes "w \<noteq> []" "list_all ident_char w" "ident_start (hd w)" "word_token w = t" "tok_text t = w"
  shows "lexes t"
proof -
  obtain c v where w: "w = c # v" using assms(1) by (cases w) auto
  have "\<not> ident_char (CHR '' '')" by (simp add: ident_char_def ident_start_def is_alpha_def is_digit_def code_def)
  then have "takeWhile ident_char (w @ CHR '' '' # s) = w" for s
    using assms(2) by (simp add: takeWhile_append2 list_all_iff)
  moreover have "c \<noteq> CHR 0x22" "\<not> skipped c"
    using assms(3) w by (auto simp: ident_start_def is_alpha_def is_digit_def code_def skipped_def)
  ultimately show ?thesis using assms(3-5) by (auto simp: lexes_def next_token_def w Let_def)
qed

lemmas char_class = ident_char_def ident_start_def is_alpha_def is_digit_def code_def

lemma digit_ident: "is_digit c \<or> c = CHR ''-'' \<Longrightarrow> ident_char c \<and> ident_start c"
  by (auto simp: ident_char_def ident_start_def)

lemma lower_digit: "is_digit c \<or> c = CHR ''-'' \<Longrightarrow> lower c = c"
  by (auto simp: is_digit_def lower_def code_def)

lemma unsigned_word:
  assumes "unsigned_number u = Some q"
  shows "u \<noteq> [] \<and> is_digit (hd u) \<and> list_all ident_char u"
proof -
  have whole: "takeWhile is_digit u \<noteq> []" using assms by (auto simp: unsigned_number_def Let_def split: if_splits)
  then have "is_digit (hd u)" "u \<noteq> []" by (cases u; auto split: if_splits)+
  moreover have "list_all ident_char (takeWhile is_digit u)"
    by (auto simp: list_all_iff digit_ident dest: set_takeWhileD)
  moreover have "list_all ident_char (dropWhile is_digit u)"
  proof (cases "dropWhile is_digit u")
    case (Cons c fr)
    with assms whole have "c = CHR ''.''" "list_all is_digit fr"
      by (auto simp: unsigned_number_def Let_def split: if_splits)
    with Cons show ?thesis by (auto simp: list_all_iff digit_ident ident_char_def)
  next
    case Nil
    show ?thesis unfolding Nil by simp
  qed
  ultimately show ?thesis by (metis list_all_append takeWhile_dropWhile_id)
qed

lemma number_word:
  assumes "number_literal w = Some n"
  shows "w \<noteq> [] \<and> list_all ident_char w \<and> ident_start (hd w) \<and> word_token w = TkNumber n"
proof -
  obtain c r where w: "w = c # r" using assms by (cases w) (auto simp: number_literal_def)
  have hd: "is_digit c \<or> c = CHR ''-''" "list_all ident_char w"
  proof (atomize (full), cases "c = CHR ''-''")
    case True
    then obtain q where "unsigned_number r = Some q" using assms w by (auto simp: number_literal_def)
    then show "(is_digit c \<or> c = CHR ''-'') \<and> list_all ident_char w"
      using True w digit_ident [of c] unsigned_word by auto
  next
    case False
    then obtain q where "unsigned_number w = Some q" using assms w by (auto simp: number_literal_def)
    from unsigned_word [OF this] show "(is_digit c \<or> c = CHR ''-'') \<and> list_all ident_char w" using w by simp
  qed
  have "\<not> is_digit (CHR ''a'')" "\<not> is_digit (CHR ''o'')" "\<not> is_digit (CHR ''n'')" by (simp_all add: is_digit_def code_def)
  then have "map lower w \<noteq> ''and''" "map lower w \<noteq> ''or''" "map lower w \<noteq> ''not''"
    using hd(1) lower_digit [OF hd(1)] w by auto
  then have "word_token w = TkNumber n" using assms by (simp add: word_token_def)
  then show ?thesis using w hd digit_ident [OF hd(1)] by simp
qed

lemma lexes_value:
  assumes "\<And>n. v = VNum n \<Longrightarrow> number_ok n"
  shows "lexes (value_tok v)"
proof (cases v)
  case (VNum n)
  then have "number_literal (f64_display n) = Some n" using assms by (simp add: number_ok_def)
  from number_word [OF this] show ?thesis by (auto simp: VNum intro: word_lexes)
qed (simp_all add: lexes_string)

lemma lexes_endpoint: "endpoint_ok f v \<Longrightarrow> lexes (value_tok v)"
  by (rule lexes_value) simp

lemma lexes_cmp: "cmp_ok f op v \<Longrightarrow> lexes (value_tok v)"
  by (rule lexes_value, cases op) simp_all

lemma lexes_fixed:
  "lexes TkColon" "lexes TkComma" "lexes TkLBracket" "lexes TkRBracket" "lexes TkLParen" "lexes TkRParen"
  "lexes TkBang" "lexes TkGt" "lexes TkGte" "lexes TkLt" "lexes TkLte"
  by (simp_all add: lexes_def next_token_def punct_token_def char_class skipped_def)

lemma lexes_words:
  "lexes TkAnd" "lexes TkOr" "lexes TkNot" "lexes (TkIdent ''i'')" "lexes (TkIdent ''re'')"
  by (rule word_lexes, simp_all add: char_class word_token_def lower_def number_literal_def unsigned_number_def)+

lemma lexes_field: "f \<in> set VALID_FIELDS \<Longrightarrow> lexes (TkIdent f)"
  by (rule word_lexes [of f])
    (auto simp: VALID_FIELDS_def char_class word_token_def lower_def number_literal_def unsigned_number_def)

lemma lexes_op: "t \<in> set (op_toks op [u]) \<Longrightarrow> lexes u \<Longrightarrow> lexes t"
  by (cases op) (auto simp: lexes_fixed lexes_words)

lemma lexes_show: "expressible a \<Longrightarrow> t \<in> set (show_toks a k) \<Longrightarrow> lexes t"
  by (induction a arbitrary: k)
    (auto simp: paren_def lexes_fixed lexes_words lexes_field lexes_endpoint split: if_splits dest: lexes_op lexes_cmp)

lemma show_toks_first: "expressible a \<Longrightarrow> hd (show_toks a k) \<in> {TkLParen, TkNot} \<union> TkIdent ` set VALID_FIELDS"
  by (induction a arbitrary: k) (auto simp: paren_def)

lemma blank_word: "32 < a \<Longrightarrow> a < 128 \<Longrightarrow> \<not> blank (a # cs)"
  by (simp split: list.splits)

lemma print_query_not_blank:
  assumes "expressible a"
  shows "\<not> blank (map code (print_query a))"
proof -
  obtain us where "show_toks a 0 = hd (show_toks a 0) # us" using show_toks_nonempty [of a 0] by (cases "show_toks a 0") auto
  then have "print_query a = tok_text (hd (show_toks a 0)) @ '' '' @ concat (map (\<lambda>t. tok_text t @ '' '') us)"
    unfolding print_query_def by (metis (no_types) append_assoc concat.simps(2) list.simps(9))
  moreover have "\<exists>c r. tok_text (hd (show_toks a 0)) = c # r \<and> 32 < code c \<and> code c < 128"
    using show_toks_first [OF assms, of 0] by (auto simp: VALID_FIELDS_def code_def)
  ultimately obtain c r where "print_query a = c # r" "32 < code c" "code c < 128" by auto
  then show ?thesis by (simp add: blank_word del: blank.simps)
qed

section \<open>Properties\<close>

text \<open>C17: Printing and parsing round-trip: every query the grammar can express, printed with
  the fewest parentheses and with strings quoted and escaped, is read back as the same
  syntax tree.\<close>

theorem query_round_trip:
  assumes "expressible a"
  shows "parse (print_query a) = Inr (Some a)"
proof -
  obtain ts where ts: "tokenize (print_query a) = Inr ts" "toks_of ts = show_toks a 0"
    using tokenize_all [of "show_toks a 0" 0] lexes_show [OF assms] by (auto simp: tokenize_def print_query_def)
  have stop: "no_atom []" by (simp add: no_atom_def)
  have "parse_or (ts @ []) = or_loop a []"
    using show_parses [OF assms] ts(2) stop unfolding parses_or_def by blast
  then have "parse_or ts = Inr (a, [])" by (simp add: or_loop_stops peek_tok_def)
  moreover have "ts \<noteq> []" using ts(2) toks_of_Nil [of ts] show_toks_nonempty [of a 0] by metis
  ultimately show ?thesis using ts(1) print_query_not_blank [OF assms] by (auto simp: parse_Some_iff)
qed

definition sample_ast :: Ast where
  "sample_ast = AAnd (ANot (AOr (ACmp ''branch'' OpWildcard (VStr ''feat/*'')) (ACmp ''stage'' OpRegex (VStr [CHR 0x22, CHR 0x5C]))))
                     (AInRange ''created_at'' (VDate ''2026-01-01'') (VDate ''2026-02-01''))"

theorem query_round_trip_witness:
  "expressible sample_ast \<and> parse (print_query sample_ast) = Inr (Some sample_ast)
   \<and> print_query (ACmp ''state'' OpNeq (VStr ''failed'')) = ''state : ! '' @ [CHR 0x22] @ ''failed'' @ [CHR 0x22] @ '' ''"
proof -
  have "expressible sample_ast" by (simp add: sample_ast_def VALID_FIELDS_def is_date_field_def)
  with query_round_trip [OF this] show ?thesis
    by (simp add: print_query_def str_tok_def)
qed

text \<open>A literal whose closing quote is escaped is not reported as unterminated: the lexer
  takes the escaped quote for the closing one.\<close>

theorem escaped_quote_closes_literal:
  "parse (''branch:'' @ [CHR 0x22] @ ''abc'' @ [CHR 0x5C, CHR 0x22]) =
     Inr (Some (ACmp ''branch'' OpEq (VStr (''abc'' @ [CHR 0x5C]))))"
  by code_simp

end
