(* ===== verification/Chql_Compile.thy ===== *)
theory Chql_Compile
  imports Chql_Parser
begin

text \<open>
  The ChQL compiler (\<open>query/compile.rs\<close>): a syntax tree becomes an SQL condition with
  \<open>?\<close> placeholders and the list of values to bind.  Dates are parsed by the chrono crate:
  \<open>rfc\<close> stands for \<open>DateTime::parse_from_rfc3339\<close> and \<open>ymd\<close> for
  \<open>NaiveDate::parse_from_str (v, "%Y-%m-%d")\<close> at midnight UTC.
\<close>

section \<open>Columns and errors\<close>

datatype CompileError =
    UnknownField string
  | OperatorNotSupported string CmpOp
  | InvalidDate string

datatype Column = ColState | ColBranch | ColRepo | ColRepoId | ColStageName | ColExitCode | ColCreatedAt | ColCompletedAt

fun sql_ident :: "Column \<Rightarrow> string" where
  "sql_ident ColState = ''state''"
| "sql_ident ColBranch = ''branch''"
| "sql_ident ColRepo = ''repo_id''"
| "sql_ident ColRepoId = ''repo_id''"
| "sql_ident ColStageName = ''stage_name''"
| "sql_ident ColExitCode = ''exit_code''"
| "sql_ident ColCreatedAt = ''created_at''"
| "sql_ident ColCompletedAt = ''completed_at''"

definition needs_jobs_subquery :: "Column \<Rightarrow> bool" where
  "needs_jobs_subquery col \<longleftrightarrow> col = ColStageName \<or> col = ColExitCode"

definition resolve :: "string \<Rightarrow> CompileError + Column" where
  "resolve field =
     (if field = ''state'' then Inr ColState else if field = ''branch'' then Inr ColBranch
      else if field = ''repo'' then Inr ColRepo else if field = ''repo_id'' then Inr ColRepoId
      else if field = ''stage'' then Inr ColStageName else if field = ''exit_code'' then Inr ColExitCode
      else if field = ''created_at'' then Inr ColCreatedAt else if field = ''completed_at'' then Inr ColCompletedAt
      else Inl (UnknownField field))"

fun op_debug :: "CmpOp \<Rightarrow> string" where
  "op_debug OpEq = ''Eq''"
| "op_debug OpNeq = ''Neq''"
| "op_debug OpGt = ''Gt''"
| "op_debug OpGte = ''Gte''"
| "op_debug OpLt = ''Lt''"
| "op_debug OpLte = ''Lte''"
| "op_debug OpIlikeContains = ''IlikeContains''"
| "op_debug OpRegex = ''Regex''"
| "op_debug OpWildcard = ''Wildcard''"

fun compile_error_display :: "CompileError \<Rightarrow> string" where
  "compile_error_display (UnknownField name) = ''Unknown field '' @ quoted name"
| "compile_error_display (OperatorNotSupported field op) =
     ''Operator '' @ op_debug op @ '' not supported on field '' @ quoted field"
| "compile_error_display (InvalidDate v) =
     ''Invalid date literal '' @ quoted v @ '' (expected YYYY-MM-DD or RFC3339)''"

definition chql_error_of :: "CompileError \<Rightarrow> ChqlError" where
  "chql_error_of e = ChqlError_new (compile_error_display e)"

section \<open>Numbers from strings\<close>

text \<open>\<open>str::parse::<f64>\<close>: an optional sign, then \<open>inf\<close>, \<open>infinity\<close> or \<open>nan\<close> in any case, or
  digits with an optional point (at least one digit) and an optional exponent.\<close>

definition split_sign :: "string \<Rightarrow> bool \<times> string" where
  "split_sign s = (case s of c # r \<Rightarrow> if c = CHR ''-'' then (True, r) else if c = CHR ''+'' then (False, r) else (False, s)
                   | [] \<Rightarrow> (False, []))"

definition parse_exponent :: "string \<Rightarrow> int option" where
  "parse_exponent s =
     (if s = [] then Some 0
      else if hd s = CHR ''e'' \<or> hd s = CHR ''E''
      then let (neg, ds) = split_sign (tl s)
           in if ds \<noteq> [] \<and> list_all is_digit ds
              then Some (if neg then - int (digits_value ds) else int (digits_value ds)) else None
      else None)"

definition parse_decimal :: "string \<Rightarrow> rat option" where
  "parse_decimal s =
     (let whole = takeWhile is_digit s; r = dropWhile is_digit s;
          (fr, r) = (if r \<noteq> [] \<and> hd r = CHR ''.'' then (takeWhile is_digit (tl r), dropWhile is_digit (tl r)) else ([], r))
      in if whole = [] \<and> fr = [] then None
         else map_option (\<lambda>e. of_nat (digits_value (whole @ fr)) * pow10 (e - int (length fr))) (parse_exponent r))"

definition parse_f64 :: "string \<Rightarrow> f64 option" where
  "parse_f64 s =
     (let (neg, r) = split_sign s; lc = map lower r
      in if lc = ''inf'' \<or> lc = ''infinity'' then Some (if neg then NegInf else PosInf)
         else if lc = ''nan'' then Some NaN
         else map_option (\<lambda>q. f64_round (if neg then - q else q)) (parse_decimal r))"

section \<open>Binds\<close>

datatype SqlBind = BStr string | BNum f64 | BDate datetime

record SqlFragment =
  fr_sql :: string
  fr_binds :: "SqlBind list"

type_synonym date_parser = "string \<Rightarrow> datetime option"

definition parse_date_bind :: "date_parser \<Rightarrow> date_parser \<Rightarrow> string \<Rightarrow> CompileError + SqlBind" where
  "parse_date_bind rfc ymd v =
     (case rfc v of
        Some dt \<Rightarrow> Inr (BDate dt)
      | None \<Rightarrow> (case ymd v of Some dt \<Rightarrow> Inr (BDate dt) | None \<Rightarrow> Inl (InvalidDate v)))"

fun value_to_bind_string :: "chql_value \<Rightarrow> CompileError + SqlBind" where
  "value_to_bind_string (VStr v) = Inr (BStr v)"
| "value_to_bind_string (VDate v) = Inr (BStr v)"
| "value_to_bind_string (VNum v) = Inr (BStr (f64_display v))"

fun value_to_bind_number :: "chql_value \<Rightarrow> CompileError + SqlBind" where
  "value_to_bind_number (VNum v) = Inr (BNum v)"
| "value_to_bind_number (VStr v) = (case parse_f64 v of Some n \<Rightarrow> Inr (BNum n) | None \<Rightarrow> Inl (InvalidDate v))"
| "value_to_bind_number (VDate v) = Inl (InvalidDate v)"

fun value_to_string :: "chql_value \<Rightarrow> string" where
  "value_to_string (VStr v) = v"
| "value_to_string (VDate v) = v"
| "value_to_string (VNum v) = f64_display v"

definition value_to_bind :: "date_parser \<Rightarrow> date_parser \<Rightarrow> Column \<Rightarrow> chql_value \<Rightarrow> CompileError + SqlBind" where
  "value_to_bind rfc ymd col v =
     (if col = ColCreatedAt \<or> col = ColCompletedAt then
        (case v of VDate d \<Rightarrow> parse_date_bind rfc ymd d | VStr d \<Rightarrow> parse_date_bind rfc ymd d
         | VNum _ \<Rightarrow> Inl (InvalidDate ''(number)''))
      else if col = ColExitCode then value_to_bind_number v
      else value_to_bind_string v)"

section \<open>Compilation\<close>

definition one_bind :: "string \<Rightarrow> CompileError + SqlBind \<Rightarrow> CompileError + SqlFragment" where
  "one_bind sql b = and_then b (\<lambda>bind. Inr \<lparr> fr_sql = sql, fr_binds = [bind] \<rparr>)"

definition compile_repo_name :: "CmpOp \<Rightarrow> chql_value \<Rightarrow> CompileError + SqlFragment" where
  "compile_repo_name op v =
     (if op = OpEq \<or> op = OpNeq
      then one_bind (''repo_id '' @ (if op = OpNeq then ''NOT IN'' else ''IN'') @ '' (SELECT id FROM repos WHERE repo_name = ?)'')
             (value_to_bind_string v)
      else Inl (OperatorNotSupported ''repo'' op))"

fun order_sql :: "CmpOp \<Rightarrow> string option" where
  "order_sql OpEq = Some ''=''"
| "order_sql OpNeq = Some ''<>''"
| "order_sql OpGt = Some ''>''"
| "order_sql OpGte = Some ''>=''"
| "order_sql OpLt = Some ''<''"
| "order_sql OpLte = Some ''<=''"
| "order_sql _ = None"

definition jobs_exists :: "string \<Rightarrow> string" where
  "jobs_exists cond = ''EXISTS (SELECT 1 FROM jobs j_q WHERE j_q.job_group_id = job_groups.id AND j_q.'' @ cond @ '')''"

definition compile_jobs_subquery :: "Column \<Rightarrow> CmpOp \<Rightarrow> chql_value \<Rightarrow> string \<Rightarrow> CompileError + SqlFragment" where
  "compile_jobs_subquery col op v field =
     (case order_sql op of
        None \<Rightarrow> Inl (OperatorNotSupported field op)
      | Some op_sql \<Rightarrow>
          if col = ColStageName \<and> (op = OpEq \<or> op = OpNeq)
          then one_bind (jobs_exists (sql_ident col @ '' '' @ op_sql @ '' ?'')) (value_to_bind_string v)
          else if col = ColExitCode
          then one_bind (jobs_exists (sql_ident col @ '' '' @ op_sql @ '' ?'')) (value_to_bind_number v)
          else Inl (OperatorNotSupported field op))"

definition star_to_percent :: "string \<Rightarrow> string" where
  "star_to_percent s = map (\<lambda>c. if c = CHR ''*'' then CHR ''%'' else c) s"

definition compile_cmp :: "date_parser \<Rightarrow> date_parser \<Rightarrow> string \<Rightarrow> CmpOp \<Rightarrow> chql_value \<Rightarrow> CompileError + SqlFragment" where
  "compile_cmp rfc ymd field op v =
     and_then (resolve field) (\<lambda>col.
       if col = ColRepo then compile_repo_name op v
       else if needs_jobs_subquery col then compile_jobs_subquery col op v field
       else case order_sql op of
              Some op_sql \<Rightarrow> one_bind (sql_ident col @ '' '' @ op_sql @ '' ?'') (value_to_bind rfc ymd col v)
            | None \<Rightarrow>
                if op = OpIlikeContains
                then one_bind (sql_ident col @ '' ILIKE '' @ quoted ''%'' @ '' || ? || '' @ quoted ''%'') (value_to_bind_string v)
                else if op = OpRegex then one_bind (sql_ident col @ '' ~ ?'') (value_to_bind_string v)
                else one_bind (sql_ident col @ '' ILIKE ?'') (Inr (BStr (star_to_percent (value_to_string v)))))"

definition compile_range ::
  "date_parser \<Rightarrow> date_parser \<Rightarrow> string \<Rightarrow> chql_value \<Rightarrow> chql_value \<Rightarrow> CompileError + SqlFragment" where
  "compile_range rfc ymd field lo hi =
     and_then (resolve field) (\<lambda>col.
       if needs_jobs_subquery col
       then and_then (value_to_bind_number lo) (\<lambda>lo_b. and_then (value_to_bind_number hi) (\<lambda>hi_b.
              Inr \<lparr> fr_sql = jobs_exists ''exit_code BETWEEN ? AND ?'', fr_binds = [lo_b, hi_b] \<rparr>))
       else and_then (value_to_bind rfc ymd col lo) (\<lambda>lo_b. and_then (value_to_bind rfc ymd col hi) (\<lambda>hi_b.
              Inr \<lparr> fr_sql = sql_ident col @ '' BETWEEN ? AND ?'', fr_binds = [lo_b, hi_b] \<rparr>)))"

definition combine :: "string \<Rightarrow> SqlFragment \<Rightarrow> SqlFragment \<Rightarrow> SqlFragment" where
  "combine word l r =
     \<lparr> fr_sql = ''('' @ fr_sql l @ '') '' @ word @ '' ('' @ fr_sql r @ '')'', fr_binds = fr_binds l @ fr_binds r \<rparr>"

fun compile :: "date_parser \<Rightarrow> date_parser \<Rightarrow> Ast \<Rightarrow> CompileError + SqlFragment" where
  "compile rfc ymd (AAnd l r) =
     and_then (compile rfc ymd l) (\<lambda>l'. and_then (compile rfc ymd r) (\<lambda>r'. Inr (combine ''AND'' l' r')))"
| "compile rfc ymd (AOr l r) =
     and_then (compile rfc ymd l) (\<lambda>l'. and_then (compile rfc ymd r) (\<lambda>r'. Inr (combine ''OR'' l' r')))"
| "compile rfc ymd (ANot e) =
     and_then (compile rfc ymd e) (\<lambda>e'. Inr \<lparr> fr_sql = ''NOT ('' @ fr_sql e' @ '')'', fr_binds = fr_binds e' \<rparr>)"
| "compile rfc ymd (ACmp field op v) = compile_cmp rfc ymd field op v"
| "compile rfc ymd (AInRange field lo hi) = compile_range rfc ymd field lo hi"

fun to_pg_from :: "nat \<Rightarrow> string \<Rightarrow> string \<times> nat" where
  "to_pg_from idx [] = ([], idx)"
| "to_pg_from idx (ch # cs) =
     (if ch = CHR ''?'' then let (s, n) = to_pg_from (idx + 1) cs in (CHR ''$'' # nat_to_dec idx @ s, n)
      else let (s, n) = to_pg_from idx cs in (ch # s, n))"

definition to_pg :: "SqlFragment \<Rightarrow> nat \<Rightarrow> string \<times> nat" where
  "to_pg frag start_idx = to_pg_from start_idx (fr_sql frag)"

section \<open>Placeholders\<close>

text \<open>The numbered placeholders \<open>$N\<close> of a Postgres statement, from left to right.\<close>

fun scan_placeholders :: "nat option \<Rightarrow> string \<Rightarrow> nat list" where
  "scan_placeholders None [] = []"
| "scan_placeholders (Some n) [] = [n]"
| "scan_placeholders None (c # cs) = (if c = CHR ''$'' then scan_placeholders (Some 0) cs else scan_placeholders None cs)"
| "scan_placeholders (Some n) (c # cs) =
     (if is_digit c then scan_placeholders (Some (10 * n + (code c - 48))) cs
      else n # (if c = CHR ''$'' then scan_placeholders (Some 0) cs else scan_placeholders None cs))"

definition placeholders :: "string \<Rightarrow> nat list" where
  "placeholders s = scan_placeholders None s"

definition starts_digit :: "string \<Rightarrow> bool" where
  "starts_digit s \<longleftrightarrow> s \<noteq> [] \<and> is_digit (hd s)"

lemma scan_placeholders_append:
  "\<not> starts_digit b \<Longrightarrow> scan_placeholders st (a @ b) = scan_placeholders st a @ scan_placeholders None b"
  by (induction st a rule: scan_placeholders.induct) (cases b, auto simp: starts_digit_def)+

lemma placeholders_append: "\<not> starts_digit b \<Longrightarrow> placeholders (a @ b) = placeholders a @ placeholders b"
  by (simp add: placeholders_def scan_placeholders_append)

lemma placeholders_none: "CHR ''$'' \<notin> set s \<Longrightarrow> placeholders s = []"
  by (induction s) (auto simp: placeholders_def)

lemma digit_char: "n < 10 \<Longrightarrow> is_digit (char_of (48 + n)) \<and> code (char_of (48 + n)) = 48 + n"
  by (simp add: is_digit_def code_def)

lemma scan_nat_to_dec: "scan_placeholders (Some 0) (nat_to_dec n @ s) = scan_placeholders (Some n) s"
proof (induction n arbitrary: s rule: nat_to_dec.induct)
  case (1 n)
  show ?case
  proof (cases "n < 10")
    case True
    then show ?thesis using digit_char [OF True] by (simp add: nat_to_dec.simps [of n])
  next
    case False
    have "n mod 10 < 10" by simp
    note d = digit_char [OF this]
    from 1 [OF False] False d show ?thesis by (simp add: nat_to_dec.simps [of n])
  qed
qed

text \<open>A condition with unnumbered placeholders, none of them followed by a digit.\<close>

fun clean :: "string \<Rightarrow> bool" where
  "clean [] = True"
| "clean (c # cs) \<longleftrightarrow> c \<noteq> CHR ''$'' \<and> (c = CHR ''?'' \<longrightarrow> \<not> starts_digit cs) \<and> clean cs"

lemma clean_append: "clean (a @ b) \<longleftrightarrow> clean a \<and> clean b \<and> (a \<noteq> [] \<and> last a = CHR ''?'' \<longrightarrow> \<not> starts_digit b)"
  by (induction a) (auto simp: starts_digit_def hd_append)

lemma scan_not_digit: "\<not> starts_digit s \<Longrightarrow> scan_placeholders (Some n) s = n # scan_placeholders None s"
  by (cases s) (auto simp: starts_digit_def)

lemma to_pg_from_head: "\<not> starts_digit s \<Longrightarrow> \<not> starts_digit (fst (to_pg_from i s))"
  by (cases s) (auto simp: starts_digit_def is_digit_def code_def split: prod.splits)

lemma to_pg_from_placeholders:
  "clean s \<Longrightarrow> placeholders (fst (to_pg_from i s)) = [i..<i + count_list s (CHR ''?'')]
            \<and> snd (to_pg_from i s) = i + count_list s (CHR ''?'')"
proof (induction s arbitrary: i)
  case (Cons c cs)
  show ?case
  proof (cases "c = CHR ''?''")
    case True
    obtain x n where x: "to_pg_from (Suc i) cs = (x, n)" by (cases "to_pg_from (Suc i) cs")
    have "\<not> starts_digit x" using to_pg_from_head [of cs "Suc i"] Cons.prems True x by simp
    moreover have "scan_placeholders None x = [Suc i..<Suc i + count_list cs (CHR ''?'')]"
      and n: "n = Suc i + count_list cs (CHR ''?'')"
      using Cons.IH [of "Suc i"] Cons.prems x by (simp_all add: placeholders_def)
    moreover have "[i..<i + Suc (count_list cs (CHR ''?''))] = i # [Suc i..<Suc i + count_list cs (CHR ''?'')]"
      by (subst upt_conv_Cons) simp_all
    ultimately show ?thesis using True x by (simp add: placeholders_def scan_nat_to_dec scan_not_digit del: upt_Suc)
  next
    case False
    with Cons.IH [of i] Cons.prems show ?thesis by (auto simp: placeholders_def split: prod.splits)
  qed
qed (simp add: placeholders_def)

definition frag_ok :: "SqlFragment \<Rightarrow> bool" where
  "frag_ok f \<longleftrightarrow> clean (fr_sql f) \<and> count_list (fr_sql f) (CHR ''?'') = length (fr_binds f)"

lemma sql_ident_clean [simp]: "clean (sql_ident col)" "CHR ''?'' \<notin> set (sql_ident col)" "sql_ident col \<noteq> []"
  by (cases col; simp)+

lemma order_sql_clean: "order_sql op = Some s \<Longrightarrow> clean s \<and> CHR ''?'' \<notin> set s"
  by (cases op) auto

lemma sql_ident_last [simp]: "last (sql_ident col) \<noteq> CHR ''?''" by (cases col) simp_all

lemmas frag_simps = frag_ok_def one_bind_def and_then_Inr_iff clean_append count_list_append starts_digit_def
  is_digit_def code_def jobs_exists_def quoted_def

lemma one_bind_ok: "one_bind sql b = Inr f \<Longrightarrow> clean sql \<Longrightarrow> count_list sql (CHR ''?'') = 1 \<Longrightarrow> frag_ok f"
  by (auto simp: one_bind_def and_then_Inr_iff frag_ok_def)

lemma compile_cmp_ok: "compile_cmp rfc ymd field op v = Inr f \<Longrightarrow> frag_ok f"
  by (auto simp: compile_cmp_def compile_repo_name_def compile_jobs_subquery_def and_then_Inr_iff jobs_exists_def
      quoted_def clean_append count_list_append count_notin starts_digit_def is_digit_def code_def
      dest!: order_sql_clean split: if_splits option.splits elim!: one_bind_ok)

lemma compile_range_ok: "compile_range rfc ymd field lo hi = Inr f \<Longrightarrow> frag_ok f"
  by (auto simp: compile_range_def and_then_Inr_iff jobs_exists_def frag_ok_def
      clean_append count_list_append count_notin starts_digit_def is_digit_def code_def split: if_splits)

lemma compile_ok: "compile rfc ymd a = Inr f \<Longrightarrow> frag_ok f"
proof (induction a arbitrary: f)
  case (ACmp field op v)
  then show ?case by (simp add: compile_cmp_ok)
next
  case (AInRange field lo hi)
  then show ?case by (simp add: compile_range_ok)
qed (auto simp: and_then_Inr_iff combine_def frag_ok_def clean_append count_list_append starts_digit_def is_digit_def
     code_def)

section \<open>Fields\<close>

primrec fields :: "Ast \<Rightarrow> string set" where
  "fields (AAnd l r) = fields l \<union> fields r"
| "fields (AOr l r) = fields l \<union> fields r"
| "fields (ANot e) = fields e"
| "fields (ACmp f op v) = {f}"
| "fields (AInRange f lo hi) = {f}"

lemma parse_value_fields: "parse_value f sp ts = Inr (a, r) \<Longrightarrow> fields a = {f}"
  by (auto simp: parse_value_def parse_neq_def parse_order_def parse_call_def parse_range_def and_then_Inr_iff Let_def
      split: list.splits Token.splits if_splits)

lemma expect_field_term_fields: "expect_field_term f sp ts = Inr (a, r) \<Longrightarrow> fields a \<subseteq> set VALID_FIELDS"
  by (auto simp: expect_field_term_def split: list.splits if_splits dest!: parse_value_fields)

lemma parse_fields:
  "parse_or ts = Inr (a, r) \<Longrightarrow> fields a \<subseteq> set VALID_FIELDS"
  "or_loop left ts = Inr (a, r) \<Longrightarrow> fields left \<subseteq> set VALID_FIELDS \<Longrightarrow> fields a \<subseteq> set VALID_FIELDS"
  "parse_and ts = Inr (a, r) \<Longrightarrow> fields a \<subseteq> set VALID_FIELDS"
  "and_loop left ts = Inr (a, r) \<Longrightarrow> fields left \<subseteq> set VALID_FIELDS \<Longrightarrow> fields a \<subseteq> set VALID_FIELDS"
  "parse_not ts = Inr (a, r) \<Longrightarrow> fields a \<subseteq> set VALID_FIELDS"
  "parse_atom ts = Inr (a, r) \<Longrightarrow> fields a \<subseteq> set VALID_FIELDS"
proof (induction ts and left ts and ts and left ts and ts and ts arbitrary: a r and a r and a r and a r and a r and a r
    rule: parse_or_or_loop_parse_and_and_loop_parse_not_parse_atom.induct)
  case (1 ts)
  then show ?case by (fastforce simp: parse_or.simps and_then_Inr_iff)
next
  case (2 left ts)
  then show ?case by (fastforce simp: or_loop.simps [of left ts] and_then_Inr_iff split: if_splits)
next
  case (3 ts)
  then show ?case by (fastforce simp: parse_and.simps and_then_Inr_iff)
next
  case (4 left ts)
  then show ?case by (fastforce simp: and_loop.simps [of left ts] and_then_Inr_iff split: if_splits)
next
  case (5 ts)
  then show ?case by (fastforce simp: parse_not.simps and_then_Inr_iff split: if_splits)
next
  case (6 ts)
  then show ?case
    by (fastforce simp: parse_atom.simps and_then_Inr_iff split: if_splits Token.splits dest: expect_field_term_fields)
qed

lemma resolve_valid: "field \<in> set VALID_FIELDS \<Longrightarrow> \<exists>col. resolve field = Inr col"
  by (auto simp: VALID_FIELDS_def resolve_def)

lemma bind_not_unknown [simp]:
  "value_to_bind_string v \<noteq> Inl (UnknownField f)" "value_to_bind_number v \<noteq> Inl (UnknownField f)"
  "value_to_bind rfc ymd col v \<noteq> Inl (UnknownField f)"
  by (cases v; auto simp: value_to_bind_def parse_date_bind_def split: option.splits)+

lemma compile_leaf_known:
  assumes "field \<in> set VALID_FIELDS"
  shows "compile_cmp rfc ymd field op v \<noteq> Inl (UnknownField f)" "compile_range rfc ymd field v w \<noteq> Inl (UnknownField f)"
  using resolve_valid [OF assms]
  by (auto simp: compile_cmp_def compile_range_def compile_repo_name_def compile_jobs_subquery_def one_bind_def
      and_then_Inl_iff split: option.splits if_splits)

lemma compile_known: "fields a \<subseteq> set VALID_FIELDS \<Longrightarrow> compile rfc ymd a \<noteq> Inl (UnknownField f)"
  by (induction a) (auto simp: and_then_Inl_iff compile_leaf_known)

section \<open>Shapes\<close>

text \<open>A syntax tree with its user-supplied values erased.\<close>

primrec shape :: "Ast \<Rightarrow> Ast" where
  "shape (AAnd l r) = AAnd (shape l) (shape r)"
| "shape (AOr l r) = AOr (shape l) (shape r)"
| "shape (ANot e) = ANot (shape e)"
| "shape (ACmp f op v) = ACmp f op (VStr [])"
| "shape (AInRange f lo hi) = AInRange f (VStr []) (VStr [])"

lemma one_bind_sql: "one_bind sql b = Inr f \<Longrightarrow> fr_sql f = sql"
  by (auto simp: one_bind_def and_then_Inr_iff)

lemma compile_cmp_sql:
  "compile_cmp rfc ymd field op v = Inr f \<Longrightarrow> compile_cmp rfc' ymd' field op w = Inr g \<Longrightarrow> fr_sql f = fr_sql g"
  by (auto simp: compile_cmp_def compile_repo_name_def compile_jobs_subquery_def and_then_Inr_iff
      dest!: one_bind_sql split: if_splits option.splits)

lemma compile_range_sql:
  "compile_range rfc ymd field v w = Inr f \<Longrightarrow> compile_range rfc' ymd' field v' w' = Inr g \<Longrightarrow> fr_sql f = fr_sql g"
  by (auto simp: compile_range_def and_then_Inr_iff split: if_splits)

lemma compile_shape:
  "compile rfc ymd a = Inr f \<Longrightarrow> compile rfc' ymd' b = Inr g \<Longrightarrow> shape a = shape b \<Longrightarrow> fr_sql f = fr_sql g"
proof (induction a arbitrary: b f g)
  case (AAnd l r)
  then obtain l' r' where b: "b = AAnd l' r'" by (cases b) auto
  from AAnd.prems b have sh: "shape l = shape l'" "shape r = shape r'" by simp_all
  from AAnd.prems b obtain fl fr gl gr where c:
    "compile rfc ymd l = Inr fl" "compile rfc ymd r = Inr fr" "compile rfc' ymd' l' = Inr gl" "compile rfc' ymd' r' = Inr gr"
    and fg: "f = combine ''AND'' fl fr" "g = combine ''AND'' gl gr" by (auto simp: and_then_Inr_iff)
  from AAnd.IH(1) [OF c(1) c(3) sh(1)] AAnd.IH(2) [OF c(2) c(4) sh(2)] fg show ?case by (simp add: combine_def)
next
  case (AOr l r)
  then obtain l' r' where b: "b = AOr l' r'" by (cases b) auto
  from AOr.prems b have sh: "shape l = shape l'" "shape r = shape r'" by simp_all
  from AOr.prems b obtain fl fr gl gr where c:
    "compile rfc ymd l = Inr fl" "compile rfc ymd r = Inr fr" "compile rfc' ymd' l' = Inr gl" "compile rfc' ymd' r' = Inr gr"
    and fg: "f = combine ''OR'' fl fr" "g = combine ''OR'' gl gr" by (auto simp: and_then_Inr_iff)
  from AOr.IH(1) [OF c(1) c(3) sh(1)] AOr.IH(2) [OF c(2) c(4) sh(2)] fg show ?case by (simp add: combine_def)
next
  case (ANot e)
  then obtain e' where b: "b = ANot e'" by (cases b) auto
  from ANot.prems b have sh: "shape e = shape e'" by simp
  from ANot.prems b obtain f' g' where c: "compile rfc ymd e = Inr f'" "compile rfc' ymd' e' = Inr g'"
    and "fr_sql f = ''NOT ('' @ fr_sql f' @ '')''" "fr_sql g = ''NOT ('' @ fr_sql g' @ '')''"
    by (auto simp: and_then_Inr_iff)
  with ANot.IH [OF c sh] show ?case by simp
next
  case (ACmp field op v)
  then obtain w where "b = ACmp field op w" by (cases b) auto
  with ACmp show ?case by (auto dest: compile_cmp_sql)
next
  case (AInRange field lo hi)
  then obtain v w where "b = AInRange field v w" by (cases b) auto
  with AInRange show ?case by (auto dest: compile_range_sql)
qed

section \<open>Properties\<close>

text \<open>The compiled condition is safe to number: its Postgres form has exactly one
  placeholder per bound value, numbered consecutively from the given index, left to right
  in the order of the values, and the index returned is the next free one.\<close>

theorem chql_placeholders:
  assumes "compile rfc ymd a = Inr f"
  shows "placeholders (fst (to_pg f n)) = [n..<n + length (fr_binds f)] \<and> snd (to_pg f n) = n + length (fr_binds f)"
  using compile_ok [OF assms] to_pg_from_placeholders [of "fr_sql f" n] by (simp add: frag_ok_def to_pg_def)

definition sample_query :: "string \<Rightarrow> Ast" where
  "sample_query v = AAnd (ACmp ''state'' OpEq (VStr v)) (AInRange ''exit_code'' (VNum (Fin 1)) (VNum (Fin 5)))"

lemma sample_query_compiles:
  "compile (\<lambda>_. None) (\<lambda>_. None) (sample_query v) =
     Inr (combine ''AND'' \<lparr> fr_sql = ''state = ?'', fr_binds = [BStr v] \<rparr>
            \<lparr> fr_sql = jobs_exists ''exit_code BETWEEN ? AND ?'', fr_binds = [BNum (Fin 1), BNum (Fin 5)] \<rparr>)"
  by (simp add: sample_query_def compile_cmp_def compile_range_def resolve_def needs_jobs_subquery_def one_bind_def
      value_to_bind_def)

lemma sample_query_shape: "shape (sample_query v) = shape (sample_query w)"
  by (simp add: sample_query_def)

theorem chql_placeholders_witness:
  "\<exists>f. compile (\<lambda>_. None) (\<lambda>_. None) (sample_query ''failed'') = Inr f \<and> length (fr_binds f) = 3
     \<and> placeholders (fst (to_pg f 4)) = [4, 5, 6] \<and> snd (to_pg f 4) = 7"
  using chql_placeholders [OF sample_query_compiles [of "''failed''"], of 4]
  by (auto simp: sample_query_compiles combine_def upt_rec)

text \<open>C18: No user string reaches the SQL text: two queries of the same shape, whatever values
  they compare with, compile to the same SQL.\<close>

theorem chql_values_never_in_sql:
  assumes "compile rfc ymd a = Inr f" "compile rfc ymd b = Inr g" "shape a = shape b"
  shows "fr_sql f = fr_sql g"
  by (rule compile_shape [OF assms])

theorem chql_values_never_in_sql_witness:
  "\<exists>f g. compile (\<lambda>_. None) (\<lambda>_. None) (sample_query ''failed'') = Inr f
       \<and> compile (\<lambda>_. None) (\<lambda>_. None) (sample_query ''x OR 1=1; --'') = Inr g \<and> fr_sql f = fr_sql g \<and> fr_binds f \<noteq> fr_binds g"
  using chql_values_never_in_sql [OF sample_query_compiles [of "''failed''"] sample_query_compiles [of "''x OR 1=1; --''"]
      sample_query_shape] by (simp add: sample_query_compiles combine_def)

text \<open>C19: Every field the parser accepts is known to the compiler: compiling a parsed query
  never fails with an unknown field.\<close>

theorem parsed_fields_known:
  assumes "parse s = Inr (Some a)"
  shows "compile rfc ymd a \<noteq> Inl (UnknownField f)"
  using assms parse_fields(1) compile_known unfolding parse_Some_iff by blast

theorem parsed_fields_known_witness:
  "parse ''state:failed'' = Inr (Some (ACmp ''state'' OpEq (VStr ''failed'')))
   \<and> compile (\<lambda>_. None) (\<lambda>_. None) (ACmp ''state'' OpEq (VStr ''failed'')) \<noteq> Inl (UnknownField ''state'')"
proof -
  have "parse ''state:failed'' = Inr (Some (ACmp ''state'' OpEq (VStr ''failed'')))" by code_simp
  with parsed_fields_known [OF this] show ?thesis by blast
qed

text \<open>A range on the stage name is compiled to a range on the exit code.\<close>

theorem stage_range_filters_exit_code:
  "compile rfc ymd (AInRange ''stage'' (VNum a) (VNum b)) = compile rfc ymd (AInRange ''exit_code'' (VNum a) (VNum b))"
  by (simp add: compile_range_def resolve_def needs_jobs_subquery_def)

end
