(* ===== verification/Analytics.thy ===== *)
theory Analytics
  imports Chql_Compile
begin

text \<open>
  The WHERE clauses of the analytics queries (\<open>storage.rs\<close>, \<open>AnalyticsFilters\<close> to
  \<open>bind_chql\<close>) and their parameters (\<open>api/analytics_handlers.rs\<close>): each filter adds a
  clause with a numbered placeholder, a ChQL condition is spliced in behind them, and
  the values are bound in the same order.  The bound query is the list of its arguments.
\<close>

section \<open>Windows and granularity\<close>

datatype AnalyticsWindow = Range datetime datetime | LastDays int

datatype Granularity = Hour | Day

fun as_sql_unit :: "Granularity \<Rightarrow> string" where
  "as_sql_unit Hour = ''hour''"
| "as_sql_unit Day = ''day''"

definition days :: "int \<Rightarrow> int" where
  "days n = n * 86400 * nanos_per_sec"

definition AUTO_HOUR_MAX_DAYS :: int where
  "AUTO_HOUR_MAX_DAYS = 7"

definition auto_granularity :: "datetime \<Rightarrow> datetime \<Rightarrow> Granularity" where
  "auto_granularity from to = (if to - from \<le> days AUTO_HOUR_MAX_DAYS then Hour else Day)"

definition resolve_granularity :: "string option \<Rightarrow> datetime \<Rightarrow> datetime \<Rightarrow> Granularity" where
  "resolve_granularity mode from to =
     (let m = map_option (map lower) mode
      in if m = Some ''hour'' then Hour else if m = Some ''day'' then Day else auto_granularity from to)"

fun window_bounds :: "AnalyticsWindow \<Rightarrow> datetime \<Rightarrow> datetime \<times> datetime" where
  "window_bounds (Range from to) now = (from, to)"
| "window_bounds (LastDays n) now = (now - days n, now)"

section \<open>Filters and plans\<close>

record AnalyticsFilters =
  af_window :: AnalyticsWindow
  af_repo_id :: "uuid option"
  af_branch :: "string option"
  af_stage_name :: "string option"
  af_exit_code :: "int option"
  af_granularity :: Granularity

record AnalyticsPlan =
  ap_where_clause :: string
  ap_next_idx :: nat

text \<open>The list of clauses and the counter behind the closure \<open>next\<close>.\<close>

type_synonym clauses = "string list \<times> nat"

definition ph :: "nat \<Rightarrow> string" where
  "ph n = CHR ''$'' # nat_to_dec n"

definition push_param :: "string \<Rightarrow> string \<Rightarrow> clauses \<Rightarrow> clauses" where
  "push_param before after = (\<lambda>(cs, idx). (cs @ [before @ ph (idx + 1) @ after], idx + 1))"

definition push_plain :: "string \<Rightarrow> clauses \<Rightarrow> clauses" where
  "push_plain c = (\<lambda>(cs, idx). (cs @ [c], idx))"

definition window_clauses :: "string \<Rightarrow> AnalyticsWindow \<Rightarrow> clauses \<Rightarrow> clauses" where
  "window_clauses p w cs =
     (case w of
        Range _ _ \<Rightarrow> push_param (p @ ''created_at <= '') [] (push_param (p @ ''created_at >= '') [] cs)
      | LastDays _ \<Rightarrow> push_param (p @ ''created_at > NOW() - make_interval(days => '') '')'' cs)"

definition param_when :: "'a option \<Rightarrow> string \<Rightarrow> string \<Rightarrow> clauses \<Rightarrow> clauses" where
  "param_when v before after cs = (if v \<noteq> None then push_param before after cs else cs)"

definition exit_code_clauses :: "int option \<Rightarrow> string \<Rightarrow> string \<Rightarrow> string \<Rightarrow> clauses \<Rightarrow> clauses" where
  "exit_code_clauses ec nonzero before after cs =
     (case ec of None \<Rightarrow> cs | Some x \<Rightarrow> if x = - 1 then push_plain nonzero cs else push_param before after cs)"

definition finish_plan :: "clauses \<Rightarrow> AnalyticsPlan" where
  "finish_plan = (\<lambda>(cs, idx).
     \<lparr> ap_where_clause = (if cs = [] then [] else ''WHERE '' @ str_join '' AND '' cs), ap_next_idx = idx + 1 \<rparr>)"

definition plan_for_job_groups :: "AnalyticsFilters \<Rightarrow> string \<Rightarrow> string list \<Rightarrow> AnalyticsPlan" where
  "plan_for_job_groups f pre extras =
     (let p = (if pre = [] then [] else pre @ ''.'');
          ex = ''EXISTS (SELECT 1 FROM jobs j_f WHERE j_f.job_group_id = '' @ p @ ''id AND j_f.'';
          cs = window_clauses p (af_window f) (extras, 0);
          cs = param_when (af_repo_id f) (p @ ''repo_id = '') [] cs;
          cs = param_when (af_branch f) (p @ ''branch = '') [] cs;
          cs = param_when (af_stage_name f) (ex @ ''stage_name = '') '')'' cs;
          cs = exit_code_clauses (af_exit_code f) (ex @ ''exit_code IS NOT NULL AND j_f.exit_code != 0)'')
                 (ex @ ''exit_code = '') '')'' cs
      in finish_plan cs)"

definition plan_for_jobs :: "AnalyticsFilters \<Rightarrow> string \<Rightarrow> string \<Rightarrow> string \<Rightarrow> string list \<Rightarrow> AnalyticsPlan" where
  "plan_for_jobs f j sc jg extras =
     (let cs = window_clauses (j @ ''.'') (af_window f) (extras, 0);
          cs = param_when (af_repo_id f) (sc @ ''.repo_id = '') [] cs;
          cs = param_when (af_branch f) (jg @ ''.branch = '') [] cs;
          cs = param_when (af_stage_name f) (j @ ''.stage_name = '') [] cs;
          cs = exit_code_clauses (af_exit_code f) (j @ ''.exit_code IS NOT NULL AND '' @ j @ ''.exit_code != 0'')
                 (j @ ''.exit_code = '') [] cs
      in finish_plan cs)"

datatype PgArg = ArgDate datetime | ArgInt int | ArgUuid uuid | ArgText string | ArgFloat f64

definition bind_for_job_groups :: "AnalyticsFilters \<Rightarrow> PgArg list \<Rightarrow> PgArg list" where
  "bind_for_job_groups f q =
     q @ (case af_window f of Range from to \<Rightarrow> [ArgDate from, ArgDate to] | LastDays n \<Rightarrow> [ArgInt n])
       @ (case af_repo_id f of Some r \<Rightarrow> [ArgUuid r] | None \<Rightarrow> [])
       @ (case af_branch f of Some b \<Rightarrow> [ArgText b] | None \<Rightarrow> [])
       @ (case af_stage_name f of Some s \<Rightarrow> [ArgText s] | None \<Rightarrow> [])
       @ (case af_exit_code f of Some x \<Rightarrow> if x \<noteq> - 1 then [ArgInt x] else [] | None \<Rightarrow> [])"

definition bind_for_jobs :: "AnalyticsFilters \<Rightarrow> PgArg list \<Rightarrow> PgArg list" where
  "bind_for_jobs f q = bind_for_job_groups f q"

definition merge_chql :: "AnalyticsPlan \<Rightarrow> SqlFragment option \<Rightarrow> string option \<Rightarrow> AnalyticsPlan" where
  "merge_chql plan chql wrap_subquery =
     (case chql of
        None \<Rightarrow> plan
      | Some frag \<Rightarrow>
          (let (renumbered, next_idx) = to_pg frag (ap_next_idx plan);
               chunk = (case wrap_subquery of
                          None \<Rightarrow> renumbered
                        | Some al \<Rightarrow> al @ ''.id IN (SELECT id FROM job_groups WHERE '' @ renumbered @ '')'')
           in \<lparr> ap_where_clause = (if ap_where_clause plan = [] then ''WHERE '' @ chunk
                                   else ap_where_clause plan @ '' AND ('' @ chunk @ '')''),
                ap_next_idx = next_idx \<rparr>))"

fun pg_arg :: "SqlBind \<Rightarrow> PgArg" where
  "pg_arg (BStr s) = ArgText s"
| "pg_arg (BNum n) = ArgFloat n"
| "pg_arg (BDate d) = ArgDate d"

definition bind_chql :: "SqlFragment option \<Rightarrow> PgArg list \<Rightarrow> PgArg list" where
  "bind_chql chql q = (case chql of None \<Rightarrow> q | Some frag \<Rightarrow> q @ map pg_arg (fr_binds frag))"

text \<open>The \<open>?q=\<close> parameter; the error is the message of the bad request.\<close>

definition compile_chql_param :: "date_parser \<Rightarrow> date_parser \<Rightarrow> string option \<Rightarrow> string + SqlFragment option" where
  "compile_chql_param rfc ymd q =
     (case q of
        None \<Rightarrow> Inr None
      | Some raw \<Rightarrow>
          if blank (map code raw) then Inr None
          else case parse raw of
                 Inl e \<Rightarrow> Inl (bad_request_message e)
               | Inr None \<Rightarrow> Inr None
               | Inr (Some ast) \<Rightarrow>
                   (case compile rfc ymd ast of
                      Inl e \<Rightarrow> Inl (compile_error_display e)
                    | Inr frag \<Rightarrow> Inr (Some frag)))"

section \<open>Placeholders of a plan\<close>

lemma placeholders_prefix: "CHR ''$'' \<notin> set a \<Longrightarrow> placeholders (a @ b) = placeholders b"
  by (induction a) (auto simp: placeholders_def)

lemma placeholders_ph:
  "CHR ''$'' \<notin> set a \<Longrightarrow> CHR ''$'' \<notin> set b \<Longrightarrow> \<not> starts_digit b \<Longrightarrow> placeholders (a @ ph n @ b) = [n]"
  by (simp add: placeholders_prefix) (simp add: placeholders_def ph_def scan_nat_to_dec scan_not_digit
      placeholders_none [unfolded placeholders_def])

lemma placeholders_join:
  "\<not> starts_digit sep \<Longrightarrow> sep \<noteq> [] \<Longrightarrow> CHR ''$'' \<notin> set sep
     \<Longrightarrow> placeholders (str_join sep cs) = concat (map placeholders cs)"
  by (induction sep cs rule: str_join.induct)
    (auto simp: placeholders_append placeholders_prefix starts_digit_def, auto simp: placeholders_def)

definition numbered :: "clauses \<Rightarrow> bool" where
  "numbered = (\<lambda>(cs, idx). concat (map placeholders cs) = [1..<idx + 1])"

lemma numbered_push_param:
  assumes "numbered cs" "CHR ''$'' \<notin> set a" "CHR ''$'' \<notin> set b" "\<not> starts_digit b"
  shows "numbered (push_param a b cs)"
  using assms by (cases cs) (simp add: numbered_def push_param_def placeholders_ph)

lemma numbered_push_plain: "numbered cs \<Longrightarrow> CHR ''$'' \<notin> set c \<Longrightarrow> numbered (push_plain c cs)"
  by (cases cs) (simp add: numbered_def push_plain_def placeholders_none)

lemma placeholders_where: "placeholders (''WHERE '' @ str_join '' AND '' cs) = concat (map placeholders cs)"
  by (subst placeholders_prefix) (simp_all add: placeholders_join starts_digit_def is_digit_def code_def)

lemma numbered_finish:
  assumes "numbered cs"
  shows "placeholders (ap_where_clause (finish_plan cs)) = [1..<ap_next_idx (finish_plan cs)]"
proof (cases cs)
  case (Pair c idx)
  then have "concat (map placeholders c) = [1..<idx + 1]" using assms by (simp add: numbered_def)
  moreover have "placeholders [] = []" by (simp add: placeholders_none)
  ultimately show ?thesis unfolding Pair finish_plan_def
    by (cases "c = []") (simp_all only: placeholders_where prod.case if_True if_False AnalyticsPlan.select_convs list.map concat.simps simp_thms)
qed

lemma numbered_window:
  "numbered cs \<Longrightarrow> CHR ''$'' \<notin> set p \<Longrightarrow> numbered (window_clauses p w cs)"
  by (cases w) (auto simp: window_clauses_def starts_digit_def is_digit_def code_def intro!: numbered_push_param)

lemma numbered_param_when:
  "numbered cs \<Longrightarrow> CHR ''$'' \<notin> set a \<Longrightarrow> CHR ''$'' \<notin> set b \<Longrightarrow> \<not> starts_digit b \<Longrightarrow> numbered (param_when v a b cs)"
  by (simp add: param_when_def numbered_push_param)

lemma numbered_exit_code:
  "numbered cs \<Longrightarrow> CHR ''$'' \<notin> set nz \<Longrightarrow> CHR ''$'' \<notin> set a \<Longrightarrow> CHR ''$'' \<notin> set b \<Longrightarrow> \<not> starts_digit b
     \<Longrightarrow> numbered (exit_code_clauses ec nz a b cs)"
  by (simp add: exit_code_clauses_def numbered_push_param numbered_push_plain split: option.split)

lemma numbered_extras: "\<forall>e \<in> set extras. CHR ''$'' \<notin> set e \<Longrightarrow> numbered (extras, 0)"
  by (induction extras) (auto simp: numbered_def placeholders_none)

lemma no_digit_ends [simp]: "\<not> starts_digit []" "\<not> starts_digit '')''"
  by (simp_all add: starts_digit_def is_digit_def code_def)

lemmas numbered_rules = numbered_finish numbered_exit_code numbered_param_when numbered_window numbered_extras

lemma plan_job_groups_numbered:
  assumes "CHR ''$'' \<notin> set pre" "\<forall>e \<in> set extras. CHR ''$'' \<notin> set e"
  shows "placeholders (ap_where_clause (plan_for_job_groups f pre extras)) = [1..<ap_next_idx (plan_for_job_groups f pre extras)]"
  unfolding plan_for_job_groups_def Let_def using assms by (intro numbered_rules) auto

lemma plan_jobs_numbered:
  assumes "CHR ''$'' \<notin> set (j @ sc @ jg)" "\<forall>e \<in> set extras. CHR ''$'' \<notin> set e"
  shows "placeholders (ap_where_clause (plan_for_jobs f j sc jg extras)) = [1..<ap_next_idx (plan_for_jobs f j sc jg extras)]"
  unfolding plan_for_jobs_def Let_def using assms by (intro numbered_rules) auto

text \<open>The counter after each step.\<close>

lemma clause_counters:
  "snd (push_param a b cs) = Suc (snd cs)" "snd (push_plain c cs) = snd cs"
  "snd (window_clauses p w cs) = snd cs + (case w of Range _ _ \<Rightarrow> 2 | LastDays _ \<Rightarrow> 1)"
  "snd (param_when v a b cs) = snd cs + (if v = None then 0 else 1)"
  "snd (exit_code_clauses ec nz a b cs) = snd cs + (case ec of None \<Rightarrow> 0 | Some x \<Rightarrow> if x = - 1 then 0 else 1)"
  "ap_next_idx (finish_plan cs) = Suc (snd cs)"
  by (auto simp: push_param_def push_plain_def window_clauses_def param_when_def exit_code_clauses_def finish_plan_def
      split: AnalyticsWindow.splits option.splits prod.splits)

lemma plan_counts:
  "ap_next_idx (plan_for_job_groups f pre extras) = Suc (length (bind_for_job_groups f []))"
  "ap_next_idx (plan_for_jobs f j sc jg extras) = Suc (length (bind_for_jobs f []))"
  by (auto simp: plan_for_job_groups_def plan_for_jobs_def bind_for_jobs_def bind_for_job_groups_def Let_def clause_counters
      split: AnalyticsWindow.splits option.splits)

lemma merge_numbered:
  assumes "placeholders (ap_where_clause plan) = [1..<ap_next_idx plan]" "1 \<le> ap_next_idx plan"
    and "\<And>frag. chql = Some frag \<Longrightarrow> frag_ok frag" "\<And>a. wrap = Some a \<Longrightarrow> CHR ''$'' \<notin> set a"
  shows "placeholders (ap_where_clause (merge_chql plan chql wrap)) = [1..<ap_next_idx (merge_chql plan chql wrap)]
       \<and> ap_next_idx (merge_chql plan chql wrap) = ap_next_idx plan + length (bind_chql chql [])"
proof (cases chql)
  case None
  with assms(1) show ?thesis by (simp add: merge_chql_def bind_chql_def)
next
  case (Some frag)
  obtain s n where pg: "to_pg frag (ap_next_idx plan) = (s, n)" by (cases "to_pg frag (ap_next_idx plan)")
  with assms(3) Some have s: "placeholders s = [ap_next_idx plan..<n]" "n = ap_next_idx plan + length (fr_binds frag)"
    using to_pg_from_placeholders [of "fr_sql frag" "ap_next_idx plan"] by (auto simp: frag_ok_def to_pg_def)
  have close: "placeholders '')'' = []" by (simp add: placeholders_none)
  define chunk where "chunk = (case wrap of None \<Rightarrow> s
                                | Some al \<Rightarrow> al @ ''.id IN (SELECT id FROM job_groups WHERE '' @ s @ '')'')"
  have chunk: "placeholders chunk = [ap_next_idx plan..<n]"
  proof (cases wrap)
    case (Some al)
    then have "placeholders chunk = placeholders ((al @ ''.id IN (SELECT id FROM job_groups WHERE '') @ s @ '')'')"
      by (simp add: chunk_def)
    also have "\<dots> = placeholders s @ placeholders '')''"
      using assms(4) [OF Some] by (subst placeholders_prefix) (simp_all add: placeholders_append)
    finally show ?thesis using s close by simp
  qed (simp add: chunk_def s)
  have "placeholders (''WHERE '' @ chunk) = placeholders chunk" by (subst placeholders_prefix) simp_all
  moreover have "placeholders (w @ '' AND ('' @ chunk @ '')'') = placeholders w @ placeholders chunk" for w
  proof -
    have "placeholders ('' AND ('' @ chunk @ '')'') = placeholders (chunk @ '')'')" by (subst placeholders_prefix) simp_all
    also have "\<dots> = placeholders chunk" using close by (simp add: placeholders_append)
    finally show ?thesis by (subst placeholders_append) (simp_all add: starts_digit_def is_digit_def code_def)
  qed
  moreover have "[1..<ap_next_idx plan] @ [ap_next_idx plan..<n] = [1..<n]"
    unfolding s(2) using assms(2) by (rule upt_add_eq_append [symmetric])
  moreover have "placeholders [] = []" by (simp add: placeholders_none)
  ultimately show ?thesis using assms(1) chunk s(2) pg
    unfolding Some merge_chql_def Let_def by (auto simp: chunk_def [symmetric] bind_chql_def)
qed

lemma compile_chql_param_ok: "compile_chql_param rfc ymd q = Inr (Some frag) \<Longrightarrow> frag_ok frag"
  by (auto simp: compile_chql_param_def compile_ok split: option.splits if_splits sum.splits)

section \<open>Properties\<close>

text \<open>C20: Every analytics query is bound consistently: after the filters are planned and the
  user's ChQL condition is spliced in, the WHERE clause holds the placeholders
  \<open>$1, $2, ...\<close> once each and in order, exactly as many as there are bound arguments, and the next
  free index is one more, for queries over job groups and over jobs.  The table prefixes
  and fixed extra clauses contain no placeholder.\<close>

theorem analytics_binds_match:
  assumes "compile_chql_param rfc ymd q = Inr chql"
    and "\<forall>s \<in> set ([pre, j, sc, jg] @ extras). CHR ''$'' \<notin> set s" "\<forall>a. wrap = Some a \<longrightarrow> CHR ''$'' \<notin> set a"
    and "plan = plan_for_job_groups f pre extras \<and> args = bind_chql chql (bind_for_job_groups f [])
       \<or> plan = plan_for_jobs f j sc jg extras \<and> args = bind_chql chql (bind_for_jobs f [])"
  shows "placeholders (ap_where_clause (merge_chql plan chql wrap)) = [1..<ap_next_idx (merge_chql plan chql wrap)]
       \<and> ap_next_idx (merge_chql plan chql wrap) = Suc (length args)"
proof -
  have plan: "placeholders (ap_where_clause plan) = [1..<ap_next_idx plan]"
    "ap_next_idx plan = Suc (length (bind_for_job_groups f []))"
    using assms(2,4) plan_job_groups_numbered [of pre extras f] plan_jobs_numbered [of j sc jg extras f]
    by (auto simp: plan_counts bind_for_jobs_def)
  have "frag_ok frag" if "chql = Some frag" for frag using assms(1) that compile_chql_param_ok by blast
  moreover have "length args = length (bind_for_job_groups f []) + length (bind_chql chql [])"
    using assms(4) by (auto simp: bind_chql_def bind_for_jobs_def split: option.splits)
  ultimately show ?thesis using merge_numbered [OF plan(1), of chql wrap] plan(2) assms(3) by simp
qed

theorem analytics_binds_match_witness:
  "let f = \<lparr> af_window = LastDays 30, af_repo_id = None, af_branch = Some ''main'', af_stage_name = None,
             af_exit_code = Some (- 1), af_granularity = Day \<rparr>;
       chql = Some \<lparr> fr_sql = ''state = ?'', fr_binds = [BStr ''failed''] \<rparr>;
       merged = merge_chql (plan_for_job_groups f [] []) chql None
   in compile_chql_param (\<lambda>_. None) (\<lambda>_. None) (Some ''state:failed'') = Inr chql
    \<and> placeholders (ap_where_clause merged) = [1, 2, 3] \<and> ap_next_idx merged = 4
    \<and> bind_chql chql (bind_for_job_groups f []) = [ArgInt 30, ArgText ''main'', ArgText ''failed'']"
proof -
  let ?f = "\<lparr> af_window = LastDays 30, af_repo_id = None, af_branch = Some ''main'', af_stage_name = None,
             af_exit_code = Some (- 1), af_granularity = Day \<rparr>"
  let ?chql = "Some \<lparr> fr_sql = ''state = ?'', fr_binds = [BStr ''failed''] \<rparr>"
  have chql: "compile_chql_param (\<lambda>_. None) (\<lambda>_. None) (Some ''state:failed'') = Inr ?chql" by code_simp
  have args: "bind_chql ?chql (bind_for_job_groups ?f []) = [ArgInt 30, ArgText ''main'', ArgText ''failed'']"
    by (simp add: bind_chql_def bind_for_job_groups_def)
  show ?thesis
    using analytics_binds_match [OF chql, of "[]" "[]" "[]" "[]" "[]" None "plan_for_job_groups ?f [] []" ?f
        "bind_chql ?chql (bind_for_job_groups ?f [])"] chql args
    by (simp add: Let_def upt_rec)
qed

end
