(* ===== verification/Spec2Isabelle.thy ===== *)
theory Spec2Isabelle
  imports Retention System Log_Streamer Chql_Print Analytics
begin

text \<open>
  Chola is a distributed CI orchestrator: a controller (\<open>ci-controller\<close>) accepts job
  groups, reserves a worker for each, dispatches stages and collects status and logs;
  workers (\<open>ci-worker\<close>) run the stages.
\<close>

end
